(* ===== verification/Prelude.thy ===== *)
theory Prelude
  imports Main "HOL-Library.Word" "HOL-Library.AList" "HOL-Library.Char_ord"
    "HOL-Library.List_Lexorder"
begin

text \<open>
  What every component theory shares: the machine integer types of the Rust code, its errors as
  values, the combinators of \<open>Result\<close> and \<open>Iterator::collect\<close>, the decimal text of an unsigned
  integer (\<open>ToString\<close> of the Rust standard library), the byte strings of the library instances,
  and generic facts on lists and association lists. The collection \<open>res\<close> holds the rewrite rules of
  the result combinators, so that \<open>simp add: res\<close> evaluates straight-line fallible code.
\<close>

named_theorems res "evaluation and inversion of the result combinators"

section \<open>Machine integers and byte strings\<close>

type_synonym u8 = "8 word"
type_synonym u16 = "16 word"
type_synonym u32 = "32 word"
type_synonym u64 = "64 word"
type_synonym u128 = "128 word"
type_synonym u256 = "256 word"
type_synonym i32 = "32 word"
type_synonym bytes = "u8 list"

lemma unat_ucast_u64 [simp]: "unat (ucast (m :: u64) :: u256) = unat m"
proof -
  have "unat m < 2 ^ 64" using unsigned_less[of m, where 'a = nat] by simp
  then show ?thesis by (simp add: unsigned_ucast_eq take_bit_nat_eq_self)
qed

text \<open>The fixed byte arrays of the alloy crates, read as the number their bytes spell.\<close>

type_synonym address = "160 word"
type_synonym b256 = "256 word"
type_synonym b64 = "64 word"
type_synonym bloom = "2048 word"

section \<open>Errors and results\<close>

text \<open>
  One error type for the development. \<open>Eyre\<close> is a message made by \<open>eyre!\<close>, \<open>bail!\<close> or
  \<open>ok_or_eyre\<close>; \<open>Panic\<close> is a failed \<open>unwrap\<close>, \<open>expect\<close> or assertion, which Rust does not
  return to the caller but which a caller never survives either; the other constructors are the
  errors of the libraries that \<open>?\<close> passes on.
\<close>

datatype err =
    Eyre string
  | SliceError
  | UnknownEnumValue i32
  | InvalidParity u64
  | SerdeError
  | ParseError string
  | QueryReturnedNoRows
  | UniqueViolation string
  | NoSuchColumn string
  | TryFromIntError
  | External string
  | Panic string

text \<open>\<open>Result::and_then\<close>: the \<open>?\<close> operator, with the rest of the function as \<open>f\<close>.\<close>

definition and_then :: "'e + 'a \<Rightarrow> ('a \<Rightarrow> 'e + 'b) \<Rightarrow> 'e + 'b" where
  "and_then m f = (case m of Inl e \<Rightarrow> Inl e | Inr x \<Rightarrow> f x)"

text \<open>\<open>Option::ok_or\<close> (and \<open>ok_or_eyre\<close>).\<close>

definition ok_or :: "'e \<Rightarrow> 'a option \<Rightarrow> 'e + 'a" where
  "ok_or e x = (case x of None \<Rightarrow> Inl e | Some y \<Rightarrow> Inr y)"

text \<open>\<open>opt.as_ref().map(f).transpose()?\<close>: the function on the content of an option, if any.\<close>

definition opt_try :: "('a \<Rightarrow> 'e + 'b) \<Rightarrow> 'a option \<Rightarrow> 'e + 'b option" where
  "opt_try f x = (case x of None \<Rightarrow> Inr None | Some y \<Rightarrow> and_then (f y) (\<lambda>z. Inr (Some z)))"

text \<open>\<open>iter.map(f).collect::<Result<Vec<_>, _>>()\<close>: stops at the first error.\<close>

fun try_collect :: "('a \<Rightarrow> 'e + 'b) \<Rightarrow> 'a list \<Rightarrow> 'e + 'b list" where
  "try_collect f [] = Inr []"
| "try_collect f (x # xs) =
     and_then (f x) (\<lambda>y. and_then (try_collect f xs) (\<lambda>ys. Inr (y # ys)))"

lemma and_then_simps [simp, res]:
  "and_then (Inr x) f = f x"
  "and_then (Inl e) f = Inl e"
  by (simp_all add: and_then_def)

lemma and_then_Inr [simp]: "and_then m Inr = m"
  by (cases m) auto

lemma and_then_Inr_iff [res]:
  "and_then m f = Inr y \<longleftrightarrow> (\<exists>x. m = Inr x \<and> f x = Inr y)"
  by (cases m) auto

lemma and_then_Inl_iff:
  "and_then m f = Inl e \<longleftrightarrow> m = Inl e \<or> (\<exists>x. m = Inr x \<and> f x = Inl e)"
  by (cases m) auto

lemma and_then_assoc: "and_then (and_then m f) g = and_then m (\<lambda>x. and_then (f x) g)"
  by (cases m) auto

lemma and_then_cong [fundef_cong]:
  "m = m' \<Longrightarrow> (\<And>x. m' = Inr x \<Longrightarrow> f x = g x) \<Longrightarrow> and_then m f = and_then m' g"
  by (cases m') auto

lemma ok_or_simps [simp, res]: "ok_or e None = Inl e" "ok_or e (Some x) = Inr x"
  by (simp_all add: ok_or_def)

lemma ok_or_Inr_iff [simp, res]: "ok_or e x = Inr y \<longleftrightarrow> x = Some y"
  by (cases x) auto

lemma opt_try_simps [simp, res]:
  "opt_try f None = Inr None"
  "opt_try f (Some x) = and_then (f x) (\<lambda>z. Inr (Some z))"
  by (simp_all add: opt_try_def)

lemma try_collect_append:
  "try_collect f (xs @ ys) =
     and_then (try_collect f xs) (\<lambda>us. and_then (try_collect f ys) (\<lambda>vs. Inr (us @ vs)))"
  by (induction xs) (auto simp: and_then_assoc)

lemma try_collect_map: "try_collect f (map g xs) = try_collect (\<lambda>x. f (g x)) xs"
  by (induction xs) auto

lemma try_collect_Inr:
  "(\<And>x. x \<in> set xs \<Longrightarrow> f x = Inr (g x)) \<Longrightarrow> try_collect f xs = Inr (map g xs)"
  by (induction xs) auto

lemma try_collect_Inr_iff [res]:
  "try_collect f xs = Inr ys \<longleftrightarrow> list_all2 (\<lambda>x y. f x = Inr y) xs ys"
proof (induction xs arbitrary: ys)
  case (Cons x xs)
  then show ?case by (cases ys) (auto simp: and_then_Inr_iff)
qed auto

lemma try_collect_length: "try_collect f xs = Inr ys \<Longrightarrow> length ys = length xs"
  by (auto simp: try_collect_Inr_iff dest: list_all2_lengthD)

lemma try_collect_Inl:
  "try_collect f xs = Inl e \<Longrightarrow> \<exists>x \<in> set xs. f x = Inl e"
  by (induction xs) (auto simp: and_then_Inl_iff)

lemma try_collect_cong [fundef_cong]:
  "xs = ys \<Longrightarrow> (\<And>x. x \<in> set ys \<Longrightarrow> f x = g x) \<Longrightarrow> try_collect f xs = try_collect g ys"
  by (induction ys arbitrary: xs) auto

section \<open>Collecting into a hash map\<close>

lemma map_of_rev_distinct: "distinct (map fst kvs) \<Longrightarrow> map_of (rev kvs) = map_of kvs"
  by (subst map_of_inject_set) (auto simp: rev_map [symmetric])

text \<open>
  \<open>collect::<HashMap<_, _>>()\<close> of an iterator of pairs: a later pair replaces an earlier one with
  the same key. A hash map is an association list with distinct keys, its order the (arbitrary)
  order in which the map iterates.
\<close>

definition collect_map :: "('k \<times> 'v) list \<Rightarrow> ('k \<times> 'v) list" where
  "collect_map kvs = fold (\<lambda>(k, v). AList.update k v) kvs []"

lemma alist_update_new: "k \<notin> fst ` set al \<Longrightarrow> AList.update k v al = al @ [(k, v)]"
  by (induction al) auto

lemma fold_update_distinct:
  "distinct (map fst kvs) \<Longrightarrow> fst ` set kvs \<inter> fst ` set al = {} \<Longrightarrow>
   fold (\<lambda>(k, v). AList.update k v) kvs al = al @ kvs"
proof (induction kvs arbitrary: al)
  case (Cons kv kvs)
  obtain k v where kv: "kv = (k, v)" by (cases kv)
  from Cons.prems kv have "k \<notin> fst ` set al" by auto
  then have "fold (\<lambda>(k, v). AList.update k v) (kv # kvs) al
      = fold (\<lambda>(k, v). AList.update k v) kvs (al @ [(k, v)])"
    by (simp add: kv alist_update_new)
  also have "\<dots> = (al @ [(k, v)]) @ kvs"
    using Cons.prems kv by (intro Cons.IH) auto
  finally show ?case by (simp add: kv)
qed simp

lemma collect_map_distinct [simp]: "distinct (map fst kvs) \<Longrightarrow> collect_map kvs = kvs"
  by (simp add: collect_map_def fold_update_distinct)

lemma distinct_collect_map: "distinct (map fst (collect_map kvs))"
proof -
  have "distinct (map fst al) \<Longrightarrow> distinct (map fst (fold (\<lambda>(k, v). AList.update k v) kvs al))"
    for al :: "('a \<times> 'b) list"
    by (induction kvs arbitrary: al) (auto simp: AList.distinct_update)
  then show ?thesis by (simp add: collect_map_def)
qed

section \<open>Decimal text\<close>

text \<open>\<open>u64::to_string\<close>: the decimal digits, most significant first, no leading zero.\<close>

definition digit_char :: "nat \<Rightarrow> char" where
  "digit_char d = char_of (48 + d)"

fun dec_string :: "nat \<Rightarrow> string" where
  "dec_string n = (if n < 10 then [digit_char n] else dec_string (n div 10) @ [digit_char (n mod 10)])"

declare dec_string.simps [simp del]

definition char_digit :: "char \<Rightarrow> nat option" where
  "char_digit c = (let k = of_char c :: nat in if 48 \<le> k \<and> k < 58 then Some (k - 48) else None)"

fun dec_value :: "nat \<Rightarrow> string \<Rightarrow> nat option" where
  "dec_value acc [] = Some acc"
| "dec_value acc (c # cs) =
     (case char_digit c of None \<Rightarrow> None | Some d \<Rightarrow> dec_value (acc * 10 + d) cs)"

definition dec_parse :: "string \<Rightarrow> nat option" where
  "dec_parse s = (if s = [] then None else dec_value 0 s)"

lemma char_digit_digit_char [simp]: "d < 10 \<Longrightarrow> char_digit (digit_char d) = Some d"
  by (simp add: char_digit_def digit_char_def Let_def)

lemma dec_string_nonempty [simp]: "dec_string n \<noteq> []"
  by (subst dec_string.simps) simp

lemma dec_value_append:
  "dec_value acc (xs @ ys) = Option.bind (dec_value acc xs) (\<lambda>v. dec_value v ys)"
  by (induction acc xs rule: dec_value.induct) (auto split: option.splits)

lemma dec_value_dec_string: "dec_value 0 (dec_string n) = Some n"
proof (induction n rule: dec_string.induct)
  case (1 n)
  show ?case
  proof (cases "n < 10")
    case True
    then show ?thesis by (subst dec_string.simps) simp
  next
    case False
    with "1.IH" have "dec_value 0 (dec_string (n div 10)) = Some (n div 10)" by simp
    with False show ?thesis
      by (subst dec_string.simps) (simp add: dec_value_append)
  qed
qed

lemma dec_parse_dec_string [simp]: "dec_parse (dec_string n) = Some n"
  by (simp add: dec_parse_def dec_value_dec_string)

lemma dec_string_inject [simp]: "dec_string m = dec_string n \<longleftrightarrow> m = n"
  by (metis dec_parse_dec_string option.inject)

lemma dec_string_step: "d < 10 \<Longrightarrow> 0 < n \<Longrightarrow> dec_string (10 * n + d) = dec_string n @ [digit_char d]"
  by (subst dec_string.simps) auto

section \<open>Byte strings\<close>

text \<open>A self-delimiting encoding of lists of byte strings.\<close>

definition frame :: "bytes \<Rightarrow> bytes" where
  "frame bs = concat (map (\<lambda>b. [1, b]) bs) @ [0]"

fun unframes :: "bytes \<Rightarrow> bytes \<Rightarrow> bytes list option" where
  "unframes acc [] = (if acc = [] then Some [] else None)"
| "unframes acc (x # r) =
     (if x = 0 then map_option (Cons acc) (unframes [] r)
      else case r of [] \<Rightarrow> None | b # r \<Rightarrow> unframes (acc @ [b]) r)"

lemma unframes_frame: "unframes acc (frame bs @ r) = map_option (Cons (acc @ bs)) (unframes [] r)"
  by (induction bs arbitrary: acc) (auto simp: frame_def)

lemma unframes_frames: "unframes [] (concat (map frame bss)) = Some bss"
  by (induction bss) (auto simp: unframes_frame)

definition text_bytes :: "string \<Rightarrow> bytes" where
  "text_bytes = map (\<lambda>c. word_of_nat (of_char c))"

definition text_of :: "bytes \<Rightarrow> string" where
  "text_of = map (\<lambda>b. char_of (unat b))"

lemma text_rt [simp]: "text_of (text_bytes s) = s"
proof -
  have "char_of (unat (word_of_nat (of_char c) :: u8)) = c" for c
    by (simp add: unat_of_nat)
  then show ?thesis by (simp add: text_of_def text_bytes_def comp_def)
qed

end
