(* ===== verification/Sql_Tables.thy ===== *)
theory Sql_Tables
  imports Prelude
begin

text \<open>
  The SQLite tables of the rollup and of the OP bridge, as lists of rows: a row is its UNIQUE key
  and its data, and a table's order is the order in which a query without ORDER BY returns its
  rows, which SQLite leaves open (so theorems hold for every order). One definition per statement
  form of the sources. The locale \<open>keyed_store\<close> is the contract that the undo logs of the rollup
  database rely on, and the table operations are its interpretation.
\<close>

type_synonym ('k, 'v) table = "('k \<times> 'v) list"

text \<open>The UNIQUE constraint.\<close>

definition unique_keys :: "('k, 'v) table \<Rightarrow> bool" where
  "unique_keys t \<longleftrightarrow> distinct (map fst t)"

text \<open>\<open>INSERT INTO tab VALUES ..\<close>: fails when the key is taken.\<close>

definition insert_row :: "string \<Rightarrow> 'k \<Rightarrow> 'v \<Rightarrow> ('k, 'v) table \<Rightarrow> err + ('k, 'v) table" where
  "insert_row tab k v t =
     (if k \<in> set (map fst t) then Inl (UniqueViolation tab) else Inr (t @ [(k, v)]))"

text \<open>\<open>INSERT .. ON CONFLICT(key) DO UPDATE SET data = excluded.data\<close>.\<close>

definition upsert_row :: "'k \<Rightarrow> 'v \<Rightarrow> ('k, 'v) table \<Rightarrow> ('k, 'v) table" where
  "upsert_row k v t = AList.update k v t"

text \<open>\<open>INSERT .. ON CONFLICT(key) DO NOTHING\<close> and \<open>INSERT OR IGNORE\<close>.\<close>

definition insert_or_ignore :: "'k \<Rightarrow> 'v \<Rightarrow> ('k, 'v) table \<Rightarrow> ('k, 'v) table" where
  "insert_or_ignore k v t = (if k \<in> set (map fst t) then t else t @ [(k, v)])"

text \<open>\<open>DELETE FROM tab WHERE p\<close>, for a condition on the key columns.\<close>

definition delete_rows :: "('k \<Rightarrow> bool) \<Rightarrow> ('k, 'v) table \<Rightarrow> ('k, 'v) table" where
  "delete_rows p t = filter (\<lambda>(k, _). \<not> p k) t"

text \<open>\<open>SELECT data FROM tab WHERE key = ?\<close> through \<open>query_row\<close>.\<close>

definition query_row :: "'k \<Rightarrow> ('k, 'v) table \<Rightarrow> err + 'v" where
  "query_row k t = ok_or QueryReturnedNoRows (map_of t k)"

text \<open>\<open>SELECT .. FROM tab WHERE p\<close>.\<close>

definition select_rows :: "('k \<Rightarrow> bool) \<Rightarrow> ('k, 'v) table \<Rightarrow> ('k \<times> 'v) list" where
  "select_rows p t = filter (\<lambda>(k, _). p k) t"

text \<open>
  A transaction: \<open>connection.transaction()?\<close>, the body, \<open>tx.commit()?\<close>. When the body returns an
  error the transaction is dropped, and rusqlite rolls a dropped transaction back.
\<close>

definition in_transaction :: "'db \<Rightarrow> ('db \<Rightarrow> err + 'db) \<Rightarrow> (err + unit) \<times> 'db" where
  "in_transaction db body = (case body db of Inl e \<Rightarrow> (Inl e, db) | Inr db' \<Rightarrow> (Inr (), db'))"

section \<open>Facts of the statements\<close>

lemma map_of_upsert [simp]: "map_of (upsert_row k v t) = (map_of t)(k \<mapsto> v)"
  by (simp add: upsert_row_def AList.update_conv')

lemma map_of_delete_rows [simp]:
  "map_of (delete_rows p t) = (\<lambda>k. if p k then None else map_of t k)"
  by (induction t) (auto simp: delete_rows_def fun_eq_iff)

lemma map_of_insert_or_ignore:
  "map_of (insert_or_ignore k v t) = (case map_of t k of None \<Rightarrow> (map_of t)(k \<mapsto> v) | Some _ \<Rightarrow> map_of t)"
proof (cases "map_of t k")
  case None
  then have "k \<notin> fst ` set t" by (simp add: map_of_eq_None_iff)
  then show ?thesis
    by (auto simp: insert_or_ignore_def map_add_def fun_eq_iff None split: option.splits)
next
  case (Some v')
  then have "k \<in> fst ` set t" by (auto dest: map_of_SomeD intro: rev_image_eqI)
  with Some show ?thesis by (simp add: insert_or_ignore_def)
qed

lemma set_delete_rows [simp]: "set (delete_rows p t) = {kv \<in> set t. \<not> p (fst kv)}"
  by (auto simp: delete_rows_def)

lemma set_select_rows [simp]: "set (select_rows p t) = {kv \<in> set t. p (fst kv)}"
  by (auto simp: select_rows_def)

lemma set_upsert_subset: "set (upsert_row k v t) \<subseteq> insert (k, v) (set t)"
  by (induction t) (auto simp: upsert_row_def)

lemma set_insert_or_ignore_subset: "set (insert_or_ignore k v t) \<subseteq> insert (k, v) (set t)"
  by (auto simp: insert_or_ignore_def)

lemma insert_row_Inr_iff:
  "insert_row tab k v t = Inr t' \<longleftrightarrow> k \<notin> fst ` set t \<and> t' = t @ [(k, v)]"
  by (auto simp: insert_row_def)

lemma insert_row_fails: "k \<in> fst ` set t \<Longrightarrow> insert_row tab k v t = Inl (UniqueViolation tab)"
  by (simp add: insert_row_def)

lemma unique_upsert: "unique_keys t \<Longrightarrow> unique_keys (upsert_row k v t)"
  by (simp add: unique_keys_def upsert_row_def AList.distinct_update)

lemma unique_delete: "unique_keys t \<Longrightarrow> unique_keys (delete_rows p t)"
  by (auto simp: unique_keys_def delete_rows_def intro: distinct_map_filter)

lemma unique_insert_or_ignore: "unique_keys t \<Longrightarrow> unique_keys (insert_or_ignore k v t)"
  by (auto simp: unique_keys_def insert_or_ignore_def)

lemma unique_insert_row: "insert_row tab k v t = Inr t' \<Longrightarrow> unique_keys t \<Longrightarrow> unique_keys t'"
  by (auto simp: unique_keys_def insert_row_Inr_iff)

lemmas unique_key_ops = unique_upsert unique_delete unique_insert_or_ignore unique_insert_row

lemma delete_inserted: "k \<notin> fst ` set t \<Longrightarrow> delete_rows (\<lambda>k'. k' = k) (t @ [(k, v)]) = t"
  by (induction t) (auto simp: delete_rows_def)

lemma in_transaction_simps [simp, res]:
  "body db = Inl e \<Longrightarrow> in_transaction db body = (Inl e, db)"
  "body db = Inr db' \<Longrightarrow> in_transaction db body = (Inr (), db')"
  by (simp_all add: in_transaction_def)

lemma in_transaction_Inr_iff [res]:
  "in_transaction db body = (Inr (), db') \<longleftrightarrow> body db = Inr db'"
  by (cases "body db") (auto simp: in_transaction_def)

text \<open>A failed transaction leaves the database as it was.\<close>

lemma in_transaction_rollback: "in_transaction db body = (Inl e, db') \<Longrightarrow> db' = db"
  by (cases "body db") (auto simp: in_transaction_def)

section \<open>The interface: a store with an undo log\<close>

definition write_opt :: "('k \<Rightarrow> 'v \<Rightarrow> 's \<Rightarrow> 's) \<Rightarrow> ('k \<Rightarrow> 's \<Rightarrow> 's) \<Rightarrow> 'k \<times> 'v option \<Rightarrow> 's \<Rightarrow> 's" where
  "write_opt put del kv s = (case snd kv of None \<Rightarrow> del (fst kv) s | Some v \<Rightarrow> put (fst kv) v s)"

text \<open>
  \<open>view\<close> is what a reader can observe of a stored value: the rollup's accounts are stored as JSON
  and compared on some of their fields only.
\<close>

locale keyed_store =
  fixes get :: "'s \<Rightarrow> 'k \<Rightarrow> 'w option"
    and put :: "'k \<Rightarrow> 'v \<Rightarrow> 's \<Rightarrow> 's"
    and del :: "'k \<Rightarrow> 's \<Rightarrow> 's"
    and view :: "'v \<Rightarrow> 'w"
  assumes get_put: "get (put k v s) = (get s)(k \<mapsto> view v)"
    and get_del: "get (del k s) = (get s)(k := None)"
begin

lemma get_write: "get (write_opt put del kv s) = (get s)(fst kv := map_option view (snd kv))"
  by (auto simp: write_opt_def get_put get_del split: option.splits)

lemma get_write_all:
  "get (fold (write_opt put del) kvs s) k =
     (case map_of (rev kvs) k of None \<Rightarrow> get s k | Some ov \<Rightarrow> map_option view ov)"
proof (induction kvs arbitrary: s)
  case (Cons kv kvs)
  then show ?case
    by (cases kv) (auto simp: get_write map_add_def split: option.splits)
qed simp

lemma get_write_all_other:
  "k \<notin> fst ` set kvs \<Longrightarrow> get (fold (write_opt put del) kvs s) k = get s k"
  by (simp add: get_write_all map_of_eq_None_iff[THEN iffD2])

text \<open>
  Undoing: if the log names every key where the two states differ, with the content the key had
  in the first, then writing the log back into the second restores the first.
\<close>

lemma undo_log:
  assumes others: "\<And>k. k \<notin> fst ` set log \<Longrightarrow> get s' k = get s k"
    and old: "\<And>k ov. (k, ov) \<in> set log \<Longrightarrow> map_option view ov = get s k"
  shows "get (fold (write_opt put del) log s') = get s"
proof
  fix k
  show "get (fold (write_opt put del) log s') k = get s k"
  proof (cases "map_of (rev log) k")
    case None
    then have "k \<notin> fst ` set log" by (simp add: map_of_eq_None_iff)
    with None assms show ?thesis by (simp add: get_write_all)
  next
    case (Some ov)
    then have "(k, ov) \<in> set log" by (auto dest: map_of_SomeD)
    with Some old[of k ov] show ?thesis by (simp add: get_write_all)
  qed
qed

text \<open>The order of the writes is irrelevant when no key is written twice.\<close>

lemma write_all_perm:
  assumes "distinct (map fst kvs)" "set kvs' = set kvs" "distinct (map fst kvs')"
  shows "get (fold (write_opt put del) kvs' s) = get (fold (write_opt put del) kvs s)"
proof
  fix k
  have "map_of (rev kvs') = map_of (rev kvs)"
    using assms by (subst map_of_inject_set) (auto simp: rev_map [symmetric])
  then show "get (fold (write_opt put del) kvs' s) k = get (fold (write_opt put del) kvs s) k"
    by (simp add: get_write_all)
qed

end

interpretation tbl: keyed_store map_of upsert_row "\<lambda>k. delete_rows (\<lambda>k'. k' = k)" "\<lambda>v. v"
  by unfold_locales (auto simp: fun_eq_iff)

end
