(* ===== verification/Exex_Types.thy ===== *)
theory Exex_Types
  imports Prelude
begin

text \<open>
  What the execution extensions share: the notifications they receive (their variants as every
  handler matches them), the methods of reth that they call on a notification and on a chain (a
  parameter, with the laws its documentation states), the channel they report finished heights
  on, and the loop that feeds a handler. The locale \<open>exex_handler\<close> is the contract between an
  execution extension and the node: a height is reported for every committed chain that was
  processed without an error, in order, and for nothing else.
\<close>

section \<open>Notifications and the methods of reth\<close>

datatype 'c exex_notification =
    ChainCommitted 'c
  | ChainReorged 'c 'c \<comment> \<open>old chain, new chain\<close>
  | ChainReverted 'c

text \<open>\<open>ExExNotification::committed_chain\<close>, \<open>reverted_chain\<close>, and \<open>chain.tip().num_hash()\<close>.\<close>

record ('c, 'h) exex_api =
  committed_chain :: "'c exex_notification \<Rightarrow> 'c option"
  reverted_chain :: "'c exex_notification \<Rightarrow> 'c option"
  tip_num_hash :: "'c \<Rightarrow> 'h"

definition exex_api_ok :: "('c, 'h, 'z) exex_api_scheme \<Rightarrow> bool" where
  "exex_api_ok A \<longleftrightarrow>
     (\<forall>c. committed_chain A (ChainCommitted c) = Some c \<and> reverted_chain A (ChainCommitted c) = None) \<and>
     (\<forall>c d. committed_chain A (ChainReorged c d) = Some d \<and> reverted_chain A (ChainReorged c d) = Some c) \<and>
     (\<forall>c. committed_chain A (ChainReverted c) = None \<and> reverted_chain A (ChainReverted c) = Some c)"

lemma exex_api_okD [simp]:
  assumes "exex_api_ok A"
  shows "committed_chain A (ChainCommitted c) = Some c" "reverted_chain A (ChainCommitted c) = None"
    "committed_chain A (ChainReorged c d) = Some d" "reverted_chain A (ChainReorged c d) = Some c"
    "committed_chain A (ChainReverted c) = None" "reverted_chain A (ChainReverted c) = Some c"
  using assms by (auto simp: exex_api_ok_def)

text \<open>The methods as reth documents them, for a given \<open>num_hash\<close> of the tip.\<close>

definition std_exex_api :: "('c \<Rightarrow> 'h) \<Rightarrow> ('c, 'h) exex_api" where
  "std_exex_api nh =
     \<lparr>committed_chain = (\<lambda>n. case n of ChainCommitted c \<Rightarrow> Some c | ChainReorged _ d \<Rightarrow> Some d | ChainReverted _ \<Rightarrow> None),
      reverted_chain = (\<lambda>n. case n of ChainCommitted _ \<Rightarrow> None | ChainReorged c _ \<Rightarrow> Some c | ChainReverted c \<Rightarrow> Some c),
      tip_num_hash = nh\<rparr>"

lemma std_exex_api_ok [simp]: "exex_api_ok (std_exex_api nh)"
  by (simp add: exex_api_ok_def std_exex_api_def)

lemma tip_num_hash_std [simp]: "tip_num_hash (std_exex_api nh) = nh"
  by (simp add: std_exex_api_def)

section \<open>The logs of a chain\<close>

text \<open>
  How the rollup and the OP bridge read a chain: its blocks with their receipts, each transaction
  zipped with its receipt, and the logs of the receipts that the contracts of interest emitted.
\<close>

record ('c, 'b, 'tx, 'rcpt, 'lg) chain_access =
  blocks_and_receipts :: "'c \<Rightarrow> ('b \<times> 'rcpt list) list"
  transactions_of :: "'b \<Rightarrow> 'tx list"
  logs_of :: "'rcpt \<Rightarrow> 'lg list"
  log_address :: "'lg \<Rightarrow> address"

definition logs_from :: "('c, 'b, 'tx, 'rcpt, 'lg, 'z) chain_access_scheme \<Rightarrow> address list \<Rightarrow> 'c \<Rightarrow> ('b \<times> 'tx \<times> 'lg) list" where
  "logs_from C contracts chain =
     concat (map (\<lambda>(block, tx, receipt).
         map (\<lambda>log. (block, tx, log))
           (filter (\<lambda>log. log_address C log \<in> set contracts) (logs_of C receipt)))
       (concat (map (\<lambda>(block, receipts).
           map (\<lambda>(tx, receipt). (block, tx, receipt)) (zip (transactions_of C block) receipts))
         (blocks_and_receipts C chain))))"

lemma logs_from_address: "(b, tx, log) \<in> set (logs_from C contracts chain) \<Longrightarrow> log_address C log \<in> set contracts"
  by (auto simp: logs_from_def)

section \<open>The event channel\<close>

text \<open>
  The heights sent with \<open>ExExEvent::FinishedHeight\<close> on the unbounded \<open>ctx.events\<close> channel, in
  order; \<open>send\<close> fails once the receiver is gone.
\<close>

record 'h events =
  finished_heights :: "'h list"
  receiver_gone :: bool

definition send_event :: "'h \<Rightarrow> 'h events \<Rightarrow> err + 'h events" where
  "send_event h ev = (if receiver_gone ev then Inl (External ''channel closed'')
     else Inr (ev\<lparr>finished_heights := finished_heights ev @ [h]\<rparr>))"

lemma send_event_Inr_iff [res]:
  "send_event h ev = Inr ev' \<longleftrightarrow>
     \<not> receiver_gone ev \<and> ev' = ev\<lparr>finished_heights := finished_heights ev @ [h]\<rparr>"
  by (auto simp: send_event_def)

section \<open>The notification loop\<close>

text \<open>
  \<open>while let Some(notification) = ctx.notifications.try_next().await? { .. }\<close>: the stream's items
  in order, each a notification or an error of the stream; the loop ends with the stream, or at
  the first error of the stream or of the handler \<open>step\<close>. The state is what the handler has
  written when it stops.
\<close>

fun run_exex ::
  "('c exex_notification \<Rightarrow> 's \<Rightarrow> (err + unit) \<times> 's) \<Rightarrow> (err + 'c exex_notification) list \<Rightarrow> 's \<Rightarrow> (err + unit) \<times> 's" where
  "run_exex step [] s = (Inr (), s)"
| "run_exex step (Inl e # ns) s = (Inl e, s)"
| "run_exex step (Inr n # ns) s =
     (case step n s of (Inl e, s') \<Rightarrow> (Inl e, s') | (Inr _, s') \<Rightarrow> run_exex step ns s')"

lemma run_exex_invariant:
  assumes "\<And>n s r s'. I s \<Longrightarrow> step n s = (r, s') \<Longrightarrow> I s'" "I s" "run_exex step ns s = (r, s')"
  shows "I s'"
  using assms(2,3)
proof (induction ns arbitrary: s)
  case (Cons m ns)
  show ?case
  proof (cases m)
    case (Inr n)
    obtain q t where st: "step n s = (q, t)" by (cases "step n s")
    with Cons.prems(1) have "I t" by (rule assms(1))
    with Cons Inr st show ?thesis by (cases q) auto
  qed (use Cons.prems in simp)
qed simp

text \<open>What a handler owes the node for a notification.\<close>

definition owed_heights :: "('c, 'h, 'z) exex_api_scheme \<Rightarrow> 'c exex_notification \<Rightarrow> 'h list" where
  "owed_heights A n = (case committed_chain A n of None \<Rightarrow> [] | Some c \<Rightarrow> [tip_num_hash A c])"

locale exex_handler =
  fixes A :: "('c, 'h) exex_api"
    and step :: "'c exex_notification \<Rightarrow> 's \<Rightarrow> (err + unit) \<times> 's"
    and heights :: "'s \<Rightarrow> 'h list"
  assumes step_ok: "step n s = (Inr u, s') \<Longrightarrow> heights s' = heights s @ owed_heights A n"
    and step_err: "step n s = (Inl e, s') \<Longrightarrow> heights s' = heights s"
begin

text \<open>
  The heights reported by a run are those owed for the notifications processed before it
  stopped: all of them when it ends with the stream, a proper prefix when it fails.
\<close>

lemma run_heights:
  "run_exex step ns s = (r, s') \<Longrightarrow>
     \<exists>done rest. ns = map Inr done @ rest \<and>
       heights s' = heights s @ concat (map (owed_heights A) done) \<and>
       (case r of Inr _ \<Rightarrow> rest = [] | Inl _ \<Rightarrow> rest \<noteq> [])"
proof (induction ns arbitrary: s)
  case Nil
  then show ?case by (intro exI[of _ "[]"]) auto
next
  case (Cons m ns)
  show ?case
  proof (cases m)
    case (Inl e)
    with Cons.prems show ?thesis by - (rule exI[of _ "[]"], rule exI[of _ "m # ns"], auto)
  next
    case (Inr n)
    obtain q t where st: "step n s = (q, t)" by (cases "step n s")
    show ?thesis
    proof (cases q)
      case (Inl e)
      with Inr st Cons.prems step_err[of n s e t] show ?thesis
        by - (rule exI[of _ "[]"], rule exI[of _ "m # ns"], auto)
    next
      case q: (Inr u)
      with Inr st Cons.prems have "run_exex step ns t = (r, s')" by simp
      from Cons.IH[OF this] obtain "done" rest where *:
        "ns = map Inr done @ rest" "heights s' = heights t @ concat (map (owed_heights A) done)"
        "case r of Inr _ \<Rightarrow> rest = [] | Inl _ \<Rightarrow> rest \<noteq> []" by blast
      with Inr st q step_ok[of n s u t] show ?thesis
        by - (rule exI[of _ "n # done"], rule exI[of _ rest], auto)
    qed
  qed
qed

lemma run_heights_ok:
  assumes "run_exex step (map Inr ns) s = (Inr u, s')"
  shows "heights s' = heights s @ concat (map (owed_heights A) ns)"
proof -
  from run_heights[OF assms] obtain "done" where
    "map Inr ns = map Inr done" "heights s' = heights s @ concat (map (owed_heights A) done)"
    by auto
  then show ?thesis by (metis inj_Inr inj_map_eq_map)
qed

end

section \<open>Accounts\<close>

text \<open>
  \<open>AccountInfo\<close> of revm, as far as the sources look into it: the codec reads every field, the
  rollup reads and writes the balance.
\<close>

record 'code account_info =
  balance :: u256
  nonce :: u64
  code_hash :: b256
  code :: "'code option"
  account_id :: "u64 option"

text \<open>What a slot held before a change (revm's \<open>RevertToSlot\<close>), in the rollup's log and in the codec.\<close>

datatype revert_to_slot = SlotSome u256 | SlotDestroyed

end
