(* ===== verification/Rollup_Text.thy ===== *)
theory Rollup_Text
  imports Sql_Tables Exex_Types
begin

text \<open>
  The text conversions the rollup database stores its columns with: they belong to alloy, revm and
  serde and are a parameter (the record \<open>rollup_text\<close>) of every database operation. The locale
  \<open>rollup_text_ok\<close> states their documented laws: what is printed parses back. \<open>ref_text\<close> is an
  instance that satisfies them (hexadecimal addresses and hashes, decimal numbers, a flat
  record text for accounts).
\<close>

record ('code, 'b) rollup_text =
  address_to_string :: "address \<Rightarrow> string"
  address_from_str :: "string \<Rightarrow> address option"
  b256_to_string :: "b256 \<Rightarrow> string"
  b256_from_str :: "string \<Rightarrow> b256 option"
  u256_to_string :: "u256 \<Rightarrow> string"
  u256_from_str :: "string \<Rightarrow> u256 option"
  b256_from_u256 :: "u256 \<Rightarrow> b256" \<comment> \<open>\<open>B256::from(key)\<close>, \<open>index.into()\<close>\<close>
  b256_new_be :: "u256 \<Rightarrow> b256" \<comment> \<open>\<open>B256::new(k.to_be_bytes())\<close>\<close>
  account_to_json :: "'code account_info \<Rightarrow> string option"
  account_from_json :: "string \<Rightarrow> 'code account_info option"
  account_opt_to_json :: "'code account_info option \<Rightarrow> string option"
  account_opt_from_json :: "string \<Rightarrow> 'code account_info option option"
  account_ne :: "'code account_info \<Rightarrow> 'code account_info \<Rightarrow> bool" \<comment> \<open>revm's \<open>!=\<close>\<close>
  default_account :: "'code account_info"
  block_number :: "'b \<Rightarrow> u64"
  block_to_json :: "'b \<Rightarrow> string option"
  block_from_json :: "string \<Rightarrow> 'b option"
  bytecode_to_string :: "'code \<Rightarrow> string" \<comment> \<open>\<open>bytecode.bytecode().to_string()\<close>\<close>
  bytecode_new_raw :: "string \<Rightarrow> 'code option" \<comment> \<open>\<open>Bytes::from_str\<close>, then \<open>Bytecode::new_raw\<close>\<close>
  default_bytecode :: "'code"

text \<open>
  The fields revm compares accounts on: \<open>AccountInfo\<close>'s equality ignores the code, and the id is a
  cache key. This is what the theorems say about a stored account.
\<close>

definition account_key :: "'code account_info \<Rightarrow> u256 \<times> u64 \<times> b256" where
  "account_key a = (balance a, nonce a, code_hash a)"

locale rollup_text_ok =
  fixes T :: "('code, 'b) rollup_text"
  assumes address_rt: "address_from_str T (address_to_string T a) = Some a"
    and b256_rt: "b256_from_str T (b256_to_string T h) = Some h"
    and u256_decimal: "u256_to_string T n = dec_string (unat n)"
    and u256_rt: "u256_from_str T (u256_to_string T n) = Some n"
    and b256_be: "b256_new_be T k = b256_from_u256 T k"
    and b256_inj: "b256_from_u256 T k = b256_from_u256 T k' \<Longrightarrow> k = k'"
    and account_rt: "\<exists>j acc'. account_to_json T acc = Some j \<and> account_from_json T j = Some acc' \<and>
       account_key acc' = account_key acc"
    and account_opt_rt: "\<exists>j o'. account_opt_to_json T oacc = Some j \<and>
       account_opt_from_json T j = Some o' \<and>
       map_option account_key o' = map_option account_key oacc"
    and account_ne: "account_ne T acc acc' \<longleftrightarrow> account_key acc \<noteq> account_key acc'"
    and default_account: "balance (default_account T) = 0" "nonce (default_account T) = 0"
    and block_rt: "\<exists>j. block_to_json T b = Some j \<and> block_from_json T j = Some b"
begin

lemma address_inj [simp]: "address_to_string T a = address_to_string T a' \<longleftrightarrow> a = a'"
  by (metis address_rt option.inject)

lemma b256_str_inj [simp]: "b256_to_string T h = b256_to_string T h' \<longleftrightarrow> h = h'"
  by (metis b256_rt option.inject)

lemma b256_inj_iff [simp]: "b256_from_u256 T k = b256_from_u256 T k' \<longleftrightarrow> k = k'"
  using b256_inj by blast

lemma u256_not_destroyed [simp]: "u256_to_string T n \<noteq> ''destroyed''"
proof
  assume "u256_to_string T n = ''destroyed''"
  then have "dec_string (unat n) = ''destroyed''" by (simp add: u256_decimal)
  moreover have "dec_parse ''destroyed'' = None" by (simp add: dec_parse_def char_digit_def)
  ultimately show False by (metis dec_parse_dec_string option.distinct(1))
qed

lemma u256_from_dec: "n < 2 ^ 256 \<Longrightarrow> u256_from_str T (dec_string n) = Some (word_of_nat n)"
  using u256_rt[of "word_of_nat n"] by (simp add: u256_decimal unat_of_nat)

end

section \<open>An instance of the laws\<close>

text \<open>Big-endian digits of a fixed width in base 16, and their value.\<close>

definition hex_char :: "nat \<Rightarrow> char" where
  "hex_char d = char_of (if d < 10 then 48 + d else 87 + d)"

definition hex_value :: "char \<Rightarrow> nat" where
  "hex_value c = (let k = of_char c :: nat in if k < 58 then k - 48 else k - 87)"

fun to_hex :: "nat \<Rightarrow> nat \<Rightarrow> string" where
  "to_hex 0 n = []"
| "to_hex (Suc w) n = to_hex w (n div 16) @ [hex_char (n mod 16)]"

definition from_hex :: "string \<Rightarrow> nat" where
  "from_hex s = foldl (\<lambda>acc c. acc * 16 + hex_value c) 0 s"

lemma hex_value_char [simp]: "d < 16 \<Longrightarrow> hex_value (hex_char d) = d"
  by (auto simp: hex_value_def hex_char_def Let_def)

lemma from_to_hex: "n < 16 ^ w \<Longrightarrow> from_hex (to_hex w n) = n"
proof (induction w arbitrary: n)
  case (Suc w)
  then have "n div 16 < 16 ^ w" by (simp add: less_mult_imp_div_less)
  with Suc.IH have "from_hex (to_hex w (n div 16)) = n div 16" .
  then show ?case by (simp add: from_hex_def)
qed (simp add: from_hex_def)

lemma length_to_hex [simp]: "length (to_hex w n) = w"
  by (induction w arbitrary: n) auto

definition word_hex :: "nat \<Rightarrow> 'a::len word \<Rightarrow> string" where
  "word_hex w x = to_hex w (unat x)"

definition hex_word :: "string \<Rightarrow> 'a::len word" where
  "hex_word s = word_of_nat (from_hex s)"

lemma hex_word_hex: "LENGTH('a) \<le> 4 * w \<Longrightarrow> hex_word (word_hex w (x :: 'a::len word)) = x"
proof -
  assume "LENGTH('a) \<le> 4 * w"
  then have "(2::nat) ^ LENGTH('a) \<le> 2 ^ (4 * w)" by (intro power_increasing) auto
  also have "\<dots> = 16 ^ w" by (simp add: power_mult)
  finally have le: "(2::nat) ^ LENGTH('a) \<le> 16 ^ w" .
  have "unat x < 16 ^ w" using unsigned_less[of x, where 'a = nat] le by (rule less_le_trans)
  then show ?thesis by (simp add: hex_word_def word_hex_def from_to_hex)
qed

lemma length_word_hex [simp]: "length (word_hex w x) = w"
  by (simp add: word_hex_def)

text \<open>The account text: the three compared fields in fixed width (code and id are not kept).\<close>

definition ref_account_text :: "'code account_info \<Rightarrow> string" where
  "ref_account_text a = word_hex 64 (balance a) @ word_hex 16 (nonce a) @ word_hex 64 (code_hash a)"

definition ref_account_parse :: "string \<Rightarrow> 'code account_info" where
  "ref_account_parse s = \<lparr>balance = hex_word (take 64 s), nonce = hex_word (take 16 (drop 64 s)),
     code_hash = hex_word (drop 80 s), code = None, account_id = None\<rparr>"

lemma ref_account_rt: "account_key (ref_account_parse (ref_account_text a)) = account_key a"
  by (simp add: account_key_def ref_account_parse_def ref_account_text_def hex_word_hex)

text \<open>Blocks of the instance are their number; bytecode is its hexadecimal text.\<close>

definition ref_text :: "(string, u64) rollup_text" where
  "ref_text = \<lparr>
     address_to_string = word_hex 40, address_from_str = (\<lambda>s. Some (hex_word s)),
     b256_to_string = word_hex 64, b256_from_str = (\<lambda>s. Some (hex_word s)),
     u256_to_string = (\<lambda>n. dec_string (unat n)),
     u256_from_str = (\<lambda>s. map_option word_of_nat (dec_parse s)),
     b256_from_u256 = (\<lambda>k. k), b256_new_be = (\<lambda>k. k),
     account_to_json = (\<lambda>a. Some (ref_account_text a)),
     account_from_json = (\<lambda>s. Some (ref_account_parse s)),
     account_opt_to_json = (\<lambda>oa. Some (case oa of None \<Rightarrow> ''null'' | Some a \<Rightarrow> ref_account_text a)),
     account_opt_from_json = (\<lambda>s. Some (if s = ''null'' then None else Some (ref_account_parse s))),
     account_ne = (\<lambda>a b. account_key a \<noteq> account_key b),
     default_account = \<lparr>balance = 0, nonce = 0, code_hash = 0, code = None, account_id = None\<rparr>,
     block_number = (\<lambda>b. b), block_to_json = (\<lambda>b. Some (dec_string (unat b))),
     block_from_json = (\<lambda>s. map_option word_of_nat (dec_parse s)),
     bytecode_to_string = (\<lambda>c. c), bytecode_new_raw = (\<lambda>s. Some s), default_bytecode = []\<rparr>"

lemma ref_account_text_not_null: "ref_account_text a \<noteq> ''null''"
proof
  assume "ref_account_text a = ''null''"
  then have "length (ref_account_text a) = length ''null''" by (rule arg_cong)
  then show False by (simp add: ref_account_text_def)
qed

interpretation ref: rollup_text_ok ref_text
  by unfold_locales
    (auto simp: ref_text_def hex_word_hex ref_account_rt ref_account_text_not_null split: option.splits)

end
