(* ===== verification/Rollup_Db.thy ===== *)
theory Rollup_Db
  imports Rollup_Text
begin

text \<open>
  The rollup's database (rollup/src/db.rs): its SQLite tables and every operation of \<open>Database\<close>.
  A connection is a \<open>rollup_db\<close>; the two operations that open a transaction run their body with
  \<open>in_transaction\<close>. The row parsers, the maps \<open>state\<close> that a revert builds, and the three loops of
  each transaction are definitions of their own, in the order the code has them. The map \<open>reverts\<close>
  that \<open>revert_tip_block\<close> fills beside \<open>state\<close> is never read and has no counterpart here, nor has
  the mutex around the connection (one handle, never poisoned).
\<close>

section \<open>The tables\<close>

record rollup_db =
  block_tbl :: "(string, string) table" \<comment> \<open>number, data\<close>
  account_tbl :: "(string, string) table" \<comment> \<open>address, data\<close>
  account_revert_tbl :: "(string \<times> string, string) table" \<comment> \<open>(block_number, address), data\<close>
  storage_tbl :: "(string \<times> string, string) table" \<comment> \<open>(address, key), data\<close>
  storage_revert_tbl :: "(string \<times> string \<times> string, string) table" \<comment> \<open>(block_number, address, key), data\<close>
  bytecode_tbl :: "(string, string) table" \<comment> \<open>hash, data\<close>

text \<open>The columns of the table \<open>block\<close>, and a new database.\<close>

definition block_columns :: "string list" where
  "block_columns = [''id'', ''number'', ''data'']"

definition create_tables :: rollup_db where
  "create_tables = \<lparr>block_tbl = [], account_tbl = [], account_revert_tbl = [], storage_tbl = [],
     storage_revert_tbl = [], bytecode_tbl = []\<rparr>"

section \<open>Accounts and storage\<close>

definition get_account ::
  "('code, 'b) rollup_text \<Rightarrow> rollup_db \<Rightarrow> address \<Rightarrow> err + 'code account_info option" where
  "get_account T db a =
     (case query_row (address_to_string T a) (account_tbl db) of
        Inr data \<Rightarrow> and_then (ok_or SerdeError (account_from_json T data)) (\<lambda>acc. Inr (Some acc))
      | Inl QueryReturnedNoRows \<Rightarrow> Inr None
      | Inl e \<Rightarrow> Inl e)"

definition put_account ::
  "('code, 'b) rollup_text \<Rightarrow> address \<Rightarrow> 'code account_info \<Rightarrow> rollup_db \<Rightarrow> err + rollup_db" where
  "put_account T a acc db =
     and_then (ok_or SerdeError (account_to_json T acc)) (\<lambda>data.
     Inr (db\<lparr>account_tbl := upsert_row (address_to_string T a) data (account_tbl db)\<rparr>))"

definition upsert_account ::
  "('code, 'b) rollup_text \<Rightarrow> rollup_db \<Rightarrow> address \<Rightarrow>
   ('code account_info option \<Rightarrow> err + 'code account_info) \<Rightarrow> err + rollup_db" where
  "upsert_account T db a f =
     and_then (get_account T db a) (\<lambda>account.
     and_then (f account) (\<lambda>account.
     put_account T a account db))"

definition delete_account :: "('code, 'b) rollup_text \<Rightarrow> rollup_db \<Rightarrow> address \<Rightarrow> rollup_db" where
  "delete_account T db a =
     db\<lparr>account_tbl := delete_rows (\<lambda>k. k = address_to_string T a) (account_tbl db)\<rparr>"

definition upsert_storage ::
  "('code, 'b) rollup_text \<Rightarrow> rollup_db \<Rightarrow> address \<Rightarrow> b256 \<Rightarrow> u256 \<Rightarrow> rollup_db" where
  "upsert_storage T db a key data =
     db\<lparr>storage_tbl := upsert_row (address_to_string T a, b256_to_string T key)
       (u256_to_string T data) (storage_tbl db)\<rparr>"

definition delete_storage :: "('code, 'b) rollup_text \<Rightarrow> rollup_db \<Rightarrow> address \<Rightarrow> b256 \<Rightarrow> rollup_db" where
  "delete_storage T db a key =
     db\<lparr>storage_tbl := delete_rows (\<lambda>k. k = (address_to_string T a, b256_to_string T key)) (storage_tbl db)\<rparr>"

definition get_storages ::
  "('code, 'b) rollup_text \<Rightarrow> rollup_db \<Rightarrow> address \<Rightarrow> err + (b256 \<times> u256) list" where
  "get_storages T db a =
     try_collect (\<lambda>((_, key), data).
        and_then (ok_or (ParseError key) (b256_from_str T key)) (\<lambda>key.
        and_then (ok_or (ParseError data) (u256_from_str T data)) (\<lambda>data.
        Inr (key, data))))
       (select_rows (\<lambda>(addr, _). addr = address_to_string T a) (storage_tbl db))"

definition get_storage ::
  "('code, 'b) rollup_text \<Rightarrow> rollup_db \<Rightarrow> address \<Rightarrow> b256 \<Rightarrow> err + u256 option" where
  "get_storage T db a key =
     (case query_row (address_to_string T a, b256_to_string T key) (storage_tbl db) of
        Inr data \<Rightarrow> and_then (ok_or (ParseError data) (u256_from_str T data)) (\<lambda>v. Inr (Some v))
      | Inl QueryReturnedNoRows \<Rightarrow> Inr None
      | Inl e \<Rightarrow> Inl e)"

definition get_block :: "('code, 'b) rollup_text \<Rightarrow> rollup_db \<Rightarrow> u256 \<Rightarrow> err + 'b option" where
  "get_block T db number =
     (case query_row (u256_to_string T number) (block_tbl db) of
        Inr data \<Rightarrow> and_then (ok_or SerdeError (block_from_json T data)) (\<lambda>b. Inr (Some b))
      | Inl QueryReturnedNoRows \<Rightarrow> Inr None
      | Inl e \<Rightarrow> Inl e)"

section \<open>The database of the EVM\<close>

text \<open>\<open>impl reth_revm::Database for Database\<close>; \<open>unwrap\<close> of a failed parse panics.\<close>

definition db_basic ::
  "('code, 'b) rollup_text \<Rightarrow> rollup_db \<Rightarrow> address \<Rightarrow> err + 'code account_info option" where
  "db_basic T db a = get_account T db a"

definition db_code_by_hash :: "('code, 'b) rollup_text \<Rightarrow> rollup_db \<Rightarrow> b256 \<Rightarrow> err + 'code" where
  "db_code_by_hash T db h =
     (case query_row (b256_to_string T h) (bytecode_tbl db) of
        Inr data \<Rightarrow> ok_or (Panic ''unwrap on bytecode text'') (bytecode_new_raw T data)
      | Inl QueryReturnedNoRows \<Rightarrow> Inr (default_bytecode T)
      | Inl e \<Rightarrow> Inl e)"

definition db_storage :: "('code, 'b) rollup_text \<Rightarrow> rollup_db \<Rightarrow> address \<Rightarrow> u256 \<Rightarrow> err + u256" where
  "db_storage T db a index =
     and_then (get_storage T db a (b256_from_u256 T index)) (\<lambda>data.
     Inr (case data of None \<Rightarrow> 0 | Some v \<Rightarrow> v))"

text \<open>
  \<open>SELECT hash FROM block WHERE number = ?\<close>: SQLite refuses a statement that names a column the
  table does not have when it is prepared.
\<close>

definition db_block_hash :: "('code, 'b) rollup_text \<Rightarrow> rollup_db \<Rightarrow> u64 \<Rightarrow> err + b256" where
  "db_block_hash T db number =
     (if ''hash'' \<notin> set block_columns then Inl (NoSuchColumn ''hash'')
      else and_then (query_row (dec_string (unat number)) (block_tbl db)) (\<lambda>data.
        ok_or (Panic ''unwrap on block hash'') (b256_from_str T data)))"

section \<open>Inserting a block with its bundle\<close>

text \<open>
  The plain form of a bundle, which revm's \<open>to_plain_state_and_reverts(OriginalValuesKnown::Yes)\<close>
  computes (a parameter): the changes of the state, and per block what undoes them.
\<close>

record storage_changeset =
  cs_address :: address
  cs_wipe_storage :: bool
  cs_storage :: "(u256 \<times> u256) list"

record 'code plain_changeset =
  ch_accounts :: "(address \<times> 'code account_info option) list"
  ch_storage :: "storage_changeset list"
  ch_contracts :: "(b256 \<times> 'code) list"

record storage_revert =
  sr_address :: address
  sr_wiped :: bool
  sr_storage_revert :: "(u256 \<times> revert_to_slot) list"

record 'code plain_reverts =
  rv_accounts :: "(address \<times> 'code account_info option) list list"
  rv_storage :: "storage_revert list list"

fun write_accounts ::
  "('code, 'b) rollup_text \<Rightarrow> (address \<times> 'code account_info option) list \<Rightarrow> rollup_db \<Rightarrow> err + rollup_db" where
  "write_accounts T [] tx = Inr tx"
| "write_accounts T ((a, Some acc) # xs) tx = and_then (put_account T a acc tx) (write_accounts T xs)"
| "write_accounts T ((a, None) # xs) tx = write_accounts T xs (delete_account T tx a)"

fun write_account_reverts ::
  "('code, 'b) rollup_text \<Rightarrow> string \<Rightarrow> (address \<times> 'code account_info option) list \<Rightarrow> rollup_db \<Rightarrow> err + rollup_db" where
  "write_account_reverts T num [] tx = Inr tx"
| "write_account_reverts T num ((a, oacc) # xs) tx =
     and_then (ok_or SerdeError (account_opt_to_json T oacc)) (\<lambda>data.
     write_account_reverts T num xs
       (tx\<lparr>account_revert_tbl := upsert_row (num, address_to_string T a) data (account_revert_tbl tx)\<rparr>))"

text \<open>One changeset: wipe the address's storage if asked to, then write its slots.\<close>

definition write_storage_changeset ::
  "('code, 'b) rollup_text \<Rightarrow> storage_changeset \<Rightarrow> rollup_db \<Rightarrow> rollup_db" where
  "write_storage_changeset T cs tx =
     (let tx = (if cs_wipe_storage cs
          then tx\<lparr>storage_tbl := delete_rows (\<lambda>(addr, _). addr = address_to_string T (cs_address cs)) (storage_tbl tx)\<rparr>
          else tx)
      in fold (\<lambda>(key, data) tx. upsert_storage T tx (cs_address cs) (b256_from_u256 T key) data)
           (cs_storage cs) tx)"

definition slot_text :: "('code, 'b) rollup_text \<Rightarrow> revert_to_slot \<Rightarrow> string" where
  "slot_text T s = (case s of SlotSome v \<Rightarrow> u256_to_string T v | SlotDestroyed \<Rightarrow> ''destroyed'')"

text \<open>
  One storage revert: its own slots, then, for a wiped address, the slots the table holds now.
\<close>

definition write_storage_revert ::
  "('code, 'b) rollup_text \<Rightarrow> string \<Rightarrow> storage_revert \<Rightarrow> rollup_db \<Rightarrow> err + rollup_db" where
  "write_storage_revert T num sr tx =
     (let storage = map (\<lambda>(k, v). (b256_new_be T k, v)) (sr_storage_revert sr) in
      and_then
        (if sr_wiped sr
         then and_then (get_storages T tx (sr_address sr)) (\<lambda>kvs. Inr (map (\<lambda>(k, v). (k, SlotSome v)) kvs))
         else Inr []) (\<lambda>wiped_storage.
      Inr (fold (\<lambda>(key, data) tx. tx\<lparr>storage_revert_tbl :=
               upsert_row (num, address_to_string T (sr_address sr), b256_to_string T key)
                 (slot_text T data) (storage_revert_tbl tx)\<rparr>)
           (storage @ wiped_storage) tx)))"

fun write_storage_reverts ::
  "('code, 'b) rollup_text \<Rightarrow> string \<Rightarrow> storage_revert list \<Rightarrow> rollup_db \<Rightarrow> err + rollup_db" where
  "write_storage_reverts T num [] tx = Inr tx"
| "write_storage_reverts T num (sr # srs) tx =
     and_then (write_storage_revert T num sr tx) (write_storage_reverts T num srs)"

definition write_contracts ::
  "('code, 'b) rollup_text \<Rightarrow> (b256 \<times> 'code) list \<Rightarrow> rollup_db \<Rightarrow> rollup_db" where
  "write_contracts T cs tx = fold (\<lambda>(h, c) tx. tx\<lparr>bytecode_tbl :=
     insert_or_ignore (b256_to_string T h) (bytecode_to_string T c) (bytecode_tbl tx)\<rparr>) cs tx"

definition insert_block_body ::
  "('code, 'b) rollup_text \<Rightarrow> ('bundle \<Rightarrow> 'code plain_changeset \<times> 'code plain_reverts) \<Rightarrow>
   'b \<Rightarrow> 'bundle \<Rightarrow> rollup_db \<Rightarrow> err + rollup_db" where
  "insert_block_body T to_plain block bundle tx =
     (let num = dec_string (unat (block_number T block)) in
      and_then (ok_or SerdeError (block_to_json T block)) (\<lambda>data.
      and_then (insert_row ''block'' num data (block_tbl tx)) (\<lambda>blocks.
      let tx = tx\<lparr>block_tbl := blocks\<rparr>; (changeset, reverts) = to_plain bundle in
      and_then (write_accounts T (ch_accounts changeset) tx) (\<lambda>tx.
      if 1 < length (rv_accounts reverts) then Inl (Eyre ''too many blocks in account reverts'') else
      and_then (case rv_accounts reverts of [] \<Rightarrow> Inr tx | rs # _ \<Rightarrow> write_account_reverts T num rs tx) (\<lambda>tx.
      let tx = fold (write_storage_changeset T) (ch_storage changeset) tx in
      if 1 < length (rv_storage reverts) then Inl (Eyre ''too many blocks in storage reverts'') else
      and_then (case rv_storage reverts of [] \<Rightarrow> Inr tx | rs # _ \<Rightarrow> write_storage_reverts T num rs tx) (\<lambda>tx.
      Inr (write_contracts T (ch_contracts changeset) tx)))))))"

definition insert_block_with_bundle ::
  "('code, 'b) rollup_text \<Rightarrow> ('bundle \<Rightarrow> 'code plain_changeset \<times> 'code plain_reverts) \<Rightarrow>
   rollup_db \<Rightarrow> 'b \<Rightarrow> 'bundle \<Rightarrow> (err + unit) \<times> rollup_db" where
  "insert_block_with_bundle T to_plain db block bundle =
     in_transaction db (insert_block_body T to_plain block bundle)"

section \<open>Reverting the tip block\<close>

text \<open>
  \<open>SELECT number FROM block ORDER BY number DESC LIMIT 1\<close>: the column is TEXT, so the order is
  SQLite's BINARY collation, the bytewise order of the texts.
\<close>

definition select_tip :: "('k::linorder, 'v) table \<Rightarrow> err + 'k" where
  "select_tip t = (if t = [] then Inl QueryReturnedNoRows else Inr (Max (set (map fst t))))"

definition account_revert_rows ::
  "('code, 'b) rollup_text \<Rightarrow> string \<Rightarrow> rollup_db \<Rightarrow> err + (address \<times> 'code account_info option) list" where
  "account_revert_rows T num tx =
     try_collect (\<lambda>((_, addr), data).
        and_then (ok_or (ParseError addr) (address_from_str T addr)) (\<lambda>address.
        and_then (ok_or SerdeError (account_opt_from_json T data)) (\<lambda>info.
        Inr (address, info))))
       (select_rows (\<lambda>(n, _). n = num) (account_revert_tbl tx))"

definition storage_revert_rows ::
  "('code, 'b) rollup_text \<Rightarrow> string \<Rightarrow> rollup_db \<Rightarrow> err + (address \<times> b256 \<times> u256) list" where
  "storage_revert_rows T num tx =
     try_collect (\<lambda>((_, addr, key), data).
        and_then (if data = ''destroyed'' then Inr 0 else ok_or (ParseError data) (u256_from_str T data)) (\<lambda>value.
        and_then (ok_or (ParseError addr) (address_from_str T addr)) (\<lambda>address.
        and_then (ok_or (ParseError key) (b256_from_str T key)) (\<lambda>key.
        Inr (address, key, value)))))
       (select_rows (\<lambda>(n, _, _). n = num) (storage_revert_tbl tx))"

text \<open>
  \<open>BundleStateInit\<close>: per address the old and the present account, and per slot the old and the
  present value.
\<close>

type_synonym 'code revert_state =
  "(address \<times> 'code account_info option \<times> 'code account_info option \<times> (b256 \<times> u256 \<times> u256) list) list"

fun collect_account_reverts ::
  "('code, 'b) rollup_text \<Rightarrow> rollup_db \<Rightarrow> (address \<times> 'code account_info option) list \<Rightarrow>
   'code revert_state \<Rightarrow> err + 'code revert_state" where
  "collect_account_reverts T tx [] state = Inr state"
| "collect_account_reverts T tx ((address, old_info) # rows) state =
     (case map_of state address of
        None \<Rightarrow>
          and_then (get_account T tx address) (\<lambda>new_info.
          collect_account_reverts T tx rows (AList.update address (old_info, new_info, []) state))
      | Some (_, new_info, storage) \<Rightarrow>
          collect_account_reverts T tx rows (AList.update address (old_info, new_info, storage) state))"

fun collect_storage_reverts ::
  "('code, 'b) rollup_text \<Rightarrow> rollup_db \<Rightarrow> (address \<times> b256 \<times> u256) list \<Rightarrow>
   'code revert_state \<Rightarrow> err + 'code revert_state" where
  "collect_storage_reverts T tx [] state = Inr state"
| "collect_storage_reverts T tx ((address, key, old_data) # rows) state =
     and_then (case map_of state address of
        None \<Rightarrow> and_then (get_account T tx address) (\<lambda>present_info. Inr (present_info, present_info, []))
      | Some account_state \<Rightarrow> Inr account_state) (\<lambda>(old_info, new_info, storage).
     and_then (case map_of storage key of
        None \<Rightarrow> and_then (get_storage T tx address key) (\<lambda>new_value.
          Inr (AList.update key (old_data, case new_value of None \<Rightarrow> 0 | Some v \<Rightarrow> v) storage))
      | Some (_, new_value) \<Rightarrow> Inr (AList.update key (old_data, new_value) storage)) (\<lambda>storage.
     collect_storage_reverts T tx rows (AList.update address (old_info, new_info, storage) state)))"

text \<open>\<open>old_account != new_account\<close> on options.\<close>

definition account_opt_ne ::
  "('code, 'b) rollup_text \<Rightarrow> 'code account_info option \<Rightarrow> 'code account_info option \<Rightarrow> bool" where
  "account_opt_ne T x y =
     (case (x, y) of (None, None) \<Rightarrow> False | (Some a, Some b) \<Rightarrow> account_ne T a b | _ \<Rightarrow> True)"

definition restore_slot ::
  "('code, 'b) rollup_text \<Rightarrow> address \<Rightarrow> b256 \<times> u256 \<times> u256 \<Rightarrow> rollup_db \<Rightarrow> rollup_db" where
  "restore_slot T a slot tx =
     (case slot of (storage_key, old_storage_value, _) \<Rightarrow>
      let tx = delete_storage T tx a storage_key in
      if old_storage_value \<noteq> 0 then upsert_storage T tx a storage_key old_storage_value else tx)"

fun restore_state ::
  "('code, 'b) rollup_text \<Rightarrow> 'code revert_state \<Rightarrow> rollup_db \<Rightarrow> err + rollup_db" where
  "restore_state T [] tx = Inr tx"
| "restore_state T ((address, old_account, new_account, storage) # state) tx =
     and_then (if account_opt_ne T old_account new_account
        then (case old_account of
            Some account \<Rightarrow> upsert_account T tx address (\<lambda>_. Inr account)
          | None \<Rightarrow> Inr (delete_account T tx address))
        else Inr tx) (\<lambda>tx.
     restore_state T state (fold (restore_slot T address) storage tx))"

definition revert_tip_body ::
  "('code, 'b) rollup_text \<Rightarrow> u256 \<Rightarrow> rollup_db \<Rightarrow> err + rollup_db" where
  "revert_tip_body T number tx =
     and_then (select_tip (block_tbl tx)) (\<lambda>data.
     and_then (ok_or (ParseError data) (u256_from_str T data)) (\<lambda>tip_block_number.
     if number \<noteq> tip_block_number then Inl (Eyre ''Reverts can only be done from the tip'') else
     let num = u256_to_string T number;
         tx = tx\<lparr>block_tbl := delete_rows (\<lambda>k. k = num) (block_tbl tx)\<rparr> in
     and_then (account_revert_rows T num tx) (\<lambda>account_reverts.
     and_then (collect_account_reverts T tx account_reverts []) (\<lambda>state.
     and_then (storage_revert_rows T num tx) (\<lambda>storage_reverts.
     and_then (collect_storage_reverts T tx (rev storage_reverts) state) (\<lambda>state.
     restore_state T state tx))))))"

definition revert_tip_block ::
  "('code, 'b) rollup_text \<Rightarrow> rollup_db \<Rightarrow> u256 \<Rightarrow> (err + unit) \<times> rollup_db" where
  "revert_tip_block T db number = in_transaction db (revert_tip_body T number)"

end
