(* ===== verification/Rollup_Views.thy ===== *)
theory Rollup_Views
  imports Rollup_Db
begin

text \<open>
  What the rollup database stores, seen through its own getters, and its well-formedness
  invariant. \<open>acct_view\<close> is the account map and \<open>slot_view\<close> the storage map that the tables
  implement; inside \<open>rollup_text_ok\<close> both are interpretations of \<open>keyed_store\<close>, so the loops of
  the two transactions are batches of writes to a keyed store.
\<close>

definition acct_view ::
  "('code, 'b) rollup_text \<Rightarrow> rollup_db \<Rightarrow> address \<Rightarrow> (u256 \<times> u64 \<times> b256) option" where
  "acct_view T db a = (case get_account T db a of Inr (Some acc) \<Rightarrow> Some (account_key acc) | _ \<Rightarrow> None)"

definition slot_view ::
  "('code, 'b) rollup_text \<Rightarrow> rollup_db \<Rightarrow> address \<times> b256 \<Rightarrow> u256 option" where
  "slot_view T db ak = (case get_storage T db (fst ak) (snd ak) of Inr (Some v) \<Rightarrow> Some v | _ \<Rightarrow> None)"

text \<open>A slot as the EVM reads it: an absent slot is zero.\<close>

definition slot_value ::
  "('code, 'b) rollup_text \<Rightarrow> rollup_db \<Rightarrow> address \<times> b256 \<Rightarrow> u256" where
  "slot_value T db ak = (case slot_view T db ak of None \<Rightarrow> 0 | Some v \<Rightarrow> v)"

section \<open>Well-formed databases\<close>

text \<open>
  Every UNIQUE constraint holds, every key is the text of an address, a hash or a number, and
  every data column parses.
\<close>

definition db_ok :: "('code, 'b) rollup_text \<Rightarrow> rollup_db \<Rightarrow> bool" where
  "db_ok T db \<longleftrightarrow>
     unique_keys (block_tbl db) \<and> unique_keys (account_tbl db) \<and> unique_keys (account_revert_tbl db) \<and>
     unique_keys (storage_tbl db) \<and> unique_keys (storage_revert_tbl db) \<and> unique_keys (bytecode_tbl db) \<and>
     (\<forall>(n, d) \<in> set (block_tbl db). n \<in> range (\<lambda>m :: u64. dec_string (unat m)) \<and> block_from_json T d \<noteq> None) \<and>
     (\<forall>(a, d) \<in> set (account_tbl db). a \<in> range (address_to_string T) \<and> account_from_json T d \<noteq> None) \<and>
     (\<forall>((n, a), d) \<in> set (account_revert_tbl db).
        a \<in> range (address_to_string T) \<and> account_opt_from_json T d \<noteq> None) \<and>
     (\<forall>((a, k), d) \<in> set (storage_tbl db).
        a \<in> range (address_to_string T) \<and> k \<in> range (b256_to_string T) \<and> u256_from_str T d \<noteq> None) \<and>
     (\<forall>((n, a, k), d) \<in> set (storage_revert_tbl db).
        a \<in> range (address_to_string T) \<and> k \<in> range (b256_to_string T) \<and>
        (d = ''destroyed'' \<or> u256_from_str T d \<noteq> None))"

lemma db_okD:
  assumes "db_ok T db"
  shows "unique_keys (block_tbl db)" "unique_keys (account_tbl db)" "unique_keys (account_revert_tbl db)"
    "unique_keys (storage_tbl db)" "unique_keys (storage_revert_tbl db)" "unique_keys (bytecode_tbl db)"
  using assms by (simp_all add: db_ok_def)

lemma create_tables_ok: "db_ok T create_tables"
  by (simp add: db_ok_def create_tables_def unique_keys_def)

text \<open>The getters do not fail on a well-formed database.\<close>

lemma get_account_ok:
  assumes "db_ok T db"
  obtains oacc where "get_account T db a = Inr oacc" "acct_view T db a = map_option account_key oacc"
proof -
  have rows: "\<forall>(a, d) \<in> set (account_tbl db). account_from_json T d \<noteq> None"
    using assms by (auto simp: db_ok_def)
  show thesis
  proof (cases "map_of (account_tbl db) (address_to_string T a)")
    case None
    then show thesis
      by (intro that[of None]) (auto simp: get_account_def query_row_def acct_view_def)
  next
    case (Some d)
    then have "(address_to_string T a, d) \<in> set (account_tbl db)" by (rule map_of_SomeD)
    with rows obtain acc where "account_from_json T d = Some acc" by force
    with Some show thesis
      by (intro that[of "Some acc"]) (auto simp: get_account_def query_row_def acct_view_def)
  qed
qed

lemma get_storage_ok:
  assumes "db_ok T db"
  obtains ov where "get_storage T db a k = Inr ov" "slot_view T db (a, k) = ov"
proof -
  have rows: "\<forall>((a, k), d) \<in> set (storage_tbl db). u256_from_str T d \<noteq> None"
    using assms by (auto simp: db_ok_def)
  show thesis
  proof (cases "map_of (storage_tbl db) (address_to_string T a, b256_to_string T k)")
    case None
    then show thesis
      by (intro that[of None]) (auto simp: get_storage_def query_row_def slot_view_def)
  next
    case (Some d)
    then have "((address_to_string T a, b256_to_string T k), d) \<in> set (storage_tbl db)"
      by (rule map_of_SomeD)
    with rows obtain v where "u256_from_str T d = Some v" by force
    with Some show thesis
      by (intro that[of "Some v"]) (auto simp: get_storage_def query_row_def slot_view_def)
  qed
qed

text \<open>The views depend on one table each.\<close>

lemma acct_view_cong: "account_tbl db = account_tbl db' \<Longrightarrow> acct_view T db a = acct_view T db' a"
  by (simp add: acct_view_def get_account_def)

lemma slot_view_cong: "storage_tbl db = storage_tbl db' \<Longrightarrow> slot_view T db ak = slot_view T db' ak"
  by (simp add: slot_view_def get_storage_def)

lemma view_frames [simp]:
  "acct_view T (db\<lparr>block_tbl := bt\<rparr>) = acct_view T db"
  "acct_view T (db\<lparr>account_revert_tbl := ar\<rparr>) = acct_view T db"
  "acct_view T (db\<lparr>storage_tbl := st\<rparr>) = acct_view T db"
  "acct_view T (db\<lparr>storage_revert_tbl := sr\<rparr>) = acct_view T db"
  "acct_view T (db\<lparr>bytecode_tbl := bc\<rparr>) = acct_view T db"
  "slot_view T (db\<lparr>block_tbl := bt\<rparr>) = slot_view T db"
  "slot_view T (db\<lparr>account_tbl := at\<rparr>) = slot_view T db"
  "slot_view T (db\<lparr>account_revert_tbl := ar\<rparr>) = slot_view T db"
  "slot_view T (db\<lparr>storage_revert_tbl := sr\<rparr>) = slot_view T db"
  "slot_view T (db\<lparr>bytecode_tbl := bc\<rparr>) = slot_view T db"
  by (auto simp: fun_eq_iff intro: acct_view_cong slot_view_cong)

section \<open>Accounts and slots as keyed stores\<close>

text \<open>\<open>put_account\<close> never fails under the laws; this is its result.\<close>

definition account_put ::
  "('code, 'b) rollup_text \<Rightarrow> address \<Rightarrow> 'code account_info \<Rightarrow> rollup_db \<Rightarrow> rollup_db" where
  "account_put T a acc db = db\<lparr>account_tbl :=
     upsert_row (address_to_string T a) (the (account_to_json T acc)) (account_tbl db)\<rparr>"

abbreviation write_account ::
  "('code, 'b) rollup_text \<Rightarrow> address \<times> 'code account_info option \<Rightarrow> rollup_db \<Rightarrow> rollup_db" where
  "write_account T \<equiv> write_opt (account_put T) (\<lambda>a db. delete_account T db a)"

abbreviation write_slot ::
  "('code, 'b) rollup_text \<Rightarrow> (address \<times> b256) \<times> u256 option \<Rightarrow> rollup_db \<Rightarrow> rollup_db" where
  "write_slot T \<equiv> write_opt (\<lambda>ak v db. upsert_storage T db (fst ak) (snd ak) v)
     (\<lambda>ak db. delete_storage T db (fst ak) (snd ak))"

context rollup_text_ok
begin

lemma put_account_eq: "put_account T a acc db = Inr (account_put T a acc db)"
  using account_rt[of acc] by (auto simp: put_account_def account_put_def)

lemma acct_view_put: "acct_view T (account_put T a acc db) = (acct_view T db)(a \<mapsto> account_key acc)"
  using account_rt[of acc]
  by (auto simp: fun_eq_iff acct_view_def get_account_def account_put_def query_row_def)

lemma acct_view_delete: "acct_view T (delete_account T db a) = (acct_view T db)(a := None)"
  by (auto simp: fun_eq_iff acct_view_def get_account_def delete_account_def query_row_def)

lemma slot_view_upsert: "slot_view T (upsert_storage T db a k v) = (slot_view T db)((a, k) \<mapsto> v)"
  by (auto simp: fun_eq_iff slot_view_def get_storage_def upsert_storage_def query_row_def u256_rt)

lemma slot_view_delete: "slot_view T (delete_storage T db a k) = (slot_view T db)((a, k) := None)"
  by (auto simp: fun_eq_iff slot_view_def get_storage_def delete_storage_def query_row_def)

lemma view_other [simp]:
  "acct_view T (upsert_storage T db a k v) = acct_view T db"
  "acct_view T (delete_storage T db a k) = acct_view T db"
  "slot_view T (account_put T a acc db) = slot_view T db"
  "slot_view T (delete_account T db a) = slot_view T db"
  by (simp_all add: upsert_storage_def delete_storage_def account_put_def delete_account_def)

end

sublocale rollup_text_ok \<subseteq> accts: keyed_store "acct_view T" "account_put T" "\<lambda>a db. delete_account T db a" account_key
  by unfold_locales (simp_all add: acct_view_put acct_view_delete)

sublocale rollup_text_ok \<subseteq> slots: keyed_store "slot_view T"
  "\<lambda>ak v db. upsert_storage T db (fst ak) (snd ak) v" "\<lambda>ak db. delete_storage T db (fst ak) (snd ak)" "\<lambda>v. v"
  by unfold_locales (simp_all add: slot_view_upsert slot_view_delete)

section \<open>The invariant is kept by every write\<close>

lemma db_ok_block:
  assumes "db_ok T db" "insert_row tab (dec_string (unat (m :: u64))) d (block_tbl db) = Inr bt"
    "block_from_json T d \<noteq> None"
  shows "db_ok T (db\<lparr>block_tbl := bt\<rparr>)"
  using assms by (auto simp: db_ok_def insert_row_Inr_iff unique_keys_def)

lemma db_ok_block_delete: "db_ok T db \<Longrightarrow> db_ok T (db\<lparr>block_tbl := delete_rows p (block_tbl db)\<rparr>)"
  by (auto simp: db_ok_def unique_delete)

lemma db_ok_account_upsert:
  assumes "db_ok T db" "account_from_json T d \<noteq> None"
  shows "db_ok T (db\<lparr>account_tbl := upsert_row (address_to_string T a) d (account_tbl db)\<rparr>)"
  using assms set_upsert_subset[of "address_to_string T a" d "account_tbl db"]
  by (auto simp: db_ok_def unique_upsert)

lemma db_ok_account_delete: "db_ok T db \<Longrightarrow> db_ok T (delete_account T db a)"
  by (auto simp: db_ok_def delete_account_def unique_delete)

lemma db_ok_account_revert:
  assumes "db_ok T db" "account_opt_from_json T d \<noteq> None"
  shows "db_ok T (db\<lparr>account_revert_tbl := upsert_row (n, address_to_string T a) d (account_revert_tbl db)\<rparr>)"
  using assms set_upsert_subset[of "(n, address_to_string T a)" d "account_revert_tbl db"]
  by (auto simp: db_ok_def unique_upsert)

lemma db_ok_storage_delete_rows:
  "db_ok T db \<Longrightarrow> db_ok T (db\<lparr>storage_tbl := delete_rows p (storage_tbl db)\<rparr>)"
  by (auto simp: db_ok_def unique_delete)

lemma db_ok_storage_delete: "db_ok T db \<Longrightarrow> db_ok T (delete_storage T db a k)"
  by (simp add: delete_storage_def db_ok_storage_delete_rows)

lemma db_ok_storage_revert:
  assumes "db_ok T db" "d = ''destroyed'' \<or> u256_from_str T d \<noteq> None"
  shows "db_ok T (db\<lparr>storage_revert_tbl :=
    upsert_row (n, address_to_string T a, b256_to_string T k) d (storage_revert_tbl db)\<rparr>)"
  using assms set_upsert_subset[of "(n, address_to_string T a, b256_to_string T k)" d "storage_revert_tbl db"]
  by (auto simp: db_ok_def unique_upsert)

lemma db_ok_bytecode:
  "db_ok T db \<Longrightarrow> db_ok T (db\<lparr>bytecode_tbl := insert_or_ignore h c (bytecode_tbl db)\<rparr>)"
  by (auto simp: db_ok_def unique_insert_or_ignore)

context rollup_text_ok
begin

lemma db_ok_account_put: "db_ok T db \<Longrightarrow> db_ok T (account_put T a acc db)"
  using account_rt[of acc] by (auto simp: account_put_def intro!: db_ok_account_upsert)

lemma db_ok_storage_upsert: "db_ok T db \<Longrightarrow> db_ok T (upsert_storage T db a k v)"
  using set_upsert_subset[of "(address_to_string T a, b256_to_string T k)" "u256_to_string T v" "storage_tbl db"]
  by (auto simp: db_ok_def unique_upsert upsert_storage_def u256_rt)

lemma upsert_account_eq:
  assumes "get_account T db a = Inr oacc" "f oacc = Inr acc"
  shows "upsert_account T db a f = Inr (account_put T a acc db)"
  using assms by (simp add: upsert_account_def put_account_eq)

lemmas db_ok_writes = db_ok_account_put db_ok_account_delete db_ok_storage_upsert db_ok_storage_delete
  db_ok_account_revert db_ok_storage_revert db_ok_storage_delete_rows db_ok_bytecode db_ok_block_delete

end

end
