(* ===== verification/Rollup_Revert.thy ===== *)
theory Rollup_Revert
  imports Rollup_Views
begin

text \<open>
  The functional behaviour of \<open>revert_tip_block\<close>: on a well-formed database it restores, for every
  revert row of the block, the account or slot content the row names, and leaves the rest.
\<close>

section \<open>The state a revert builds\<close>

definition old_of :: "'code revert_state \<Rightarrow> address \<Rightarrow> 'code account_info option option" where
  "old_of st a = map_option fst (map_of st a)"

definition slot_of :: "'code revert_state \<Rightarrow> address \<times> b256 \<Rightarrow> u256 option" where
  "slot_of st ak = (case map_of st (fst ak) of None \<Rightarrow> None
     | Some (_, _, s) \<Rightarrow> map_option fst (map_of s (snd ak)))"

text \<open>One entry per address and slot, and the present account is what the table holds.\<close>

definition state_ok :: "('code, 'b) rollup_text \<Rightarrow> rollup_db \<Rightarrow> 'code revert_state \<Rightarrow> bool" where
  "state_ok T tx st \<longleftrightarrow> distinct (map fst st) \<and>
     (\<forall>(a, _, n, s) \<in> set st. get_account T tx a = Inr n \<and> distinct (map fst s))"

lemma state_nil [simp]:
  shows state_ok_nil: "state_ok T tx []" and "old_of [] a = None" and "slot_of [] ak = None"
  by (simp_all add: state_ok_def old_of_def slot_of_def)

lemma state_okD:
  assumes "state_ok T tx st" "map_of st a = Some (oa, n, s)"
  shows "get_account T tx a = Inr n" "distinct (map fst s)"
  using assms by (auto simp: state_ok_def dest!: map_of_SomeD)

lemma state_ok_update:
  assumes "state_ok T tx st" "get_account T tx a = Inr n" "distinct (map fst s)"
  shows "state_ok T tx (AList.update a (oa, n, s) st)"
proof -
  have "set (AList.update a (oa, n, s) st) \<subseteq> insert (a, oa, n, s) (set st)"
    using set_upsert_subset[of a "(oa, n, s)" st] by (simp add: upsert_row_def)
  with assms show ?thesis
    by (fastforce simp: state_ok_def AList.distinct_update)
qed

lemma of_update:
  "old_of (AList.update a e st) = (old_of st)(a \<mapsto> fst e)"
  "slot_of (AList.update a e st) =
     (\<lambda>ak. if fst ak = a then map_option fst (map_of (snd (snd e)) (snd ak)) else slot_of st ak)"
  by (auto simp: old_of_def slot_of_def AList.update_conv' fun_eq_iff split: prod.splits)

lemma collect_account_reverts_ok:
  assumes "db_ok T tx" "state_ok T tx st"
  shows "\<exists>st'. collect_account_reverts T tx rows st = Inr st' \<and> state_ok T tx st' \<and>
    (\<forall>a. old_of st' a = (case map_of (rev rows) a of None \<Rightarrow> old_of st a | Some oa \<Rightarrow> Some oa)) \<and>
    slot_of st' = slot_of st"
  using assms(2)
proof (induction rows arbitrary: st)
  case (Cons row rows)
  obtain a oa where row: "row = (a, oa)" by (cases row)
  obtain n s where upd: "collect_account_reverts T tx (row # rows) st =
      collect_account_reverts T tx rows (AList.update a (oa, n, s) st)"
    and n: "get_account T tx a = Inr n" and s: "distinct (map fst s)"
    and slots: "map_option fst (map_of s k) = slot_of st (a, k)" for k
  proof (cases "map_of st a")
    case None
    obtain n where "get_account T tx a = Inr n" using get_account_ok[OF assms(1)] by metis
    with None show thesis by (intro that[of n "[]"]) (auto simp: row slot_of_def)
  next
    case (Some e)
    obtain o' n s where e: "e = (o', n, s)" by (cases e)
    with Some state_okD[OF Cons.prems] show thesis
      by (intro that[of n s]) (auto simp: row slot_of_def)
  qed
  from Cons.IH[OF state_ok_update[OF Cons.prems n s, of oa]] obtain st' where
    "collect_account_reverts T tx rows (AList.update a (oa, n, s) st) = Inr st'" "state_ok T tx st'"
    "\<forall>b. old_of st' b = (case map_of (rev rows) b of
       None \<Rightarrow> old_of (AList.update a (oa, n, s) st) b | Some oa \<Rightarrow> Some oa)"
    "slot_of st' = slot_of (AList.update a (oa, n, s) st)" by blast
  with upd slots show ?case
    by (auto simp: of_update row map_add_def fun_eq_iff split: option.splits)
qed simp

lemma collect_storage_reverts_ok:
  assumes "db_ok T tx" "state_ok T tx st"
  shows "\<exists>st'. collect_storage_reverts T tx rows st = Inr st' \<and> state_ok T tx st' \<and>
    (\<forall>ak. slot_of st' ak = (case map_of (rev (map (\<lambda>(a, k, v). ((a, k), v)) rows)) ak of
        None \<Rightarrow> slot_of st ak | Some v \<Rightarrow> Some v)) \<and>
    (\<forall>a oa. old_of st a = Some oa \<longrightarrow> old_of st' a = Some oa) \<and>
    (\<forall>a oa. old_of st a = None \<longrightarrow> old_of st' a = Some oa \<longrightarrow> get_account T tx a = Inr oa)"
  using assms(2)
proof (induction rows arbitrary: st)
  case (Cons row rows)
  obtain a k v where row: "row = (a, k, v)" by (cases row)
  obtain e where e: "(case map_of st a of
        None \<Rightarrow> and_then (get_account T tx a) (\<lambda>p. Inr (p, p, []))
      | Some e \<Rightarrow> Inr e) = Inr e"
    and acc: "get_account T tx a = Inr (fst (snd e))" and dist: "distinct (map fst (snd (snd e)))"
    and slots: "\<And>k. map_option fst (map_of (snd (snd e)) k) = slot_of st (a, k)"
    and old: "old_of st a = None \<Longrightarrow> fst e = fst (snd e)" "\<And>oa. old_of st a = Some oa \<Longrightarrow> fst e = oa"
  proof (cases "map_of st a")
    case None
    obtain n where "get_account T tx a = Inr n" using get_account_ok[OF assms(1)] by metis
    with None show thesis by (intro that[of "(n, n, [])"]) (auto simp: slot_of_def old_of_def)
  next
    case (Some e)
    obtain o' n s where "e = (o', n, s)" by (cases e)
    with Some state_okD[OF Cons.prems] show thesis
      by (intro that[of e]) (auto simp: slot_of_def old_of_def)
  qed
  obtain oa n s where esplit: "e = (oa, n, s)" by (cases e)
  obtain nv where inner: "(case map_of s k of
        None \<Rightarrow> and_then (get_storage T tx a k) (\<lambda>nv.
          Inr (AList.update k (v, case nv of None \<Rightarrow> 0 | Some v \<Rightarrow> v) s))
      | Some (_, nv) \<Rightarrow> Inr (AList.update k (v, nv) s)) = Inr (AList.update k (v, nv) s)"
  proof (cases "map_of s k")
    case None
    obtain ov where "get_storage T tx a k = Inr ov" using get_storage_ok[OF assms(1)] by metis
    with None show thesis by (intro that[of "case ov of None \<Rightarrow> 0 | Some v \<Rightarrow> v"]) simp
  next
    case (Some e)
    then show thesis by (intro that[of "snd e"]) (auto split: prod.splits)
  qed
  let ?s = "AList.update k (v, nv) s"
  let ?st = "AList.update a (oa, n, ?s) st"
  have step: "collect_storage_reverts T tx (row # rows) st = collect_storage_reverts T tx rows ?st"
    using e inner by (simp add: row esplit)
  have ok: "state_ok T tx ?st"
    using acc dist esplit by (intro state_ok_update Cons.prems AList.distinct_update) auto
  have slots': "slot_of ?st = (slot_of st)((a, k) \<mapsto> v)"
    using slots esplit by (auto simp: of_update fun_eq_iff AList.update_conv')
  have old': "old_of ?st = (old_of st)(a \<mapsto> oa)" by (simp add: of_update)
  from Cons.IH[OF ok] obtain st' where st':
    "collect_storage_reverts T tx rows ?st = Inr st'" "state_ok T tx st'"
    "\<And>ak. slot_of st' ak = (case map_of (rev (map (\<lambda>(a, k, v). ((a, k), v)) rows)) ak of
        None \<Rightarrow> slot_of ?st ak | Some v \<Rightarrow> Some v)"
    "\<And>b ob. old_of ?st b = Some ob \<Longrightarrow> old_of st' b = Some ob"
    "\<And>b ob. old_of ?st b = None \<Longrightarrow> old_of st' b = Some ob \<Longrightarrow> get_account T tx b = Inr ob"
    by blast
  show ?case
  proof (intro exI[of _ st'] conjI allI impI)
    show "collect_storage_reverts T tx (row # rows) st = Inr st'" using step st'(1) by simp
    show "state_ok T tx st'" by (rule st'(2))
    show "slot_of st' ak = (case map_of (rev (map (\<lambda>(a, k, v). ((a, k), v)) (row # rows))) ak of
        None \<Rightarrow> slot_of st ak | Some v \<Rightarrow> Some v)" for ak
      using st'(3)[of ak] slots' by (auto simp: row map_add_def split: option.splits)
    show "old_of st' b = Some ob" if "old_of st b = Some ob" for b ob
      using that st'(4)[of b ob] old' old(2)[of ob] esplit by (cases "b = a") auto
    show "get_account T tx b = Inr ob" if "old_of st b = None" "old_of st' b = Some ob" for b ob
      using that st'(4)[of b oa] st'(5)[of b ob] old' old(1) acc esplit by (cases "b = a") auto
  qed
qed simp

section \<open>Writing the state back\<close>

text \<open>The tables a restore does not touch.\<close>

definition same_logs :: "rollup_db \<Rightarrow> rollup_db \<Rightarrow> bool" where
  "same_logs db db' \<longleftrightarrow> block_tbl db' = block_tbl db \<and> account_revert_tbl db' = account_revert_tbl db \<and>
     storage_revert_tbl db' = storage_revert_tbl db \<and> bytecode_tbl db' = bytecode_tbl db"

lemma same_logs_refl [simp]: "same_logs db db"
  by (simp add: same_logs_def)

lemma same_logs_trans: "same_logs a b \<Longrightarrow> same_logs b c \<Longrightarrow> same_logs a c"
  by (simp add: same_logs_def)

lemma same_logs_writes [simp]:
  "same_logs db (upsert_storage T db a k v)" "same_logs db (delete_storage T db a k)"
  "same_logs db (account_put T a acc db)" "same_logs db (delete_account T db a)"
  by (simp_all add: same_logs_def upsert_storage_def delete_storage_def account_put_def delete_account_def)

definition nonzero :: "u256 \<Rightarrow> u256 option" where
  "nonzero v = (if v = 0 then None else Some v)"

context rollup_text_ok
begin

lemma restore_slot_ok:
  assumes "db_ok T tx"
  shows "db_ok T (restore_slot T a (k, v, nv) tx)" "same_logs tx (restore_slot T a (k, v, nv) tx)"
    "acct_view T (restore_slot T a (k, v, nv) tx) = acct_view T tx"
    "slot_view T (restore_slot T a (k, v, nv) tx) = (slot_view T tx)((a, k) := nonzero v)"
  using assms
  by (auto simp: restore_slot_def Let_def db_ok_writes slot_view_upsert slot_view_delete nonzero_def
      intro: same_logs_trans[OF same_logs_writes(2) same_logs_writes(1)])

lemma restore_slots_ok:
  assumes "db_ok T tx" "distinct (map fst s)"
  shows "db_ok T (fold (restore_slot T a) s tx) \<and> same_logs tx (fold (restore_slot T a) s tx) \<and>
    acct_view T (fold (restore_slot T a) s tx) = acct_view T tx \<and>
    (\<forall>ak. slot_view T (fold (restore_slot T a) s tx) ak =
      (if fst ak = a then case map_of s (snd ak) of None \<Rightarrow> slot_view T tx ak | Some (v, _) \<Rightarrow> nonzero v
       else slot_view T tx ak))"
  using assms
proof (induction s arbitrary: tx)
  case (Cons e s)
  obtain k v nv where e: "e = (k, v, nv)" by (cases e)
  let ?tx = "restore_slot T a (k, v, nv) tx"
  note r = restore_slot_ok[OF Cons.prems(1), of a k v nv]
  have "map_of s k = None" using Cons.prems(2) by (auto simp: e map_of_eq_None_iff)
  with Cons.IH[OF r(1)] Cons.prems(2) r show ?case
    by (auto simp: e intro: same_logs_trans split: option.splits)
qed simp

lemma restore_account_ok:
  assumes "db_ok T tx" "acct_view T tx a = map_option account_key n"
  shows "\<exists>tx'. (if account_opt_ne T oa n
        then (case oa of Some account \<Rightarrow> upsert_account T tx a (\<lambda>_. Inr account)
          | None \<Rightarrow> Inr (delete_account T tx a))
        else Inr tx) = Inr tx' \<and> db_ok T tx' \<and> same_logs tx tx' \<and> slot_view T tx' = slot_view T tx \<and>
      acct_view T tx' = (acct_view T tx)(a := map_option account_key oa)"
proof (cases "account_opt_ne T oa n")
  case True
  show ?thesis
  proof (cases oa)
    case None
    with True assms(1) show ?thesis by (auto simp: db_ok_writes acct_view_delete)
  next
    case (Some acc)
    obtain x where "get_account T tx a = Inr x" using get_account_ok[OF assms(1)] by metis
    with True Some assms(1) show ?thesis
      by (auto simp: upsert_account_eq db_ok_writes acct_view_put)
  qed
next
  case False
  then have "map_option account_key oa = map_option account_key n"
    by (auto simp: account_opt_ne_def account_ne split: option.splits)
  with False assms show ?thesis by (auto simp: fun_eq_iff)
qed

lemma restore_state_ok:
  assumes "db_ok T tx" "distinct (map fst st)"
    "\<forall>(a, _, n, s) \<in> set st. acct_view T tx a = map_option account_key n \<and> distinct (map fst s)"
  shows "\<exists>tx'. restore_state T st tx = Inr tx' \<and> db_ok T tx' \<and> same_logs tx tx' \<and>
    (\<forall>a. acct_view T tx' a = (case old_of st a of None \<Rightarrow> acct_view T tx a
       | Some oa \<Rightarrow> map_option account_key oa)) \<and>
    (\<forall>ak. slot_view T tx' ak = (case slot_of st ak of None \<Rightarrow> slot_view T tx ak | Some v \<Rightarrow> nonzero v))"
  using assms
proof (induction st arbitrary: tx)
  case (Cons e st)
  obtain a oa n s where e: "e = (a, oa, n, s)" by (cases e)
  have notin: "map_of st a = None" using Cons.prems(2) by (auto simp: e map_of_eq_None_iff)
  from Cons.prems(3) have n: "acct_view T tx a = map_option account_key n" and s: "distinct (map fst s)"
    by (auto simp: e)
  from restore_account_ok[OF Cons.prems(1) n, of oa] obtain tx1 where tx1:
    "restore_state T (e # st) tx = restore_state T st (fold (restore_slot T a) s tx1)"
    "db_ok T tx1" "same_logs tx tx1" "slot_view T tx1 = slot_view T tx"
    "acct_view T tx1 = (acct_view T tx)(a := map_option account_key oa)"
    by (auto simp: e)
  define tx2 where "tx2 = fold (restore_slot T a) s tx1"
  note tx2 = restore_slots_ok[OF tx1(2) s, of a, folded tx2_def]
  have rest: "\<forall>(b, _, n, s) \<in> set st. acct_view T tx2 b = map_option account_key n \<and> distinct (map fst s)"
    using Cons.prems(2,3) tx1(5) tx2 by (force simp: e)
  from Cons.IH[OF _ _ rest] Cons.prems(2) tx2 obtain tx' where tx':
    "restore_state T st tx2 = Inr tx'" "db_ok T tx'" "same_logs tx2 tx'"
    "\<forall>a. acct_view T tx' a = (case old_of st a of None \<Rightarrow> acct_view T tx2 a
       | Some oa \<Rightarrow> map_option account_key oa)"
    "\<forall>ak. slot_view T tx' ak = (case slot_of st ak of None \<Rightarrow> slot_view T tx2 ak | Some v \<Rightarrow> nonzero v)"
    by (auto simp: e)
  have accts: "acct_view T tx' b = (case old_of (e # st) b of None \<Rightarrow> acct_view T tx b
       | Some oa \<Rightarrow> map_option account_key oa)" for b
    using tx'(4) tx1(5) tx2 notin by (auto simp: e old_of_def split: option.splits)
  have slots: "slot_view T tx' ak = (case slot_of (e # st) ak of None \<Rightarrow> slot_view T tx ak
       | Some v \<Rightarrow> nonzero v)" for ak
    using tx'(5)[rule_format, of ak] tx1(4) tx2[THEN conjunct2, THEN conjunct2, THEN conjunct2,
        rule_format, of ak] notin
    by (cases "map_of st (fst ak)") (auto simp: e slot_of_def split: option.splits prod.splits if_splits)
  have "same_logs tx tx'" using tx1(3) tx2 tx'(3) by (blast intro: same_logs_trans)
  with tx1(1)[folded tx2_def] tx'(1,2) accts slots show ?case
    by (intro exI[of _ tx'] conjI allI) simp_all
qed (simp add: old_of_def slot_of_def)

end

section \<open>The transaction\<close>

text \<open>The rows of a well-formed database parse.\<close>

lemma try_collect_total:
  assumes "\<And>x. x \<in> set xs \<Longrightarrow> \<exists>y. f x = Inr y"
  shows "\<exists>ys. try_collect f xs = Inr ys"
  using assms by (induction xs) (fastforce simp: and_then_Inr_iff)+

context rollup_text_ok
begin

lemma account_revert_rows_total:
  assumes "db_ok T db"
  shows "\<exists>rows. account_revert_rows T num db = Inr rows"
  unfolding account_revert_rows_def
proof (rule try_collect_total)
  fix x assume "x \<in> set (select_rows (\<lambda>(n, _). n = num) (account_revert_tbl db))"
  with assms show "\<exists>y. (case x of (x, xa) \<Rightarrow> (case x of (_, addr) \<Rightarrow> \<lambda>data.
      and_then (ok_or (ParseError addr) (address_from_str T addr)) (\<lambda>address.
      and_then (ok_or SerdeError (account_opt_from_json T data)) (\<lambda>info. Inr (address, info)))) xa) = Inr y"
    by (fastforce simp: db_ok_def address_rt)
qed

lemma storage_revert_rows_total:
  assumes "db_ok T db"
  shows "\<exists>rows. storage_revert_rows T num db = Inr rows"
  unfolding storage_revert_rows_def
proof (rule try_collect_total)
  fix x assume "x \<in> set (select_rows (\<lambda>(n, _, _). n = num) (storage_revert_tbl db))"
  with assms show "\<exists>y. (case x of (x, xa) \<Rightarrow> (case x of (_, addr, key) \<Rightarrow> \<lambda>data.
      and_then (if data = ''destroyed'' then Inr 0 else ok_or (ParseError data) (u256_from_str T data)) (\<lambda>value.
      and_then (ok_or (ParseError addr) (address_from_str T addr)) (\<lambda>address.
      and_then (ok_or (ParseError key) (b256_from_str T key)) (\<lambda>key. Inr (address, key, value))))) xa) = Inr y"
    by (fastforce simp: db_ok_def address_rt b256_rt)
qed

lemma rows_frame [simp]:
  "account_revert_rows T num (db\<lparr>block_tbl := bt\<rparr>) = account_revert_rows T num db"
  "storage_revert_rows T num (db\<lparr>block_tbl := bt\<rparr>) = storage_revert_rows T num db"
  by (simp_all add: account_revert_rows_def storage_revert_rows_def)

text \<open>
  The whole revert: the block row goes, the accounts and slots named by the block's revert rows
  get the recorded content back (of two account rows for one address the last counts, of two
  slot rows for one slot the first), and nothing else changes.
\<close>

lemma revert_tip_body_ok:
  assumes ok: "db_ok T db" and tip: "select_tip (block_tbl db) = Inr (u256_to_string T n)"
    and A: "account_revert_rows T (u256_to_string T n) db = Inr A"
    and S: "storage_revert_rows T (u256_to_string T n) db = Inr S"
  shows "\<exists>db'. revert_tip_body T n db = Inr db' \<and> db_ok T db' \<and>
    block_tbl db' = delete_rows (\<lambda>k. k = u256_to_string T n) (block_tbl db) \<and>
    account_revert_tbl db' = account_revert_tbl db \<and> storage_revert_tbl db' = storage_revert_tbl db \<and>
    bytecode_tbl db' = bytecode_tbl db \<and>
    (\<forall>a. acct_view T db' a = (case map_of (rev A) a of
       None \<Rightarrow> acct_view T db a | Some oa \<Rightarrow> map_option account_key oa)) \<and>
    (\<forall>ak. slot_view T db' ak = (case map_of (map (\<lambda>(a, k, v). ((a, k), v)) S) ak of
       None \<Rightarrow> slot_view T db ak | Some v \<Rightarrow> nonzero v))"
proof -
  let ?num = "u256_to_string T n"
  define tx where "tx = db\<lparr>block_tbl := delete_rows (\<lambda>k. k = ?num) (block_tbl db)\<rparr>"
  have tx: "db_ok T tx" using ok by (simp add: tx_def db_ok_block_delete)
  have rows: "account_revert_rows T ?num tx = Inr A" "storage_revert_rows T ?num tx = Inr S"
    using A S by (simp_all add: tx_def)
  from collect_account_reverts_ok[OF tx state_ok_nil, of A] obtain st where st:
    "collect_account_reverts T tx A [] = Inr st" "state_ok T tx st"
    "\<And>a. old_of st a = (case map_of (rev A) a of None \<Rightarrow> None | Some oa \<Rightarrow> Some oa)"
    "\<And>ak. slot_of st ak = None" by (auto simp: fun_eq_iff cong: option.case_cong)
  have st3: "old_of st a = map_of (rev A) a" for a
    using st(3) by (simp split: option.splits)
  from collect_storage_reverts_ok[OF tx st(2), of "rev S"] obtain st' where st':
    "collect_storage_reverts T tx (rev S) st = Inr st'" "state_ok T tx st'"
    "\<And>ak. slot_of st' ak = (case map_of (map (\<lambda>(a, k, v). ((a, k), v)) S) ak of
        None \<Rightarrow> None | Some v \<Rightarrow> Some v)"
    "\<And>a oa. old_of st a = Some oa \<Longrightarrow> old_of st' a = Some oa"
    "\<And>a oa. old_of st a = None \<Longrightarrow> old_of st' a = Some oa \<Longrightarrow> get_account T tx a = Inr oa"
    using st(4) by (auto simp: rev_map [symmetric] cong: option.case_cong)
  have st3': "slot_of st' ak = map_of (map (\<lambda>(a, k, v). ((a, k), v)) S) ak" for ak
    using st'(3) by (simp split: option.splits)
  have view: "get_account T tx a = Inr oa \<Longrightarrow> acct_view T tx a = map_option account_key oa" for a oa
    by (auto simp: acct_view_def split: option.splits)
  from restore_state_ok[OF tx, of st'] st'(2) obtain tx' where tx':
    "restore_state T st' tx = Inr tx'" "db_ok T tx'" "same_logs tx tx'"
    "\<And>a. acct_view T tx' a = (case old_of st' a of None \<Rightarrow> acct_view T tx a
       | Some oa \<Rightarrow> map_option account_key oa)"
    "\<And>ak. slot_view T tx' ak = (case slot_of st' ak of None \<Rightarrow> slot_view T tx ak | Some v \<Rightarrow> nonzero v)"
    using view by (auto simp: state_ok_def) blast
  have "acct_view T tx' a = (case map_of (rev A) a of
       None \<Rightarrow> acct_view T db a | Some oa \<Rightarrow> map_option account_key oa)" for a
  proof (cases "map_of (rev A) a")
    case None
    then show ?thesis
      using st3[of a] st'(5)[of a] tx'(4)[of a] view[of a] by (auto simp: tx_def split: option.splits)
  next
    case (Some oa)
    then show ?thesis using st3[of a] st'(4)[of a oa] tx'(4)[of a] by simp
  qed
  moreover have "slot_view T tx' ak = (case map_of (map (\<lambda>(a, k, v). ((a, k), v)) S) ak of
       None \<Rightarrow> slot_view T db ak | Some v \<Rightarrow> nonzero v)" for ak
    using tx'(5)[of ak] st3'[of ak] by (simp add: tx_def cong: option.case_cong)
  moreover have "revert_tip_body T n db = Inr tx'"
    using tip rows st(1) st'(1) tx'(1)
    by (simp add: revert_tip_body_def u256_rt Let_def tx_def)
  ultimately show ?thesis
    using tx'(2,3) by (intro exI[of _ tx']) (simp add: same_logs_def tx_def)
qed

end

end
