(* ===== verification/Rollup_Insert.thy ===== *)
theory Rollup_Insert
  imports Rollup_Revert
begin

text \<open>
  The functional behaviour of \<open>insert_block_with_bundle\<close> against an abstract specification (two
  maps, the accounts and the slots), and the round trip: reverting the block that was just
  inserted restores the accounts, the slots and the blocks, as long as revm's plain reverts
  describe the state before the block and no storage is wiped.
\<close>

section \<open>The abstract specification\<close>

text \<open>A changeset on the slot map: the wipe first, then the slots in order.\<close>

definition apply_changeset ::
  "('code, 'b) rollup_text \<Rightarrow> storage_changeset \<Rightarrow> (address \<times> b256 \<Rightarrow> u256 option) \<Rightarrow> address \<times> b256 \<Rightarrow> u256 option" where
  "apply_changeset T cs m ak =
     (if fst ak = cs_address cs
      then (case map_of (rev (map (\<lambda>(k, v). (b256_from_u256 T k, v)) (cs_storage cs))) (snd ak) of
          Some v \<Rightarrow> Some v
        | None \<Rightarrow> if cs_wipe_storage cs then None else m ak)
      else m ak)"

text \<open>The account changes on the account map.\<close>

definition apply_accounts ::
  "(address \<times> 'code account_info option) list \<Rightarrow> (address \<Rightarrow> (u256 \<times> u64 \<times> b256) option) \<Rightarrow>
   address \<Rightarrow> (u256 \<times> u64 \<times> b256) option" where
  "apply_accounts xs m a = (case map_of (rev xs) a of None \<Rightarrow> m a | Some oa \<Rightarrow> map_option account_key oa)"

section \<open>The loops of the transaction\<close>

definition account_revert_row ::
  "('code, 'b) rollup_text \<Rightarrow> string \<Rightarrow> address \<times> 'code account_info option \<Rightarrow> (string \<times> string) \<times> string" where
  "account_revert_row T num e = ((num, address_to_string T (fst e)), the (account_opt_to_json T (snd e)))"

definition storage_revert_row ::
  "('code, 'b) rollup_text \<Rightarrow> string \<Rightarrow> address \<Rightarrow> b256 \<times> revert_to_slot \<Rightarrow> (string \<times> string \<times> string) \<times> string" where
  "storage_revert_row T num a e =
     ((num, address_to_string T a, b256_to_string T (fst e)), slot_text T (snd e))"

abbreviation upsert_rows :: "('k \<times> 'v) list \<Rightarrow> ('k, 'v) table \<Rightarrow> ('k, 'v) table" where
  "upsert_rows \<equiv> fold (\<lambda>(k, v). upsert_row k v)"

lemma upsert_rows_fresh:
  "distinct (map fst kvs) \<Longrightarrow> fst ` set kvs \<inter> fst ` set t = {} \<Longrightarrow> upsert_rows kvs t = t @ kvs"
  using fold_update_distinct[of kvs t] by (simp add: upsert_row_def [abs_def])

text \<open>The slots a storage revert records for an address that was not wiped.\<close>

definition revert_slots ::
  "('code, 'b) rollup_text \<Rightarrow> storage_revert \<Rightarrow> (address \<times> b256 \<times> revert_to_slot) list" where
  "revert_slots T sr = map (\<lambda>(k, s). (sr_address sr, b256_from_u256 T k, s)) (sr_storage_revert sr)"

definition slot_revert_value :: "revert_to_slot \<Rightarrow> u256" where
  "slot_revert_value s = (case s of SlotSome v \<Rightarrow> v | SlotDestroyed \<Rightarrow> 0)"

text \<open>The storage reverts that record nothing but their own slots.\<close>

abbreviation own_slots_only ::
  "(address \<times> b256 \<Rightarrow> u256 option) \<Rightarrow> storage_revert list \<Rightarrow> bool" where
  "own_slots_only slots srs \<equiv> \<forall>sr \<in> set srs. sr_wiped sr \<longrightarrow> (\<forall>k. slots (sr_address sr, k) = None)"

context rollup_text_ok
begin

lemma write_accounts_eq: "write_accounts T xs tx = Inr (fold (write_account T) xs tx)"
proof (induction xs arbitrary: tx)
  case (Cons x xs)
  obtain a oa where "x = (a, oa)" by (cases x)
  with Cons show ?case by (cases oa) (auto simp: put_account_eq write_opt_def)
qed simp

lemma write_accounts_frame:
  "same_logs tx (fold (write_account T) xs tx) \<and> slot_view T (fold (write_account T) xs tx) = slot_view T tx"
proof (induction xs arbitrary: tx)
  case (Cons x xs)
  have "same_logs tx (write_account T x tx)" "slot_view T (write_account T x tx) = slot_view T tx"
    by (auto simp: write_opt_def split: option.splits)
  with Cons[of "write_account T x tx"] show ?case by (auto intro: same_logs_trans)
qed simp

lemma db_ok_write_accounts: "db_ok T tx \<Longrightarrow> db_ok T (fold (write_account T) xs tx)"
  by (induction xs arbitrary: tx) (auto simp: write_opt_def db_ok_writes split: option.splits)

lemma acct_view_write_accounts:
  "acct_view T (fold (write_account T) xs tx) = apply_accounts xs (acct_view T tx)"
  by (simp add: fun_eq_iff accts.get_write_all apply_accounts_def)

lemma write_account_reverts_eq:
  "write_account_reverts T num xs tx = Inr (tx\<lparr>account_revert_tbl :=
     upsert_rows (map (account_revert_row T num) xs) (account_revert_tbl tx)\<rparr>)"
proof (induction xs arbitrary: tx)
  case (Cons x xs)
  obtain a oa where x: "x = (a, oa)" by (cases x)
  obtain j where "account_opt_to_json T oa = Some j" using account_opt_rt[of oa] by blast
  with Cons show ?case by (simp add: x account_revert_row_def)
qed simp

lemma db_ok_write_account_reverts:
  "db_ok T tx \<Longrightarrow> db_ok T (tx\<lparr>account_revert_tbl :=
     upsert_rows (map (account_revert_row T num) xs) (account_revert_tbl tx)\<rparr>)"
proof (induction xs arbitrary: tx)
  case (Cons x xs)
  have "account_opt_from_json T (the (account_opt_to_json T (snd x))) \<noteq> None"
    using account_opt_rt[of "snd x"] by auto
  from Cons.IH[OF db_ok_account_revert[OF Cons.prems this]] show ?case
    by (simp add: account_revert_row_def)
qed simp

lemma storage_changeset_ok:
  shows "same_logs tx (write_storage_changeset T cs tx)" (is ?a)
    and "acct_view T (write_storage_changeset T cs tx) = acct_view T tx" (is ?b)
    and "slot_view T (write_storage_changeset T cs tx) = apply_changeset T cs (slot_view T tx)" (is ?c)
    and "db_ok T tx \<Longrightarrow> db_ok T (write_storage_changeset T cs tx)" (is "_ \<Longrightarrow> ?d")
proof -
  let ?w = "\<lambda>kvs tx. fold (\<lambda>(key, data) tx. upsert_storage T tx (cs_address cs) (b256_from_u256 T key) data) kvs tx"
  have slots: "same_logs tx (?w kvs tx) \<and> acct_view T (?w kvs tx) = acct_view T tx \<and>
      (db_ok T tx \<longrightarrow> db_ok T (?w kvs tx)) \<and>
      (\<forall>ak. slot_view T (?w kvs tx) ak = (if fst ak = cs_address cs
        then (case map_of (rev (map (\<lambda>(k, v). (b256_from_u256 T k, v)) kvs)) (snd ak) of
          None \<Rightarrow> slot_view T tx ak | Some v \<Rightarrow> Some v)
        else slot_view T tx ak))" for kvs tx
  proof (induction kvs arbitrary: tx)
    case (Cons kv kvs)
    obtain k v where kv: "kv = (k, v)" by (cases kv)
    let ?tx = "upsert_storage T tx (cs_address cs) (b256_from_u256 T k) v"
    from Cons.IH[of ?tx] show ?case
      by (auto simp: kv slot_view_upsert map_add_def db_ok_writes split: option.splits
          intro: same_logs_trans[OF same_logs_writes(1)])
  qed simp
  define tx1 where "tx1 = (if cs_wipe_storage cs
      then tx\<lparr>storage_tbl := delete_rows (\<lambda>(addr, _). addr = address_to_string T (cs_address cs)) (storage_tbl tx)\<rparr>
      else tx)"
  have tx1: "same_logs tx tx1" "acct_view T tx1 = acct_view T tx" "db_ok T tx \<longrightarrow> db_ok T tx1"
    "slot_view T tx1 = (\<lambda>ak. if cs_wipe_storage cs \<and> fst ak = cs_address cs then None else slot_view T tx ak)"
    by (auto simp: tx1_def same_logs_def db_ok_writes slot_view_def get_storage_def query_row_def fun_eq_iff)
  have eq: "write_storage_changeset T cs tx = ?w (cs_storage cs) tx1"
    by (simp add: write_storage_changeset_def Let_def tx1_def)
  note s = slots[of tx1 "cs_storage cs", folded eq]
  show ?a using s tx1(1) by (blast intro: same_logs_trans)
  show ?b using s tx1(2) by simp
  show ?c using s tx1(4) by (auto simp: apply_changeset_def fun_eq_iff split: option.splits)
  show ?d if "db_ok T tx" using s tx1(3) that by simp
qed

lemma storage_changesets_ok:
  "same_logs tx (fold (write_storage_changeset T) css tx) \<and>
   acct_view T (fold (write_storage_changeset T) css tx) = acct_view T tx \<and>
   slot_view T (fold (write_storage_changeset T) css tx) = fold (apply_changeset T) css (slot_view T tx) \<and>
   (db_ok T tx \<longrightarrow> db_ok T (fold (write_storage_changeset T) css tx))"
proof (induction css arbitrary: tx)
  case (Cons cs css)
  from Cons[of "write_storage_changeset T cs tx"] storage_changeset_ok[where tx = tx and cs = cs] show ?case
    by (auto intro: same_logs_trans)
qed simp

lemma get_storages_total: "db_ok T tx \<Longrightarrow> \<exists>kvs. get_storages T tx a = Inr kvs"
  unfolding get_storages_def
  by (rule try_collect_total) (fastforce simp: db_ok_def b256_rt)

text \<open>A wiped address has no slots left to read.\<close>

lemma get_storages_empty:
  assumes "db_ok T tx" "\<And>k. slot_view T tx (a, k) = None"
  shows "get_storages T tx a = Inr []"
proof -
  have "x \<notin> set (select_rows (\<lambda>(addr, _). addr = address_to_string T a) (storage_tbl tx))" for x
  proof
    assume "x \<in> set (select_rows (\<lambda>(addr, _). addr = address_to_string T a) (storage_tbl tx))"
    then have mem: "x \<in> set (storage_tbl tx)" and addr: "fst (fst x) = address_to_string T a"
      by (auto simp: case_prod_unfold)
    from mem assms(1) obtain k where "snd (fst x) = b256_to_string T k"
      by (fastforce simp: db_ok_def)
    with mem addr have "((address_to_string T a, b256_to_string T k), snd x) \<in> set (storage_tbl tx)"
      by (metis prod.collapse)
    then obtain d where "map_of (storage_tbl tx) (address_to_string T a, b256_to_string T k) = Some d"
      by (metis weak_map_of_SomeI)
    moreover obtain ov where "get_storage T tx a k = Inr ov" using get_storage_ok[OF assms(1)] by metis
    ultimately have "slot_view T tx (a, k) \<noteq> None"
      by (auto simp: slot_view_def get_storage_def query_row_def res)
    with assms(2) show False by simp
  qed
  then have "select_rows (\<lambda>(addr, _). addr = address_to_string T a) (storage_tbl tx) = []"
    by (metis list.set_intros(1) neq_Nil_conv)
  then show ?thesis by (simp add: get_storages_def)
qed

lemma slot_text_parses: "slot_text T s = ''destroyed'' \<or> u256_from_str T (slot_text T s) \<noteq> None"
  by (cases s) (simp_all add: slot_text_def u256_rt)

lemma upsert_storage_reverts_eq:
  "fold (\<lambda>(key, data) tx. tx\<lparr>storage_revert_tbl :=
       upsert_row (num, address_to_string T a, b256_to_string T key) (slot_text T data) (storage_revert_tbl tx)\<rparr>)
     kvs tx = tx\<lparr>storage_revert_tbl := upsert_rows (map (storage_revert_row T num a) kvs) (storage_revert_tbl tx)\<rparr>"
  by (induction kvs arbitrary: tx) (auto simp: storage_revert_row_def)

lemma db_ok_storage_reverts:
  "db_ok T tx \<Longrightarrow> db_ok T (tx\<lparr>storage_revert_tbl :=
     upsert_rows (map (storage_revert_row T num a) kvs) (storage_revert_tbl tx)\<rparr>)"
proof (induction kvs arbitrary: tx)
  case (Cons kv kvs)
  from Cons.IH[OF db_ok_storage_revert[OF Cons.prems slot_text_parses]] show ?case
    by (simp add: storage_revert_row_def)
qed simp

lemma write_storage_revert_total:
  assumes "db_ok T tx"
  shows "\<exists>kvs. write_storage_revert T num sr tx = Inr (tx\<lparr>storage_revert_tbl :=
      upsert_rows (map (storage_revert_row T num (sr_address sr)) kvs) (storage_revert_tbl tx)\<rparr>)
    \<and> (own_slots_only (slot_view T tx) [sr] \<longrightarrow>
         kvs = map (\<lambda>(k, s). (b256_from_u256 T k, s)) (sr_storage_revert sr))"
proof -
  obtain kvs where "get_storages T tx (sr_address sr) = Inr kvs" using get_storages_total[OF assms] by blast
  moreover have "kvs = []" if "own_slots_only (slot_view T tx) [sr]" "sr_wiped sr"
    using that get_storages_empty[OF assms, of "sr_address sr"] calculation by auto
  ultimately show ?thesis
    by (intro exI[of _ "map (\<lambda>(k, s). (b256_from_u256 T k, s)) (sr_storage_revert sr) @
        (if sr_wiped sr then map (\<lambda>(k, v). (k, SlotSome v)) kvs else [])"])
      (simp add: write_storage_revert_def Let_def upsert_storage_reverts_eq b256_be del: fold_append)
qed

lemma write_storage_reverts_total:
  assumes "db_ok T tx"
  shows "\<exists>tbl. write_storage_reverts T num srs tx = Inr (tx\<lparr>storage_revert_tbl := tbl\<rparr>) \<and>
    db_ok T (tx\<lparr>storage_revert_tbl := tbl\<rparr>) \<and>
    (own_slots_only (slot_view T tx) srs \<longrightarrow> tbl = upsert_rows
       (map (\<lambda>(a, k, s). storage_revert_row T num a (k, s)) (concat (map (revert_slots T) srs)))
       (storage_revert_tbl tx))"
  using assms
proof (induction srs arbitrary: tx)
  case Nil
  then show ?case by (intro exI[of _ "storage_revert_tbl tx"]) simp
next
  case (Cons sr srs)
  from write_storage_revert_total[OF Cons.prems, of num sr] obtain kvs where kvs:
    "write_storage_revert T num sr tx = Inr (tx\<lparr>storage_revert_tbl :=
      upsert_rows (map (storage_revert_row T num (sr_address sr)) kvs) (storage_revert_tbl tx)\<rparr>)"
    "own_slots_only (slot_view T tx) [sr] \<longrightarrow>
      kvs = map (\<lambda>(k, s). (b256_from_u256 T k, s)) (sr_storage_revert sr)" by blast
  let ?tx = "tx\<lparr>storage_revert_tbl :=
      upsert_rows (map (storage_revert_row T num (sr_address sr)) kvs) (storage_revert_tbl tx)\<rparr>"
  have rows: "map (\<lambda>(a, k, s). storage_revert_row T num a (k, s)) (revert_slots T sr)
      = map (storage_revert_row T num (sr_address sr)) kvs" if "own_slots_only (slot_view T tx) [sr]"
    using kvs(2) that by (simp add: revert_slots_def split_def)
  from Cons.IH[OF db_ok_storage_reverts[OF Cons.prems], of num "sr_address sr" kvs] obtain tbl where tbl:
    "write_storage_reverts T num srs ?tx = Inr (tx\<lparr>storage_revert_tbl := tbl\<rparr>)"
    "db_ok T (tx\<lparr>storage_revert_tbl := tbl\<rparr>)"
    "own_slots_only (slot_view T tx) srs \<longrightarrow> tbl = upsert_rows
       (map (\<lambda>(a, k, s). storage_revert_row T num a (k, s)) (concat (map (revert_slots T) srs)))
       (upsert_rows (map (storage_revert_row T num (sr_address sr)) kvs) (storage_revert_tbl tx))"
    by auto
  show ?case
  proof (intro exI[of _ tbl] conjI impI)
    show "write_storage_reverts T num (sr # srs) tx = Inr (tx\<lparr>storage_revert_tbl := tbl\<rparr>)"
      using kvs(1) tbl(1) by simp
    show "db_ok T (tx\<lparr>storage_revert_tbl := tbl\<rparr>)" by (rule tbl(2))
    assume "own_slots_only (slot_view T tx) (sr # srs)"
    then show "tbl = upsert_rows (map (\<lambda>(a, k, s). storage_revert_row T num a (k, s))
        (concat (map (revert_slots T) (sr # srs)))) (storage_revert_tbl tx)"
      using tbl(3) rows by (simp del: split_paired_All)
  qed
qed

lemma write_contracts_ok:
  "same_logs (tx\<lparr>bytecode_tbl := b\<rparr>) ((write_contracts T cs tx)\<lparr>bytecode_tbl := b\<rparr>) \<and>
   acct_view T (write_contracts T cs tx) = acct_view T tx \<and>
   slot_view T (write_contracts T cs tx) = slot_view T tx \<and>
   (db_ok T tx \<longrightarrow> db_ok T (write_contracts T cs tx))"
proof (induction cs arbitrary: tx)
  case (Cons c cs)
  obtain h bc where "c = (h, bc)" by (cases c)
  with Cons[of "tx\<lparr>bytecode_tbl := insert_or_ignore (b256_to_string T h) (bytecode_to_string T bc) (bytecode_tbl tx)\<rparr>"]
  show ?case by (auto simp: write_contracts_def db_ok_writes same_logs_def)
qed (simp add: write_contracts_def)

text \<open>The transaction body as a whole.\<close>

lemma insert_block_body_ok:
  assumes ok: "db_ok T db" and num: "num = dec_string (unat (block_number T block))"
    and new: "num \<notin> fst ` set (block_tbl db)" and plain: "to_plain bundle = (cs, rv)"
    and one: "length (rv_accounts rv) \<le> 1" "length (rv_storage rv) \<le> 1"
  shows "\<exists>db'. insert_block_body T to_plain block bundle db = Inr db' \<and> db_ok T db' \<and>
    block_tbl db' = block_tbl db @ [(num, the (block_to_json T block))] \<and>
    acct_view T db' = apply_accounts (ch_accounts cs) (acct_view T db) \<and>
    slot_view T db' = fold (apply_changeset T) (ch_storage cs) (slot_view T db) \<and>
    account_revert_tbl db' = upsert_rows (map (account_revert_row T num) (concat (rv_accounts rv))) (account_revert_tbl db) \<and>
    (own_slots_only (slot_view T db') (concat (rv_storage rv)) \<longrightarrow> storage_revert_tbl db' = upsert_rows
       (map (\<lambda>(a, k, s). storage_revert_row T num a (k, s)) (concat (map (revert_slots T) (concat (rv_storage rv)))))
       (storage_revert_tbl db))"
proof -
  obtain j where j: "block_to_json T block = Some j" "block_from_json T j = Some block"
    using block_rt by blast
  define tx0 where "tx0 = db\<lparr>block_tbl := block_tbl db @ [(num, j)]\<rparr>"
  define tx1 where "tx1 = fold (write_account T) (ch_accounts cs) tx0"
  define tx2 where "tx2 = tx1\<lparr>account_revert_tbl :=
      upsert_rows (map (account_revert_row T num) (concat (rv_accounts rv))) (account_revert_tbl tx1)\<rparr>"
  define tx3 where "tx3 = fold (write_storage_changeset T) (ch_storage cs) tx2"
  have ins: "insert_row ''block'' num j (block_tbl db) = Inr (block_tbl db @ [(num, j)])"
    using new by (simp add: insert_row_Inr_iff)
  have ok0: "db_ok T tx0"
    using db_ok_block[OF ok, of "''block''" "block_number T block" j] ins j(2) by (simp add: tx0_def num)
  have ok1: "db_ok T tx1" unfolding tx1_def by (rule db_ok_write_accounts[OF ok0])
  have ok2: "db_ok T tx2" unfolding tx2_def by (rule db_ok_write_account_reverts[OF ok1])
  note f1 = write_accounts_frame[of tx0 "ch_accounts cs", folded tx1_def]
  note v1 = acct_view_write_accounts[of "ch_accounts cs" tx0, folded tx1_def]
  note f3 = storage_changesets_ok[of tx2 "ch_storage cs", folded tx3_def]
  have ok3: "db_ok T tx3" using f3 ok2 by simp
  from write_storage_reverts_total[OF ok3, of num "concat (rv_storage rv)"] obtain tbl where tbl:
    "write_storage_reverts T num (concat (rv_storage rv)) tx3 = Inr (tx3\<lparr>storage_revert_tbl := tbl\<rparr>)"
    "db_ok T (tx3\<lparr>storage_revert_tbl := tbl\<rparr>)"
    "own_slots_only (slot_view T tx3) (concat (rv_storage rv)) \<longrightarrow> tbl = upsert_rows
       (map (\<lambda>(a, k, s). storage_revert_row T num a (k, s)) (concat (map (revert_slots T) (concat (rv_storage rv)))))
       (storage_revert_tbl tx3)" by blast
  have a: "(case rv_accounts rv of [] \<Rightarrow> Inr tx1 | rs # _ \<Rightarrow> write_account_reverts T num rs tx1) = Inr tx2"
    using one(1) by (cases "rv_accounts rv") (auto simp: write_account_reverts_eq tx2_def)
  have b: "(case rv_storage rv of [] \<Rightarrow> Inr tx3 | rs # _ \<Rightarrow> write_storage_reverts T num rs tx3)
      = Inr (tx3\<lparr>storage_revert_tbl := tbl\<rparr>)"
    using one(2) tbl(1) by (cases "rv_storage rv") auto
  define db' where "db' = write_contracts T (ch_contracts cs) (tx3\<lparr>storage_revert_tbl := tbl\<rparr>)"
  note f5 = write_contracts_ok[where cs = "ch_contracts cs" and tx = "tx3\<lparr>storage_revert_tbl := tbl\<rparr>", folded db'_def]
  have w: "write_accounts T (ch_accounts cs) (db\<lparr>block_tbl := block_tbl db @ [(num, j)]\<rparr>) = Inr tx1"
    by (simp add: write_accounts_eq tx1_def tx0_def)
  have e3: "fold (write_storage_changeset T) (ch_storage cs) tx2 = tx3" by (simp add: tx3_def)
  have "insert_block_body T to_plain block bundle db = Inr db'"
    using one by (simp add: insert_block_body_def Let_def num [symmetric] j(1) plain ins w a b e3 db'_def cong: list.case_cong)
  moreover have "db_ok T db'" using f5 tbl(2) by simp
  moreover have "block_tbl db' = block_tbl db @ [(num, j)]"
    "account_revert_tbl db' = account_revert_tbl tx2" "storage_revert_tbl db' = tbl"
    using f5 f3 f1 by (simp_all add: same_logs_def tx0_def tx2_def)
  moreover have "account_revert_tbl tx1 = account_revert_tbl db" "storage_revert_tbl tx3 = storage_revert_tbl db"
    using f1 f3 by (simp_all add: same_logs_def tx0_def tx2_def)
  moreover have "acct_view T db' = apply_accounts (ch_accounts cs) (acct_view T db)"
    using f3 f5 v1 by (simp add: tx0_def tx2_def)
  moreover have "slot_view T db' = fold (apply_changeset T) (ch_storage cs) (slot_view T db)"
    using f1 f3 f5 by (simp add: tx0_def tx2_def)
  moreover have "slot_view T db' = slot_view T tx3" using f5 by simp
  ultimately show ?thesis
    using tbl(3) j(1) by (intro exI[of _ db'] conjI) (simp_all add: tx2_def)
qed

end

section \<open>Reverts that describe the state before a block\<close>

text \<open>
  What revm promises of the plain reverts of one block: every account and slot that the plain
  changes touch is named once, with the content it had before the block (a slot that did not
  exist is recorded as destroyed, or as zero). Wiped storage is left out: \<open>no_wipes\<close>.
\<close>

definition no_wipes :: "'code plain_changeset \<Rightarrow> 'code plain_reverts \<Rightarrow> bool" where
  "no_wipes cs rv \<longleftrightarrow> (\<forall>c \<in> set (ch_storage cs). \<not> cs_wipe_storage c) \<and>
     (\<forall>sr \<in> set (concat (rv_storage rv)). \<not> sr_wiped sr)"

definition faithful_reverts ::
  "('code, 'b) rollup_text \<Rightarrow> rollup_db \<Rightarrow> 'code plain_changeset \<Rightarrow> 'code plain_reverts \<Rightarrow> bool" where
  "faithful_reverts T db cs rv \<longleftrightarrow>
     length (rv_accounts rv) \<le> 1 \<and> length (rv_storage rv) \<le> 1 \<and>
     (let ars = concat (rv_accounts rv); srs = concat (map (revert_slots T) (concat (rv_storage rv))) in
      distinct (map fst ars) \<and> fst ` set (ch_accounts cs) \<subseteq> fst ` set ars \<and>
      (\<forall>(a, oa) \<in> set ars. map_option account_key oa = acct_view T db a) \<and>
      distinct (map (\<lambda>(a, k, _). (a, k)) srs) \<and>
      (\<forall>c \<in> set (ch_storage cs). \<forall>(k, _) \<in> set (cs_storage c).
         (cs_address c, b256_from_u256 T k) \<in> (\<lambda>(a, k, _). (a, k)) ` set srs) \<and>
      (\<forall>(a, k, s) \<in> set srs. slot_revert_value s = slot_value T db (a, k)))"

text \<open>The undo logs hold nothing for a block number yet.\<close>

definition no_logs_for :: "string \<Rightarrow> rollup_db \<Rightarrow> bool" where
  "no_logs_for num db \<longleftrightarrow> (\<forall>((n, _), _) \<in> set (account_revert_tbl db). n \<noteq> num) \<and>
     (\<forall>((n, _, _), _) \<in> set (storage_revert_tbl db). n \<noteq> num)"

lemma slot_value_nonzero [simp]: "(case nonzero v of None \<Rightarrow> 0 | Some v \<Rightarrow> v) = v"
  by (simp add: nonzero_def)

context rollup_text_ok
begin

lemma account_rows_of_log:
  assumes fresh: "no_logs_for num db" and dist: "distinct (map fst ars)"
    and tbl: "account_revert_tbl db1 = upsert_rows (map (account_revert_row T num) ars) (account_revert_tbl db)"
  shows "\<exists>A. account_revert_rows T num db1 = Inr A \<and> map fst A = map fst ars \<and>
    map (map_option account_key \<circ> snd) A = map (map_option account_key \<circ> snd) ars"
proof -
  have "upsert_rows (map (account_revert_row T num) ars) (account_revert_tbl db)
      = account_revert_tbl db @ map (account_revert_row T num) ars"
  proof (rule upsert_rows_fresh)
    show "distinct (map fst (map (account_revert_row T num) ars))"
      using dist by (simp add: account_revert_row_def distinct_map inj_on_def comp_def)
    show "fst ` set (map (account_revert_row T num) ars) \<inter> fst ` set (account_revert_tbl db) = {}"
      using fresh by (fastforce simp: no_logs_for_def account_revert_row_def)
  qed
  moreover have "select_rows (\<lambda>(n, _). n = num) (account_revert_tbl db) = []"
    using fresh by (auto simp: no_logs_for_def select_rows_def filter_empty_conv)
  moreover have "select_rows (\<lambda>(n, _). n = num) (map (account_revert_row T num) ars)
      = map (account_revert_row T num) ars"
    by (auto simp: select_rows_def account_revert_row_def filter_id_conv)
  ultimately have sel: "select_rows (\<lambda>(n, _). n = num) (account_revert_tbl db1) = map (account_revert_row T num) ars"
    by (simp add: tbl select_rows_def)
  define img where "img = (\<lambda>oa. the (account_opt_from_json T (the (account_opt_to_json T oa))))"
  have img: "account_opt_from_json T (the (account_opt_to_json T oa)) = Some (img oa)"
    "map_option account_key (img oa) = map_option account_key oa" for oa
    using account_opt_rt[of oa] by (auto simp: img_def)
  have "account_revert_rows T num db1 = Inr (map (\<lambda>(a, oa). (a, img oa)) ars)"
    unfolding account_revert_rows_def sel try_collect_map
    by (rule try_collect_Inr) (auto simp: account_revert_row_def address_rt img)
  then show ?thesis by (auto simp: comp_def split_def img)
qed

lemma storage_rows_of_log:
  assumes fresh: "no_logs_for num db" and dist: "distinct (map (\<lambda>(a, k, _). (a, k)) srs)"
    and tbl: "storage_revert_tbl db1 =
      upsert_rows (map (\<lambda>(a, k, s). storage_revert_row T num a (k, s)) srs) (storage_revert_tbl db)"
  shows "storage_revert_rows T num db1 = Inr (map (\<lambda>(a, k, s). (a, k, slot_revert_value s)) srs)"
proof -
  let ?row = "\<lambda>(a, k, s). storage_revert_row T num a (k, s)"
  have "upsert_rows (map ?row srs) (storage_revert_tbl db) = storage_revert_tbl db @ map ?row srs"
  proof (rule upsert_rows_fresh)
    have "map fst (map ?row srs) = map (\<lambda>(a, k). (num, address_to_string T a, b256_to_string T k))
        (map (\<lambda>(a, k, _). (a, k)) srs)"
      by (auto simp: storage_revert_row_def)
    then show "distinct (map fst (map ?row srs))"
      using dist by (simp only: distinct_map) (auto simp: inj_on_def)
    show "fst ` set (map ?row srs) \<inter> fst ` set (storage_revert_tbl db) = {}"
      using fresh by (fastforce simp: no_logs_for_def storage_revert_row_def)
  qed
  moreover have "select_rows (\<lambda>(n, _, _). n = num) (storage_revert_tbl db) = []"
    using fresh by (auto simp: no_logs_for_def select_rows_def filter_empty_conv)
  moreover have "select_rows (\<lambda>(n, _, _). n = num) (map ?row srs) = map ?row srs"
    by (auto simp: select_rows_def storage_revert_row_def filter_id_conv)
  ultimately have sel: "select_rows (\<lambda>(n, _, _). n = num) (storage_revert_tbl db1) = map ?row srs"
    by (simp add: tbl select_rows_def)
  show ?thesis
    unfolding storage_revert_rows_def sel try_collect_map
    by (rule try_collect_Inr)
      (auto simp: storage_revert_row_def address_rt b256_rt slot_text_def slot_revert_value_def u256_rt
        split: revert_to_slot.splits)
qed

lemma changesets_untouched:
  assumes "\<forall>c \<in> set css. \<not> cs_wipe_storage c"
    "\<forall>c \<in> set css. \<forall>(k, _) \<in> set (cs_storage c). (cs_address c, b256_from_u256 T k) \<noteq> ak"
  shows "fold (apply_changeset T) css m ak = m ak"
  using assms
proof (induction css arbitrary: m)
  case (Cons c css)
  have "map_of (rev (map (\<lambda>(k, v). (b256_from_u256 T k, v)) (cs_storage c))) (snd ak) = None"
    if "fst ak = cs_address c"
    using Cons.prems(2) by (cases ak) (use that in \<open>force simp: map_of_eq_None_iff\<close>)
  then have "apply_changeset T c m ak = m ak"
    using Cons.prems(1) by (simp add: apply_changeset_def)
  with Cons show ?case by simp
qed simp

text \<open>The tip of a table of smaller numbers.\<close>

lemma select_tip_new:
  "\<forall>k \<in> fst ` set t. k < num \<Longrightarrow> select_tip (t @ [(num, d)]) = Inr (num :: string)"
  by (auto simp: select_tip_def intro!: Max_eqI)

end

section \<open>The round trip\<close>

context rollup_text_ok
begin

lemma number_text: "u256_to_string T (ucast (m :: u64)) = dec_string (unat m)"
  by (simp add: u256_decimal)

lemma insert_then_revert:
  assumes ok: "db_ok T db" and plain: "to_plain bundle = (cs, rv)"
    and faithful: "faithful_reverts T db cs rv" and wipes: "no_wipes cs rv"
    and tip: "\<forall>k \<in> fst ` set (block_tbl db). k < dec_string (unat (block_number T block))"
    and fresh: "no_logs_for (dec_string (unat (block_number T block))) db"
  shows "\<exists>db1 db2. insert_block_with_bundle T to_plain db block bundle = (Inr (), db1) \<and>
    get_block T db1 (ucast (block_number T block)) = Inr (Some block) \<and>
    revert_tip_block T db1 (ucast (block_number T block)) = (Inr (), db2) \<and>
    db_ok T db2 \<and> block_tbl db2 = block_tbl db \<and> acct_view T db2 = acct_view T db \<and>
    slot_value T db2 = slot_value T db"
proof -
  define num where "num = dec_string (unat (block_number T block))"
  define ars where "ars = concat (rv_accounts rv)"
  define srs where "srs = concat (map (revert_slots T) (concat (rv_storage rv)))"
  have new: "num \<notin> fst ` set (block_tbl db)" using tip unfolding num_def by (metis less_irrefl)
  have one: "length (rv_accounts rv) \<le> 1" "length (rv_storage rv) \<le> 1"
    using faithful by (simp_all add: faithful_reverts_def)
  have f: "distinct (map fst ars)" "fst ` set (ch_accounts cs) \<subseteq> fst ` set ars"
    "\<forall>(a, oa) \<in> set ars. map_option account_key oa = acct_view T db a"
    "distinct (map (\<lambda>(a, k, _). (a, k)) srs)"
    "\<forall>c \<in> set (ch_storage cs). \<forall>(k, _) \<in> set (cs_storage c).
       (cs_address c, b256_from_u256 T k) \<in> (\<lambda>(a, k, _). (a, k)) ` set srs"
    "\<forall>(a, k, s) \<in> set srs. slot_revert_value s = slot_value T db (a, k)"
    using faithful unfolding faithful_reverts_def Let_def ars_def [symmetric] srs_def [symmetric]
    by - (elim conjE, assumption)+
  from insert_block_body_ok [where to_plain = to_plain, OF ok num_def new plain one] wipes obtain db1 where db1:
    "insert_block_body T to_plain block bundle db = Inr db1" "db_ok T db1"
    "block_tbl db1 = block_tbl db @ [(num, the (block_to_json T block))]"
    "acct_view T db1 = apply_accounts (ch_accounts cs) (acct_view T db)"
    "slot_view T db1 = fold (apply_changeset T) (ch_storage cs) (slot_view T db)"
    "account_revert_tbl db1 = upsert_rows (map (account_revert_row T num) ars) (account_revert_tbl db)"
    "storage_revert_tbl db1 = upsert_rows (map (\<lambda>(a, k, s). storage_revert_row T num a (k, s)) srs) (storage_revert_tbl db)"
    unfolding no_wipes_def ars_def srs_def by blast
  obtain A where A: "account_revert_rows T num db1 = Inr A" "map fst A = map fst ars"
    "map (map_option account_key \<circ> snd) A = map (map_option account_key \<circ> snd) ars"
    using account_rows_of_log[OF _ f(1) db1(6)] fresh num_def by blast
  have S: "storage_revert_rows T num db1 = Inr (map (\<lambda>(a, k, s). (a, k, slot_revert_value s)) srs)"
    using storage_rows_of_log[OF _ f(4) db1(7)] fresh num_def by blast
  have ntext: "u256_to_string T (ucast (block_number T block)) = num"
    by (simp add: number_text num_def)
  have tipn: "select_tip (block_tbl db1) = Inr num"
    using select_tip_new tip by (simp add: db1(3) num_def)
  from revert_tip_body_ok[OF db1(2), of "ucast (block_number T block)", unfolded ntext, OF tipn A(1) S]
  obtain db2 where db2: "revert_tip_body T (ucast (block_number T block)) db1 = Inr db2" "db_ok T db2"
    "block_tbl db2 = delete_rows (\<lambda>k. k = num) (block_tbl db1)"
    "\<And>a. acct_view T db2 a = (case map_of (rev A) a of
       None \<Rightarrow> acct_view T db1 a | Some oa \<Rightarrow> map_option account_key oa)"
    "\<And>ak. slot_view T db2 ak = (case map_of (map (\<lambda>(a, k, v). ((a, k), v))
        (map (\<lambda>(a, k, s). (a, k, slot_revert_value s)) srs)) ak of
       None \<Rightarrow> slot_view T db1 ak | Some v \<Rightarrow> nonzero v)" by blast
  have accts: "acct_view T db2 = acct_view T db"
  proof
    fix a
    show "acct_view T db2 a = acct_view T db a"
    proof (cases "map_of (rev A) a")
      case None
      then have "a \<notin> fst ` set (ch_accounts cs)"
        using A(2) f(2) by (metis list.set_map map_of_eq_None_iff set_rev subsetD)
      then show ?thesis
        using db2(4)[of a] None by (simp add: db1(4) apply_accounts_def map_of_eq_None_iff[THEN iffD2])
    next
      case (Some oa)
      then have "(a, oa) \<in> set A" by (auto dest: map_of_SomeD)
      then have "(a, map_option account_key oa) \<in> set (zip (map fst A) (map (map_option account_key \<circ> snd) A))"
        by (force simp: zip_map_fst_snd set_zip in_set_conv_nth)
      then obtain oa' where "(a, oa') \<in> set ars" "map_option account_key oa = map_option account_key oa'"
        unfolding A(2,3) by (force simp: set_zip)
      then show ?thesis using f(3) db2(4)[of a] Some by auto
    qed
  qed
  have slots: "slot_value T db2 ak = slot_value T db ak" for ak
  proof (cases "map_of (map (\<lambda>(a, k, v). ((a, k), v)) (map (\<lambda>(a, k, s). (a, k, slot_revert_value s)) srs)) ak")
    case None
    then have "ak \<notin> (\<lambda>(a, k, _). (a, k)) ` set srs" by (force simp: map_of_eq_None_iff)
    then have "fold (apply_changeset T) (ch_storage cs) (slot_view T db) ak = slot_view T db ak"
      using wipes f(5) by (intro changesets_untouched) (auto simp: no_wipes_def)
    then show ?thesis using db2(5)[of ak] None by (simp add: slot_value_def db1(5))
  next
    case (Some v)
    then obtain s where "(fst ak, snd ak, s) \<in> set srs" "v = slot_revert_value s"
      by (auto dest!: map_of_SomeD)
    with f(6) Some db2(5)[of ak] show ?thesis by (auto simp: slot_value_def)
  qed
  have "get_block T db1 (ucast (block_number T block)) = Inr (Some block)"
    using new block_rt[of block]
    by (auto simp: get_block_def ntext query_row_def db1(3) map_add_def
        map_of_eq_None_iff[THEN iffD2] split: option.splits)
  moreover have "block_tbl db2 = block_tbl db"
    using new by (simp add: db2(3) db1(3) delete_inserted)
  ultimately show ?thesis
    using db1(1) db2(1,2) accts slots
    by (auto simp: insert_block_with_bundle_def revert_tip_block_def in_transaction_Inr_iff)
qed

end

end
