(* ===== verification/Rollup_Rows.thy ===== *)
theory Rollup_Rows
  imports Rollup_Insert
begin

text \<open>
  The undo logs as maps: what a revert finds in the log tables for an account or a slot, the
  order of block numbers as texts (which decides what the tip is), and the databases that the
  rollup can reach.
\<close>

section \<open>Looking up parsed rows\<close>

text \<open>
  \<open>ys\<close> are the parsed rows of \<open>t\<close> that satisfy \<open>p\<close>; \<open>enc\<close> prints the key of a parsed row. Then a
  lookup in \<open>ys\<close> is a lookup in the table.
\<close>

lemma parsed_rows_lookup:
  assumes ys: "try_collect f (select_rows p t) = Inr ys" and inj: "inj enc"
    and parse: "\<And>k d y. (k, d) \<in> set t \<Longrightarrow> p k \<Longrightarrow> f (k, d) = Inr y \<Longrightarrow> k = enc (fst (h y)) \<and> snd (h y) = g d"
  shows "map_of (map h ys) x = (if p (enc x) then map_option g (map_of t (enc x)) else None)"
proof -
  have all: "list_all2 (\<lambda>r y. f r = Inr y) (select_rows p t) ys"
    using ys by (simp add: try_collect_Inr_iff)
  have "\<forall>(k, d) \<in> set (select_rows p t). (k, d) \<in> set t \<and> p k" by auto
  with all have "map_of (map h ys) x = map_option g (map_of (select_rows p t) (enc x))"
  proof (induction rule: list_all2_induct)
    case (Cons r rows y ys)
    obtain k d where r: "r = (k, d)" by (cases r)
    with Cons have "k = enc (fst (h y))" "snd (h y) = g d" using parse[of k d y] by auto
    with Cons r show ?case by (cases "h y") (auto dest: injD[OF inj])
  qed simp
  moreover have "map_of (select_rows p t) k = (if p k then map_of t k else None)" for k
    by (induction t) (auto simp: select_rows_def)
  ultimately show ?thesis by simp
qed

lemma distinct_parsed_rows:
  assumes ys: "try_collect f (select_rows p t) = Inr ys" and uniq: "unique_keys t"
    and parse: "\<And>k d y. (k, d) \<in> set t \<Longrightarrow> p k \<Longrightarrow> f (k, d) = Inr y \<Longrightarrow> k = enc (fst (h y)) \<and> snd (h y) = g d"
  shows "distinct (map fst (map h ys))"
proof -
  have all: "list_all2 (\<lambda>r y. f r = Inr y) (select_rows p t) ys"
    using ys by (simp add: try_collect_Inr_iff)
  have "\<forall>(k, d) \<in> set (select_rows p t). (k, d) \<in> set t \<and> p k" by auto
  with all have "map enc (map fst (map h ys)) = map fst (select_rows p t)"
  proof (induction rule: list_all2_induct)
    case (Cons r rows y ys)
    then show ?case using parse[of "fst r" "snd r" y] by (auto simp: case_prod_unfold prod_eq_iff)
  qed simp
  moreover have "distinct (map fst (select_rows p t))"
    using uniq by (auto simp: unique_keys_def select_rows_def intro: distinct_map_filter)
  ultimately show ?thesis by (metis distinct_map)
qed

text \<open>What the undo logs of a block say of an account and of a slot.\<close>

definition logged_account ::
  "('code, 'b) rollup_text \<Rightarrow> string \<Rightarrow> rollup_db \<Rightarrow> address \<Rightarrow> 'code account_info option option" where
  "logged_account T num db a = map_option (\<lambda>d. the (account_opt_from_json T d))
     (map_of (account_revert_tbl db) (num, address_to_string T a))"

definition logged_slot ::
  "('code, 'b) rollup_text \<Rightarrow> string \<Rightarrow> rollup_db \<Rightarrow> address \<times> b256 \<Rightarrow> u256 option" where
  "logged_slot T num db ak =
     map_option (\<lambda>d. if d = ''destroyed'' then 0 else the (u256_from_str T d))
     (map_of (storage_revert_tbl db) (num, address_to_string T (fst ak), b256_to_string T (snd ak)))"

context rollup_text_ok
begin

lemma account_row_parse:
  assumes "db_ok T db" "((n, addr), d) \<in> set (account_revert_tbl db)"
    "and_then (ok_or (ParseError addr) (address_from_str T addr)) (\<lambda>address.
        and_then (ok_or SerdeError (account_opt_from_json T d)) (\<lambda>info. Inr (address, info))) = Inr y"
  shows "addr = address_to_string T (fst y) \<and> snd y = the (account_opt_from_json T d)"
proof -
  from assms(1,2) obtain a where "addr = address_to_string T a" by (fastforce simp: db_ok_def)
  with assms(3) show ?thesis by (auto simp: address_rt res)
qed

lemma account_rows_lookup:
  assumes ok: "db_ok T db" and A: "account_revert_rows T num db = Inr A"
  shows "map_of (rev A) a = logged_account T num db a"
proof -
  note c = A [unfolded account_revert_rows_def]
  have parse: "k = (\<lambda>a. (num, address_to_string T a)) (fst (id y)) \<and> snd (id y) = the (account_opt_from_json T d)"
    if "(k, d) \<in> set (account_revert_tbl db)" "(\<lambda>(n, _). n = num) k"
      "(\<lambda>((_, addr), data). and_then (ok_or (ParseError addr) (address_from_str T addr)) (\<lambda>address.
        and_then (ok_or SerdeError (account_opt_from_json T data)) (\<lambda>info. Inr (address, info)))) (k, d) = Inr y"
    for k d y
    using account_row_parse[OF ok, of "fst k" "snd k" d y] that by (auto simp: case_prod_unfold prod_eq_iff)
  have "distinct (map fst (map id A))"
    by (rule distinct_parsed_rows [where enc = "\<lambda>a. (num, address_to_string T a)"
        and g = "\<lambda>d. the (account_opt_from_json T d)", OF c db_okD(3)[OF ok] parse])
  then have "map_of (rev A) a = map_of (map id A) a"
    by (simp add: map_of_rev_distinct)
  also have "\<dots> = logged_account T num db a"
    unfolding logged_account_def
    by (subst parsed_rows_lookup [where enc = "\<lambda>a. (num, address_to_string T a)"
        and g = "\<lambda>d. the (account_opt_from_json T d)", OF c _ parse]) (auto simp: inj_def)
  finally show ?thesis .
qed

lemma storage_row_parse:
  assumes "db_ok T db" "((n, addr, key), d) \<in> set (storage_revert_tbl db)"
    "and_then (if d = ''destroyed'' then Inr 0 else ok_or (ParseError d) (u256_from_str T d)) (\<lambda>value.
        and_then (ok_or (ParseError addr) (address_from_str T addr)) (\<lambda>address.
        and_then (ok_or (ParseError key) (b256_from_str T key)) (\<lambda>key. Inr (address, key, value)))) = Inr y"
  shows "addr = address_to_string T (fst y) \<and> key = b256_to_string T (fst (snd y)) \<and>
    snd (snd y) = (if d = ''destroyed'' then 0 else the (u256_from_str T d))"
proof -
  from assms(1,2) obtain a k where "addr = address_to_string T a" "key = b256_to_string T k"
    by (fastforce simp: db_ok_def)
  with assms(3) show ?thesis by (auto simp: address_rt b256_rt res split: if_splits)
qed

lemma storage_rows_lookup:
  assumes ok: "db_ok T db" and S: "storage_revert_rows T num db = Inr S"
  shows "map_of (map (\<lambda>(a, k, v). ((a, k), v)) S) ak = logged_slot T num db ak"
proof -
  note c = S [unfolded storage_revert_rows_def]
  let ?h = "\<lambda>(a, k, v). ((a, k), v)" and ?enc = "\<lambda>(a, k). (num, address_to_string T a, b256_to_string T k)"
  have parse: "k = ?enc (fst (?h y)) \<and> snd (?h y) = (if d = ''destroyed'' then 0 else the (u256_from_str T d))"
    if "(k, d) \<in> set (storage_revert_tbl db)" "(\<lambda>(n, _, _). n = num) k"
      "(\<lambda>((_, addr, key), data).
        and_then (if data = ''destroyed'' then Inr 0 else ok_or (ParseError data) (u256_from_str T data)) (\<lambda>value.
        and_then (ok_or (ParseError addr) (address_from_str T addr)) (\<lambda>address.
        and_then (ok_or (ParseError key) (b256_from_str T key)) (\<lambda>key.
        Inr (address, key, value))))) (k, d) = Inr y"
    for k d y
    using storage_row_parse[OF ok, of "fst k" "fst (snd k)" "snd (snd k)" d y] that
    by (auto simp: case_prod_unfold prod_eq_iff)
  show ?thesis
    unfolding logged_slot_def
    by (subst parsed_rows_lookup [where enc = ?enc and h = ?h
        and g = "\<lambda>d. if d = ''destroyed'' then 0 else the (u256_from_str T d)", OF c _ parse])
      (auto simp: inj_def case_prod_unfold)
qed

end

end
