(* ===== verification/Rollup_Props.thy ===== *)
theory Rollup_Props
  imports Rollup_Rows "HOL-Library.Multiset"
begin

text \<open>
  The properties of the rollup database: what an insertion and a revert do, when they succeed,
  the databases that are reachable, and the cases where a revert does not restore the state.
  Every property holds for any text conversions that satisfy \<open>rollup_text_ok\<close>; the witnesses
  evaluate it on \<open>ref_text\<close>.
\<close>

section \<open>The order of block numbers as texts\<close>

lemma lexorder_append:
  "length xs = length ys \<Longrightarrow> xs @ us < ys @ vs \<longleftrightarrow> xs < ys \<or> xs = ys \<and> us < (vs :: 'a::order list)"
  by (induction xs ys rule: list_induct2) auto

lemma digit_char_less: "d < 10 \<Longrightarrow> e < 10 \<Longrightarrow> digit_char d < digit_char e \<longleftrightarrow> d < e"
  by (simp add: digit_char_def less_char_def)

lemma digit_char_inject: "d < 10 \<Longrightarrow> e < 10 \<Longrightarrow> digit_char d = digit_char e \<longleftrightarrow> d = e"
  by (metis char_digit_digit_char option.inject)

lemma dec_string_rec:
  "dec_string n = (if n < 10 then [] else dec_string (n div 10)) @ [digit_char (n mod 10)]"
  by (subst dec_string.simps) simp

lemma tens: "1 \<le> p \<Longrightarrow> 100 * p - 1 = 10 * (10 * p - 1) + 9 \<and> 1 < 10 * (p :: nat)"
  by linarith

lemma lex10: "b < 10 \<Longrightarrow> d < 10 \<Longrightarrow> a < c \<or> a = c \<and> b < d \<longleftrightarrow> 10 * a + b < 10 * c + (d :: nat)"
  by linarith

lemma dec_string_less_iff:
  "length (dec_string m) = length (dec_string n) \<Longrightarrow> dec_string m < dec_string n \<longleftrightarrow> m < n"
proof (induction m arbitrary: n rule: dec_string.induct)
  case (1 m)
  have len: "length (dec_string k) = (if k < 10 then 1 else Suc (length (dec_string (k div 10))))" for k
    by (subst dec_string_rec) simp
  show ?case
  proof (cases "m < 10")
    case True
    with "1.prems" have "n < 10" by (simp add: len[of m] len[of n] split: if_splits)
    with True show ?thesis
      by (subst dec_string.simps[of m], subst dec_string.simps[of n]) (simp add: digit_char_less)
  next
    case False
    with "1.prems" have n: "\<not> n < 10" by (simp add: len[of m] len[of n] split: if_splits)
    with False "1.prems" have l: "length (dec_string (m div 10)) = length (dec_string (n div 10))"
      by (simp add: len[of m] len[of n])
    have "dec_string m < dec_string n \<longleftrightarrow>
        m div 10 < n div 10 \<or> m div 10 = n div 10 \<and> m mod 10 < n mod 10"
      using False n by (subst dec_string_rec[of m], subst dec_string_rec[of n])
        (simp add: lexorder_append[OF l] "1.IH"[OF False l] digit_char_less)
    also have "\<dots> \<longleftrightarrow> m < n"
      using lex10[of "m mod 10" "n mod 10" "m div 10" "n div 10"] by simp
    finally show ?thesis .
  qed
qed

lemma power10_less: "dec_string (10 ^ Suc k) < dec_string (10 ^ Suc k - 1)"
proof -
  have one: "\<exists>s. dec_string (10 ^ k) = digit_char 1 # s" for k
  proof (induction k)
    case (Suc k)
    then obtain s where "dec_string (10 ^ k) = digit_char 1 # s" by blast
    then show ?case using dec_string_step[of 0 "10 ^ k"] by simp
  qed (simp add: dec_string.simps)
  have nine: "\<exists>s. dec_string (10 ^ Suc k - 1) = digit_char 9 # s" for k
  proof (induction k)
    case (Suc k)
    then obtain s where s: "dec_string (10 ^ Suc k - 1) = digit_char 9 # s" by blast
    have "1 \<le> (10::nat) ^ k" by simp
    then have "(10::nat) ^ Suc (Suc k) - 1 = 10 * (10 ^ Suc k - 1) + 9 \<and> 0 < (10::nat) ^ Suc k - 1"
      using tens[of "10 ^ k"] by simp
    then show ?case using dec_string_step[of 9 "10 ^ Suc k - 1"] s by simp
  qed (simp add: dec_string.simps)
  obtain s t where "dec_string (10 ^ Suc k) = digit_char 1 # s" "dec_string (10 ^ Suc k - 1) = digit_char 9 # t"
    using one nine by metis
  then show ?thesis by (simp add: digit_char_less)
qed

section \<open>When the operations succeed\<close>

context rollup_text_ok
begin

lemma small_number_text: "n < 2 ^ 64 \<Longrightarrow> u256_to_string T (word_of_nat n) = dec_string n"
  by (simp add: u256_decimal unat_of_nat)

lemma tip_text:
  assumes "db_ok T db" "select_tip (block_tbl db) = Inr d"
  obtains m :: u64 where "d = dec_string (unat m)" "u256_from_str T d = Some (ucast m)"
proof -
  have "d = Max (set (map fst (block_tbl db)))" "block_tbl db \<noteq> []"
    using assms(2) by (auto simp: select_tip_def split: if_splits)
  then have "d \<in> set (map fst (block_tbl db))" using Max_in by fastforce
  then obtain m :: u64 where m: "d = dec_string (unat m)" using assms(1) by (fastforce simp: db_ok_def)
  moreover have "u256_from_str T d = Some (ucast m)" using u256_rt[of "ucast m"] by (simp add: number_text m)
  ultimately show thesis by (rule that)
qed

lemma revert_body_cases:
  assumes ok: "db_ok T db"
  shows "if block_tbl db \<noteq> [] \<and> Max (set (map fst (block_tbl db))) = u256_to_string T n
    then \<exists>db'. revert_tip_body T n db = Inr db' \<and> db_ok T db' \<and>
      block_tbl db' = delete_rows (\<lambda>k. k = u256_to_string T n) (block_tbl db) \<and>
      account_revert_tbl db' = account_revert_tbl db \<and> storage_revert_tbl db' = storage_revert_tbl db \<and>
      bytecode_tbl db' = bytecode_tbl db \<and>
      (\<forall>a. acct_view T db' a = (case logged_account T (u256_to_string T n) db a of
         None \<Rightarrow> acct_view T db a | Some oa \<Rightarrow> map_option account_key oa)) \<and>
      (\<forall>ak. slot_value T db' ak = (case logged_slot T (u256_to_string T n) db ak of
         None \<Rightarrow> slot_value T db ak | Some v \<Rightarrow> v))
    else revert_tip_body T n db = Inl (if block_tbl db = [] then QueryReturnedNoRows
      else Eyre ''Reverts can only be done from the tip'')"
proof (cases "block_tbl db \<noteq> [] \<and> Max (set (map fst (block_tbl db))) = u256_to_string T n")
  case True
  then have tip: "select_tip (block_tbl db) = Inr (u256_to_string T n)" by (simp add: select_tip_def)
  obtain A S where A: "account_revert_rows T (u256_to_string T n) db = Inr A"
    and S: "storage_revert_rows T (u256_to_string T n) db = Inr S"
    using account_revert_rows_total[OF ok] storage_revert_rows_total[OF ok] by blast
  from revert_tip_body_ok[OF ok tip A S, unfolded account_rows_lookup[OF ok A] storage_rows_lookup[OF ok S]]
  obtain db' where db': "revert_tip_body T n db = Inr db'" "db_ok T db'"
    "block_tbl db' = delete_rows (\<lambda>k. k = u256_to_string T n) (block_tbl db)"
    "account_revert_tbl db' = account_revert_tbl db" "storage_revert_tbl db' = storage_revert_tbl db"
    "bytecode_tbl db' = bytecode_tbl db"
    "\<forall>a. acct_view T db' a = (case logged_account T (u256_to_string T n) db a of
       None \<Rightarrow> acct_view T db a | Some oa \<Rightarrow> map_option account_key oa)"
    "\<And>ak. slot_view T db' ak = (case logged_slot T (u256_to_string T n) db ak of
       None \<Rightarrow> slot_view T db ak | Some v \<Rightarrow> nonzero v)" by blast
  have "slot_value T db' ak = (case logged_slot T (u256_to_string T n) db ak of
       None \<Rightarrow> slot_value T db ak | Some v \<Rightarrow> v)" for ak
    using db'(8)[of ak] by (simp add: slot_value_def split: option.splits)
  with db' True show ?thesis by simp
next
  case False
  show ?thesis
  proof (cases "block_tbl db = []")
    case True
    then show ?thesis by (simp add: revert_tip_body_def select_tip_def)
  next
    case ne: False
    then obtain d where d: "select_tip (block_tbl db) = Inr d" "d = Max (set (map fst (block_tbl db)))"
      by (simp add: select_tip_def)
    from tip_text[OF ok d(1)] obtain m :: u64 where
      "d = dec_string (unat m)" "u256_from_str T d = Some (ucast m)" by blast
    moreover from this have "n \<noteq> ucast m" using False ne d(2) number_text[of m] by auto
    ultimately show ?thesis using False ne d(1) by (auto simp: revert_tip_body_def)
  qed
qed

lemma insert_body_cases:
  assumes ok: "db_ok T db" and plain: "to_plain bundle = (cs, rv)"
  shows "if dec_string (unat (block_number T block)) \<in> fst ` set (block_tbl db)
    then insert_block_body T to_plain block bundle db = Inl (UniqueViolation ''block'')
    else if 1 < length (rv_accounts rv)
    then insert_block_body T to_plain block bundle db = Inl (Eyre ''too many blocks in account reverts'')
    else if 1 < length (rv_storage rv)
    then insert_block_body T to_plain block bundle db = Inl (Eyre ''too many blocks in storage reverts'')
    else \<exists>db'. insert_block_body T to_plain block bundle db = Inr db' \<and> db_ok T db' \<and>
      block_tbl db' = block_tbl db @ [(dec_string (unat (block_number T block)), the (block_to_json T block))] \<and>
      acct_view T db' = apply_accounts (ch_accounts cs) (acct_view T db) \<and>
      slot_view T db' = fold (apply_changeset T) (ch_storage cs) (slot_view T db)"
proof -
  obtain j where j: "block_to_json T block = Some j" using block_rt by blast
  consider (dup) "dec_string (unat (block_number T block)) \<in> fst ` set (block_tbl db)"
    | (accts) "dec_string (unat (block_number T block)) \<notin> fst ` set (block_tbl db)" "1 < length (rv_accounts rv)"
    | (slots) "dec_string (unat (block_number T block)) \<notin> fst ` set (block_tbl db)"
        "length (rv_accounts rv) \<le> 1" "1 < length (rv_storage rv)"
    | (ok) "dec_string (unat (block_number T block)) \<notin> fst ` set (block_tbl db)"
        "length (rv_accounts rv) \<le> 1" "length (rv_storage rv) \<le> 1" by linarith
  then show ?thesis
  proof cases
    case dup
    then show ?thesis by (simp add: insert_block_body_def j insert_row_fails Let_def)
  next
    case accts
    then show ?thesis
      by (simp add: insert_block_body_def j Let_def plain write_accounts_eq insert_row_Inr_iff[THEN iffD2])
  next
    case slots
    have "\<exists>tx. (case rv_accounts rv of [] \<Rightarrow> Inr tx0 | rs # _ \<Rightarrow> write_account_reverts T num rs tx0) = Inr tx" for tx0 num
      by (cases "rv_accounts rv") (auto simp: write_account_reverts_eq)
    then obtain tx where tx: "(case rv_accounts rv of [] \<Rightarrow> Inr tx0 | rs # _ \<Rightarrow> write_account_reverts T num rs tx0)
      = Inr (tx tx0 num)" for tx0 num by metis
    from slots show ?thesis
      by (simp add: insert_block_body_def j Let_def plain write_accounts_eq insert_row_Inr_iff[THEN iffD2] tx)
  next
    case ok
    then show ?thesis
      using insert_block_body_ok [where to_plain = to_plain, OF assms(1) refl _ plain] by (auto simp: not_less)
  qed
qed

end


section \<open>The reachable databases\<close>

text \<open>
  A new database, and then the calls the rollup makes on it, whether they fail or not (an
  insertion or revert that fails rolls back; a failed upsert writes nothing).
\<close>

inductive rollup_reachable ::
  "('code, 'b) rollup_text \<Rightarrow> ('bundle \<Rightarrow> 'code plain_changeset \<times> 'code plain_reverts) \<Rightarrow> rollup_db \<Rightarrow> bool"
  for T to_plain where
  new_database: "rollup_reachable T to_plain create_tables"
| inserted: "rollup_reachable T to_plain db \<Longrightarrow>
    insert_block_with_bundle T to_plain db block b = (r, db') \<Longrightarrow> rollup_reachable T to_plain db'"
| reverted: "rollup_reachable T to_plain db \<Longrightarrow>
    revert_tip_block T db n = (r, db') \<Longrightarrow> rollup_reachable T to_plain db'"
| upserted: "rollup_reachable T to_plain db \<Longrightarrow>
    upsert_account T db a f = Inr db' \<Longrightarrow> rollup_reachable T to_plain db'"

context rollup_text_ok
begin

lemma db_ok_insert:
  assumes "db_ok T db" "insert_block_with_bundle T to_plain db block b = (r, db')"
  shows "db_ok T db'"
proof -
  obtain cs rv where plain: "to_plain b = (cs, rv)" by (cases "to_plain b")
  from insert_body_cases [where to_plain = to_plain, OF assms(1) plain, of block] assms show ?thesis
    by (auto simp: insert_block_with_bundle_def split: if_splits)
qed

lemma db_ok_revert:
  assumes "db_ok T db" "revert_tip_block T db n = (r, db')"
  shows "db_ok T db'"
  using revert_body_cases[OF assms(1), of n] assms
  by (auto simp: revert_tip_block_def split: if_splits)

lemma db_ok_upsert:
  assumes "db_ok T db" "upsert_account T db a f = Inr db'"
  shows "db_ok T db'"
  using assms by (auto simp: upsert_account_def put_account_eq res db_ok_account_put)

lemma reachable_ok: "rollup_reachable T to_plain db \<Longrightarrow> db_ok T db"
  by (induction rule: rollup_reachable.induct)
    (auto simp: create_tables_ok intro: db_ok_insert db_ok_revert db_ok_upsert)

end

section \<open>States a revert does not restore\<close>

lemma map_of_upsert_rows: "map_of (upsert_rows kvs t) = map_of t ++ map_of (rev kvs)"
  by (induction kvs arbitrary: t) (auto simp: map_add_def fun_eq_iff split: option.splits)

context rollup_text_ok
begin

text \<open>The tip after an insertion whose number sorts last, and the outcome of its revert.\<close>

lemma revert_new_tip:
  assumes "db_ok T db1" "block_tbl db1 = block_tbl db @ [(num, j)]"
    "num = dec_string (unat (m :: u64))" "\<forall>k \<in> fst ` set (block_tbl db). k < num"
  obtains db2 where "revert_tip_block T db1 (ucast m) = (Inr (), db2)" "db_ok T db2"
    "\<And>a. acct_view T db2 a = (case logged_account T num db1 a of
       None \<Rightarrow> acct_view T db1 a | Some oa \<Rightarrow> map_option account_key oa)"
    "\<And>ak. slot_value T db2 ak = (case logged_slot T num db1 ak of
       None \<Rightarrow> slot_value T db1 ak | Some v \<Rightarrow> v)"
proof -
  have "select_tip (block_tbl db1) = Inr num"
    using select_tip_new[OF assms(4)] assms(2) by simp
  then have max: "block_tbl db1 \<noteq> [] \<and> Max (set (map fst (block_tbl db1))) = u256_to_string T (ucast m)"
    by (auto simp: select_tip_def number_text assms(3) split: if_splits)
  from revert_body_cases[OF assms(1), of "ucast m", unfolded if_P[OF max]] obtain db2 where
    "revert_tip_body T (ucast m) db1 = Inr db2" "db_ok T db2"
    "\<forall>a. acct_view T db2 a = (case logged_account T num db1 a of
       None \<Rightarrow> acct_view T db1 a | Some oa \<Rightarrow> map_option account_key oa)"
    "\<forall>ak. slot_value T db2 ak = (case logged_slot T num db1 ak of
       None \<Rightarrow> slot_value T db1 ak | Some v \<Rightarrow> v)"
    by (auto simp: number_text assms(3))
  then show thesis by (intro that[of db2]) (auto simp: revert_tip_block_def)
qed

lemma stale_account_row:
  assumes ok: "db_ok T db" and plain: "to_plain b = (cs, rv)"
    and one: "length (rv_accounts rv) \<le> 1" "length (rv_storage rv) \<le> 1"
    and tip: "\<forall>k \<in> fst ` set (block_tbl db). k < dec_string (unat (block_number T block))"
    and stale: "logged_account T (dec_string (unat (block_number T block))) db a = Some oa"
    and untouched: "a \<notin> fst ` set (concat (rv_accounts rv))"
  shows "\<exists>db1 db2. insert_block_with_bundle T to_plain db block b = (Inr (), db1) \<and>
    revert_tip_block T db1 (ucast (block_number T block)) = (Inr (), db2) \<and>
    acct_view T db2 a = map_option account_key oa"
proof -
  let ?num = "dec_string (unat (block_number T block))"
  have new: "?num \<notin> fst ` set (block_tbl db)" using tip by (metis less_irrefl)
  from insert_block_body_ok [where to_plain = to_plain, OF ok refl new plain one] obtain db1 where db1:
    "insert_block_body T to_plain block b db = Inr db1" "db_ok T db1"
    "block_tbl db1 = block_tbl db @ [(?num, the (block_to_json T block))]"
    "account_revert_tbl db1 = upsert_rows (map (account_revert_row T ?num) (concat (rv_accounts rv))) (account_revert_tbl db)"
    by (elim exE conjE) (rule that)
  have "(?num, address_to_string T a) \<notin> fst ` set (map (account_revert_row T ?num) (concat (rv_accounts rv)))"
    using untouched unfolding account_revert_row_def by (force simp del: set_concat)
  then have "map_of (rev (map (account_revert_row T ?num) (concat (rv_accounts rv)))) (?num, address_to_string T a) = None"
    by (metis map_of_eq_None_iff set_rev)
  then have "logged_account T ?num db1 a = Some oa"
    using stale by (simp add: logged_account_def db1(4) map_of_upsert_rows map_add_def)
  moreover from revert_new_tip[OF db1(2,3) refl tip] obtain db2 where
    "revert_tip_block T db1 (ucast (block_number T block)) = (Inr (), db2)"
    "acct_view T db2 a = (case logged_account T ?num db1 a of
       None \<Rightarrow> acct_view T db1 a | Some oa \<Rightarrow> map_option account_key oa)" by metis
  ultimately show ?thesis
    using db1(1) by (auto simp: insert_block_with_bundle_def)
qed

lemma wiped_slot:
  assumes ok: "db_ok T db" and plain: "to_plain b = (cs, rv)"
    and wipe: "ch_storage cs = [\<lparr>cs_address = a, cs_wipe_storage = True, cs_storage = []\<rparr>]"
    and logs: "length (rv_accounts rv) \<le> 1"
      "rv_storage rv = [[\<lparr>sr_address = a, sr_wiped = True, sr_storage_revert = named\<rparr>]]"
    and tip: "\<forall>k \<in> fst ` set (block_tbl db). k < dec_string (unat (block_number T block))"
    and fresh: "no_logs_for (dec_string (unat (block_number T block))) db"
    and unnamed: "k \<notin> b256_from_u256 T ` fst ` set named"
  shows "\<exists>db1 db2. insert_block_with_bundle T to_plain db block b = (Inr (), db1) \<and>
    revert_tip_block T db1 (ucast (block_number T block)) = (Inr (), db2) \<and>
    slot_value T db2 (a, k) = 0"
proof -
  let ?num = "dec_string (unat (block_number T block))"
  have new: "?num \<notin> fst ` set (block_tbl db)" using tip by (metis less_irrefl)
  have one: "length (rv_storage rv) \<le> 1" by (simp add: logs)
  from insert_block_body_ok [where to_plain = to_plain, OF ok refl new plain logs(1) one, unfolded wipe fold_simps]
  obtain db1 where db1:
    "insert_block_body T to_plain block b db = Inr db1" "db_ok T db1"
    "block_tbl db1 = block_tbl db @ [(?num, the (block_to_json T block))]"
    "slot_view T db1 = apply_changeset T \<lparr>cs_address = a, cs_wipe_storage = True, cs_storage = []\<rparr> (slot_view T db)"
    and tbl: "own_slots_only (slot_view T db1) (concat (rv_storage rv)) \<longrightarrow> storage_revert_tbl db1 = upsert_rows
       (map (\<lambda>(a, k, s). storage_revert_row T ?num a (k, s)) (concat (map (revert_slots T) (concat (rv_storage rv)))))
       (storage_revert_tbl db)"
    by (elim exE conjE) (rule that)
  have gone: "slot_view T db1 (a, k) = None" for k by (simp add: db1(4) apply_changeset_def)
  define rows where "rows = map (\<lambda>(a, k, s). storage_revert_row T ?num a (k, s)) (concat (map (revert_slots T) (concat (rv_storage rv))))"
  have tbl': "storage_revert_tbl db1 = upsert_rows rows (storage_revert_tbl db)"
    using tbl gone by (simp add: logs rows_def)
  have "(?num, address_to_string T a, b256_to_string T k) \<notin> fst ` set rows"
    using unnamed by (auto simp: rows_def logs revert_slots_def storage_revert_row_def rev_image_eqI)
  then have "map_of (rev rows) (?num, address_to_string T a, b256_to_string T k) = None"
    by (metis map_of_eq_None_iff set_rev)
  moreover have "map_of (storage_revert_tbl db) (?num, address_to_string T a, b256_to_string T k) = None"
    using fresh by (auto simp: no_logs_for_def map_of_eq_None_iff)
  ultimately have "logged_slot T ?num db1 (a, k) = None"
    by (simp add: logged_slot_def tbl' map_of_upsert_rows map_add_def)
  moreover from revert_new_tip[OF db1(2,3) refl tip] obtain db2 where
    "revert_tip_block T db1 (ucast (block_number T block)) = (Inr (), db2)"
    "slot_value T db2 (a, k) = (case logged_slot T ?num db1 (a, k) of
       None \<Rightarrow> slot_value T db1 (a, k) | Some v \<Rightarrow> v)" by metis
  ultimately show ?thesis
    using db1(1) gone by (auto simp: insert_block_with_bundle_def slot_value_def)
qed

lemma write_accounts_order:
  assumes "distinct (map fst xs)" "mset xs = mset ys"
  shows "acct_view T (fold (write_account T) ys tx) = acct_view T (fold (write_account T) xs tx)"
proof -
  have "distinct (map fst ys)" using assms by (metis mset_eq_imp_distinct_iff mset_map)
  moreover have "set ys = set xs" using assms(2) by (metis set_mset_mset)
  ultimately show ?thesis using accts.write_all_perm[OF assms(1), of ys tx] by blast
qed

end

section \<open>Data for the witnesses\<close>

definition demo_account :: "u256 \<Rightarrow> string account_info" where
  "demo_account b = \<lparr>balance = b, nonce = 0, code_hash = 0, code = None, account_id = None\<rparr>"

text \<open>Block 4 is stored and account 1 holds 5; block 5 changes it to 9 and sets its slot 2 to 7.\<close>

definition demo_db :: rollup_db where
  "demo_db = account_put ref_text 1 (demo_account 5)
     (create_tables\<lparr>block_tbl := [(dec_string (unat (4 :: u64)), dec_string (unat (4 :: u64)))]\<rparr>)"

definition demo_bundle :: "string plain_changeset \<times> string plain_reverts" where
  "demo_bundle =
    (\<lparr>ch_accounts = [(1, Some (demo_account 9))],
      ch_storage = [\<lparr>cs_address = 1, cs_wipe_storage = False, cs_storage = [(2, 7)]\<rparr>],
      ch_contracts = []\<rparr>,
     \<lparr>rv_accounts = [[(1, Some (demo_account 5))]],
      rv_storage = [[\<lparr>sr_address = 1, sr_wiped = False, sr_storage_revert = [(2, SlotDestroyed)]\<rparr>]]\<rparr>)"

lemma block_from_json_ref [simp]: "block_from_json ref_text (dec_string n) = Some (word_of_nat n)"
  by (simp add: ref_text_def)

lemma four_before_five [simp]: "dec_string 4 < dec_string 5"
  by (simp add: dec_string.simps digit_char_def less_char_def)

lemma demo_db_ok: "db_ok ref_text demo_db"
  unfolding demo_db_def
  by (rule ref.db_ok_account_put)
    (auto simp: db_ok_def create_tables_def unique_keys_def intro: rev_image_eqI[of "4 :: u64"])

lemma demo_db_tables [simp]:
  "block_tbl demo_db = [(dec_string 4, dec_string 4)]" "storage_tbl demo_db = []"
  "account_revert_tbl demo_db = []" "storage_revert_tbl demo_db = []"
  by (simp_all add: demo_db_def account_put_def create_tables_def)

lemma demo_views [simp]:
  "acct_view ref_text demo_db 1 = Some (5, 0, 0)" "slot_view ref_text demo_db ak = None"
  by (simp_all add: demo_db_def ref.acct_view_put account_key_def demo_account_def)
    (simp add: slot_view_def get_storage_def query_row_def create_tables_def)

lemma ref_text_fields [simp]: "b256_from_u256 ref_text k = k" "block_number ref_text b = b"
  by (simp_all add: ref_text_def)

section \<open>Properties\<close>

text \<open>
  Property C1. Inserting a block and then reverting it is the identity on what the rollup's
  database stores: the accounts (on the fields revm compares), the storage slots as the EVM reads
  them, and the blocks. It needs revm's plain reverts to describe the state before the block, no
  wiped storage, a number whose text sorts after those of the stored blocks, and undo logs that
  hold nothing for that number yet.
\<close>

theorem insert_revert_roundtrip:
  assumes laws: "rollup_text_ok T" and ok: "db_ok T db" and plain: "to_plain b = (cs, rv)"
    and faithful: "faithful_reverts T db cs rv" and wipes: "no_wipes cs rv"
    and tip: "\<forall>k \<in> fst ` set (block_tbl db). k < dec_string (unat (block_number T block))"
    and fresh: "no_logs_for (dec_string (unat (block_number T block))) db"
  shows "\<exists>db1 db2. insert_block_with_bundle T to_plain db block b = (Inr (), db1) \<and>
    get_block T db1 (ucast (block_number T block)) = Inr (Some block) \<and>
    revert_tip_block T db1 (ucast (block_number T block)) = (Inr (), db2) \<and>
    db_ok T db2 \<and> block_tbl db2 = block_tbl db \<and> acct_view T db2 = acct_view T db \<and>
    slot_value T db2 = slot_value T db"
  by (rule rollup_text_ok.insert_then_revert [where to_plain = to_plain, OF assms])

theorem insert_revert_roundtrip_witness:
  "\<exists>db1 db2. insert_block_with_bundle ref_text (\<lambda>b. b) demo_db 5 demo_bundle = (Inr (), db1) \<and>
    get_block ref_text db1 5 = Inr (Some 5) \<and>
    revert_tip_block ref_text db1 5 = (Inr (), db2) \<and>
    db_ok ref_text db2 \<and> block_tbl db2 = block_tbl demo_db \<and>
    acct_view ref_text db2 = acct_view ref_text demo_db \<and>
    slot_value ref_text db2 = slot_value ref_text demo_db"
proof -
  have f: "faithful_reverts ref_text demo_db (fst demo_bundle) (snd demo_bundle)"
    by (simp add: faithful_reverts_def demo_bundle_def revert_slots_def slot_revert_value_def slot_value_def
        account_key_def demo_account_def)
  have w: "no_wipes (fst demo_bundle) (snd demo_bundle)"
    by (simp add: no_wipes_def demo_bundle_def)
  show ?thesis
    using insert_revert_roundtrip [where to_plain = "\<lambda>b. b" and block = 5,
        OF ref.rollup_text_ok_axioms demo_db_ok surjective_pairing f w]
    by (simp add: no_logs_for_def)
qed

text \<open>When a revert succeeds.\<close>

lemma revert_tip_block_result:
  assumes "rollup_text_ok T" "db_ok T db"
  shows "if block_tbl db \<noteq> [] \<and> Max (set (map fst (block_tbl db))) = u256_to_string T n
    then fst (revert_tip_block T db n) = Inr ()
    else revert_tip_block T db n = (Inl (if block_tbl db = [] then QueryReturnedNoRows
      else Eyre ''Reverts can only be done from the tip''), db)"
  using rollup_text_ok.revert_body_cases[OF assms, of n]
  by (auto simp: revert_tip_block_def split: if_splits)

text \<open>
  Property C5. \<open>revert_tip_block\<close> on a well-formed database: it succeeds exactly when the number's
  text is the largest of the stored block numbers in text order; then the block's row is deleted,
  every account and slot that the block's undo rows name gets the content they record (a destroyed
  slot reads as zero), nothing else changes, and the undo rows stay. Otherwise it reports the
  error and the database is unchanged.
\<close>

theorem revert_tip_block_spec:
  assumes "rollup_text_ok T" "db_ok T db"
  shows "if block_tbl db \<noteq> [] \<and> Max (set (map fst (block_tbl db))) = u256_to_string T n
    then \<exists>db'. revert_tip_block T db n = (Inr (), db') \<and> db_ok T db' \<and>
      block_tbl db' = delete_rows (\<lambda>k. k = u256_to_string T n) (block_tbl db) \<and>
      account_revert_tbl db' = account_revert_tbl db \<and> storage_revert_tbl db' = storage_revert_tbl db \<and>
      bytecode_tbl db' = bytecode_tbl db \<and>
      (\<forall>a. acct_view T db' a = (case logged_account T (u256_to_string T n) db a of
         None \<Rightarrow> acct_view T db a | Some oa \<Rightarrow> map_option account_key oa)) \<and>
      (\<forall>ak. slot_value T db' ak = (case logged_slot T (u256_to_string T n) db ak of
         None \<Rightarrow> slot_value T db ak | Some v \<Rightarrow> v))
    else revert_tip_block T db n = (Inl (if block_tbl db = [] then QueryReturnedNoRows
      else Eyre ''Reverts can only be done from the tip''), db)"
  using rollup_text_ok.revert_body_cases[OF assms, of n]
  by (auto simp: revert_tip_block_def split: if_splits)

theorem revert_tip_block_spec_witness:
  "\<exists>db'. revert_tip_block ref_text demo_db 4 = (Inr (), db') \<and> block_tbl db' = [] \<and>
    acct_view ref_text db' 1 = Some (5, 0, 0)"
  using revert_tip_block_spec[OF ref.rollup_text_ok_axioms demo_db_ok, of 4]
  by (auto simp: ref.u256_decimal logged_account_def delete_rows_def)

text \<open>
  Property C6. \<open>insert_block_with_bundle\<close> on a well-formed database refines the update of two
  maps: a number that is already stored, or reverts of more than one block, are refused and the
  database is unchanged; otherwise the block's row is added, the accounts change by the account
  changes and the slots by the storage changesets in order, wipes first.
\<close>

theorem insert_block_spec:
  assumes "rollup_text_ok T" "db_ok T db" "to_plain b = (cs, rv)"
  shows "if dec_string (unat (block_number T block)) \<in> fst ` set (block_tbl db)
    then insert_block_with_bundle T to_plain db block b = (Inl (UniqueViolation ''block''), db)
    else if 1 < length (rv_accounts rv)
    then insert_block_with_bundle T to_plain db block b = (Inl (Eyre ''too many blocks in account reverts''), db)
    else if 1 < length (rv_storage rv)
    then insert_block_with_bundle T to_plain db block b = (Inl (Eyre ''too many blocks in storage reverts''), db)
    else \<exists>db'. insert_block_with_bundle T to_plain db block b = (Inr (), db') \<and> db_ok T db' \<and>
      block_tbl db' = block_tbl db @ [(dec_string (unat (block_number T block)), the (block_to_json T block))] \<and>
      acct_view T db' = apply_accounts (ch_accounts cs) (acct_view T db) \<and>
      slot_view T db' = fold (apply_changeset T) (ch_storage cs) (slot_view T db)"
  using rollup_text_ok.insert_body_cases [where to_plain = to_plain, OF assms, of block]
  by (auto simp: insert_block_with_bundle_def split: if_splits)

theorem insert_block_spec_witness:
  "(\<exists>db'. insert_block_with_bundle ref_text (\<lambda>b. b) demo_db 5 demo_bundle = (Inr (), db') \<and>
      acct_view ref_text db' 1 = Some (9, 0, 0) \<and> slot_view ref_text db' (1, 2) = Some 7) \<and>
   insert_block_with_bundle ref_text (\<lambda>b. b) demo_db 4 demo_bundle = (Inl (UniqueViolation ''block''), demo_db)"
  using insert_block_spec [where to_plain = "\<lambda>b. b" and block = 5,
      OF ref.rollup_text_ok_axioms demo_db_ok surjective_pairing [of demo_bundle]]
    insert_block_spec [where to_plain = "\<lambda>b. b" and block = 4,
      OF ref.rollup_text_ok_axioms demo_db_ok surjective_pairing [of demo_bundle]]
  by (auto simp: demo_bundle_def apply_accounts_def apply_changeset_def account_key_def demo_account_def)

text \<open>
  Property C8. Every database the rollup can reach, by any sequence of insertions, reverts and
  account upserts from a new one, failed calls included, is well formed: the UNIQUE constraints
  hold and every column parses, so none of the getters and row parsers fails on it.
\<close>

theorem reachable_db_ok:
  assumes "rollup_text_ok T" "rollup_reachable T to_plain db"
  shows "db_ok T db \<and> (\<forall>a. \<exists>oacc. get_account T db a = Inr oacc) \<and>
    (\<forall>a i. \<exists>v. db_storage T db a i = Inr v) \<and> (\<forall>a. \<exists>kvs. get_storages T db a = Inr kvs)"
proof -
  have ok: "db_ok T db" by (rule rollup_text_ok.reachable_ok [OF assms])
  moreover have "\<exists>v. db_storage T db a i = Inr v" for a i
  proof -
    obtain ov where "get_storage T db a (b256_from_u256 T i) = Inr ov" using get_storage_ok[OF ok] by metis
    then show ?thesis by (simp add: db_storage_def)
  qed
  moreover have "\<exists>oacc. get_account T db a = Inr oacc" for a using get_account_ok[OF ok] by metis
  ultimately show ?thesis using rollup_text_ok.get_storages_total[OF assms(1) ok] by blast
qed

theorem reachable_db_ok_witness:
  "db_ok ref_text (snd (insert_block_with_bundle ref_text (\<lambda>b. b) create_tables 5 demo_bundle))"
proof -
  have "rollup_reachable ref_text (\<lambda>b. b) (snd (insert_block_with_bundle ref_text (\<lambda>b. b) create_tables 5 demo_bundle))"
    by (rule rollup_reachable.inserted [OF rollup_reachable.new_database surjective_pairing])
  from reachable_db_ok [OF ref.rollup_text_ok_axioms this] show ?thesis by blast
qed

text \<open>
  The tip is the tip only among numbers of the same length: when the stored numbers
  all have as many decimal digits as the highest one, that block can be reverted.
\<close>

lemma revert_highest_same_digits:
  assumes "rollup_text_ok T" "db_ok T db" "block_tbl db \<noteq> []"
    and rows: "set (map fst (block_tbl db)) = dec_string ` N" "m \<in> N" "\<forall>n \<in> N. n \<le> m"
    and digits: "\<forall>n \<in> N. length (dec_string n) = length (dec_string m)" and u: "m < 2 ^ 64"
  shows "fst (revert_tip_block T db (word_of_nat m)) = Inr ()"
proof -
  have "Max (set (map fst (block_tbl db))) = dec_string m"
  proof (rule Max_eqI)
    fix k assume "k \<in> set (map fst (block_tbl db))"
    then obtain n where n: "n \<in> N" "k = dec_string n" using rows(1) by auto
    then show "k \<le> dec_string m"
      using rows(3) digits dec_string_less_iff[of m n] by (metis leD leI)
  next
    have "finite (set (map fst (block_tbl db)))" by simp
    then show "finite (set (map fst (block_tbl db)))" .
  qed (use rows in auto)
  moreover have "u256_to_string T (word_of_nat m) = dec_string m"
    by (rule rollup_text_ok.small_number_text[OF assms(1) u])
  ultimately show ?thesis
    using revert_tip_block_result[OF assms(1,2), of "word_of_nat m"] assms(3) by auto
qed

lemma revert_highest_same_digits_witness:
  "fst (revert_tip_block ref_text demo_db (word_of_nat 4)) = Inr ()"
  by (rule revert_highest_same_digits [OF ref.rollup_text_ok_axioms demo_db_ok, of "{4}"]) auto

text \<open>
  Property C37. The number column is text, so a block that adds a digit is not seen as the tip:
  with blocks \<open>10 ^ k - 1\<close> and \<open>10 ^ k\<close> stored (any \<open>k\<close> of at least one), the block \<open>10 ^ k\<close>
  cannot be reverted, in whichever database it is the highest block. The revert reports that it is
  not the tip and leaves the database as it was.
\<close>

theorem revert_of_power_of_ten_refused:
  assumes "rollup_text_ok T" "db_ok T db"
    and "dec_string (10 ^ Suc k - 1) \<in> fst ` set (block_tbl db)" and u: "10 ^ Suc k < (2::nat) ^ 64"
  shows "revert_tip_block T db (word_of_nat (10 ^ Suc k)) =
    (Inl (Eyre ''Reverts can only be done from the tip''), db)"
proof -
  define p :: nat where "p = 10 ^ Suc k"
  have "dec_string (p - 1) \<le> Max (set (map fst (block_tbl db)))"
    using assms(3) by (intro Max_ge) (auto simp: p_def)
  with power10_less[of k] have "dec_string p < Max (set (map fst (block_tbl db)))"
    unfolding p_def by (rule less_le_trans)
  moreover have "u256_to_string T (word_of_nat p) = dec_string p"
    using u unfolding p_def by (rule rollup_text_ok.small_number_text[OF assms(1)])
  moreover have "block_tbl db \<noteq> []" using assms(3) by auto
  ultimately show ?thesis
    using revert_tip_block_result[OF assms(1,2), of "word_of_nat p"] unfolding p_def [symmetric] by auto
qed

text \<open>Blocks 9 and 10.\<close>

lemma digit_chars: "digit_char 9 = CHR ''9''" "digit_char 0 = CHR ''0''" "digit_char 1 = CHR ''1''"
  "digit_char (Suc 0) = CHR ''1''"
  by code_simp+

definition nine_ten_db :: rollup_db where
  "nine_ten_db = create_tables\<lparr>block_tbl := [(''9'', ''9''), (''10'', ''10'')]\<rparr>"

lemma nine_ten_db_ok: "db_ok ref_text nine_ten_db"
proof -
  have "''9'' = dec_string (unat (9 :: u64))" "''10'' = dec_string (unat (10 :: u64))"
    by (simp_all add: dec_string.simps digit_chars)
  then show ?thesis
    by (auto simp: db_ok_def nine_ten_db_def create_tables_def unique_keys_def
        intro: rev_image_eqI[of "9 :: u64"] rev_image_eqI[of "10 :: u64"])
qed

theorem revert_of_power_of_ten_refused_witness:
  "revert_tip_block ref_text nine_ten_db (word_of_nat (10 ^ Suc 0)) =
    (Inl (Eyre ''Reverts can only be done from the tip''), nine_ten_db)"
  by (rule revert_of_power_of_ten_refused [OF ref.rollup_text_ok_axioms nine_ten_db_ok])
    (simp_all add: nine_ten_db_def dec_string.simps digit_chars)


text \<open>
  Property C39. The undo rows of a reverted block stay in the database and are replayed: when the
  undo log still has a row for an account under the number of a new tip block that does not touch
  that account, inserting and reverting the new block sets the account to what the old row
  records, whatever the account holds (a deposit made in between is lost).
\<close>

theorem stale_undo_replayed:
  assumes "rollup_text_ok T" "db_ok T db" "to_plain b = (cs, rv)"
    "length (rv_accounts rv) \<le> 1" "length (rv_storage rv) \<le> 1"
    "\<forall>k \<in> fst ` set (block_tbl db). k < dec_string (unat (block_number T block))"
    "logged_account T (dec_string (unat (block_number T block))) db a = Some oa"
    "a \<notin> fst ` set (concat (rv_accounts rv))"
  shows "\<exists>db1 db2. insert_block_with_bundle T to_plain db block b = (Inr (), db1) \<and>
    revert_tip_block T db1 (ucast (block_number T block)) = (Inr (), db2) \<and>
    acct_view T db2 a = map_option account_key oa"
  by (rule rollup_text_ok.stale_account_row [where to_plain = to_plain, OF assms])

text \<open>
  Block 5 was inserted and reverted, which left account 1 with 5, and then 4 was deposited; the
  new block 5 is empty.
\<close>

definition stale_db :: rollup_db where
  "stale_db = account_put ref_text 1 (demo_account 9)
     (demo_db\<lparr>account_revert_tbl := upsert_row (dec_string 5, address_to_string ref_text 1)
        (the (account_opt_to_json ref_text (Some (demo_account 5)))) (account_revert_tbl demo_db)\<rparr>)"

lemma stale_db_ok: "db_ok ref_text stale_db"
  unfolding stale_db_def
  by (rule ref.db_ok_account_put, rule db_ok_account_revert [OF demo_db_ok]) (simp add: ref_text_def)

theorem stale_undo_replayed_witness:
  "acct_view ref_text stale_db 1 = Some (9, 0, 0) \<and>
   (\<exists>db1 db2. insert_block_with_bundle ref_text (\<lambda>_. (\<lparr>ch_accounts = [], ch_storage = [], ch_contracts = []\<rparr>,
        \<lparr>rv_accounts = [], rv_storage = []\<rparr>)) stale_db 5 () = (Inr (), db1) \<and>
     revert_tip_block ref_text db1 5 = (Inr (), db2) \<and> acct_view ref_text db2 1 = Some (5, 0, 0))"
proof -
  define oa where "oa = the (account_opt_from_json ref_text (the (account_opt_to_json ref_text (Some (demo_account 5)))))"
  have oa: "map_option account_key oa = Some (5, 0, 0)"
    using ref.account_opt_rt[of "Some (demo_account 5)"] by (auto simp: oa_def account_key_def demo_account_def)
  have row: "logged_account ref_text (dec_string (unat (5 :: u64))) stale_db 1 = Some oa"
    by (simp add: logged_account_def stale_db_def account_put_def oa_def)
  have "acct_view ref_text stale_db 1 = Some (9, 0, 0)"
    by (simp add: stale_db_def ref.acct_view_put account_key_def demo_account_def)
  moreover have "block_tbl stale_db = [(dec_string 4, dec_string 4)]"
    by (simp add: stale_db_def account_put_def)
  ultimately show ?thesis
    using stale_undo_replayed [where block = "5 :: u64" and oa = oa and a = 1 and b = "()",
        OF ref.rollup_text_ok_axioms stale_db_ok refl] row oa
    by simp
qed

text \<open>
  Property C40. A block that wipes an account's storage loses it on revert: the wipe deletes the
  rows before the wiped slots are read for the undo log, so every slot that revm's revert does not
  name itself reads as zero after the block is inserted and reverted, whatever it held before.
\<close>

theorem wiped_storage_not_restored:
  assumes "rollup_text_ok T" "db_ok T db" "to_plain b = (cs, rv)"
    "ch_storage cs = [\<lparr>cs_address = a, cs_wipe_storage = True, cs_storage = []\<rparr>]"
    "length (rv_accounts rv) \<le> 1"
    "rv_storage rv = [[\<lparr>sr_address = a, sr_wiped = True, sr_storage_revert = named\<rparr>]]"
    "\<forall>k \<in> fst ` set (block_tbl db). k < dec_string (unat (block_number T block))"
    "no_logs_for (dec_string (unat (block_number T block))) db"
    "k \<notin> b256_from_u256 T ` fst ` set named"
  shows "\<exists>db1 db2. insert_block_with_bundle T to_plain db block b = (Inr (), db1) \<and>
    revert_tip_block T db1 (ucast (block_number T block)) = (Inr (), db2) \<and>
    slot_value T db2 (a, k) = 0"
  by (rule rollup_text_ok.wiped_slot [where to_plain = to_plain, OF assms])

text \<open>Account 1 has 7 in its slot 2, and block 5 destroys it.\<close>

theorem wiped_storage_not_restored_witness:
  "slot_value ref_text (upsert_storage ref_text demo_db 1 2 7) (1, 2) = 7 \<and>
   (\<exists>db1 db2. insert_block_with_bundle ref_text
        (\<lambda>_. (\<lparr>ch_accounts = [(1, None)], ch_storage = [\<lparr>cs_address = 1, cs_wipe_storage = True, cs_storage = []\<rparr>],
               ch_contracts = []\<rparr>,
              \<lparr>rv_accounts = [[(1, Some (demo_account 5))]],
               rv_storage = [[\<lparr>sr_address = 1, sr_wiped = True, sr_storage_revert = []\<rparr>]]\<rparr>))
        (upsert_storage ref_text demo_db 1 2 7) 5 () = (Inr (), db1) \<and>
     revert_tip_block ref_text db1 5 = (Inr (), db2) \<and> slot_value ref_text db2 (1, 2) = 0)"
proof -
  have tables: "block_tbl (upsert_storage ref_text demo_db 1 2 7) = [(dec_string 4, dec_string 4)]"
    "no_logs_for n (upsert_storage ref_text demo_db 1 2 7)" for n
    by (simp_all add: upsert_storage_def no_logs_for_def)
  have "slot_value ref_text (upsert_storage ref_text demo_db 1 2 7) (1, 2) = 7"
    by (simp add: slot_value_def ref.slot_view_upsert)
  then show ?thesis
    using wiped_storage_not_restored [where block = "5 :: u64" and k = 2 and b = "()" and a = 1 and named = "[]",
      OF ref.rollup_text_ok_axioms ref.db_ok_storage_upsert [OF demo_db_ok, of 1 2 7] refl]
    by (simp add: tables)
qed

text \<open>
  The order in which the transaction writes the account changes does not matter, as
  long as no address occurs twice: the accounts afterwards are the same for every permutation of
  the changes.
\<close>

lemma account_writes_commute:
  assumes "rollup_text_ok T" "distinct (map fst xs)" "mset xs = mset ys"
  shows "\<exists>tx1 tx2. write_accounts T xs tx = Inr tx1 \<and> write_accounts T ys tx = Inr tx2 \<and>
    acct_view T tx1 = acct_view T tx2"
  using rollup_text_ok.write_accounts_eq[OF assms(1)] rollup_text_ok.write_accounts_order[OF assms, of tx]
  by metis

lemma account_writes_commute_witness:
  "\<exists>tx1 tx2. write_accounts ref_text [(1, None), (2, Some (demo_account 3))] demo_db = Inr tx1 \<and>
    write_accounts ref_text [(2, Some (demo_account 3)), (1, None)] demo_db = Inr tx2 \<and>
    acct_view ref_text tx1 = acct_view ref_text tx2"
  by (rule account_writes_commute [OF ref.rollup_text_ok_axioms]) simp_all

end
