(* ===== verification/Rollup_Exec.thy ===== *)
theory Rollup_Exec
  imports Rollup_Props "HOL-Library.Sublist"
begin

text \<open>
  The execution of a rollup block (rollup/src/execution.rs): the header, the transactions decoded
  from the block data or from blobs, their execution on the EVM with the block gas limit, and
  \<open>execute_block\<close> that composes them. What lies in alloy, revm, the node's transaction pool and
  Blobscan is a parameter: the record \<open>exec_api\<close>. The EVM is a state of its own type \<open>'e\<close>;
  \<open>gas_law\<close> states the one law of it that the gas accounting relies on, that a transaction uses no
  more gas than its limit.
\<close>

section \<open>Parameters and types\<close>

text \<open>\<open>CHAIN_ID\<close> of main.rs.\<close>

definition CHAIN_ID :: u64 where
  "CHAIN_ID = 17001"

text \<open>The header of a submitted block (\<open>Zenith::BlockHeader\<close> of the contract's ABI).\<close>

record zenith_header =
  zh_rollup_chain_id :: u256
  zh_sequence :: u256
  zh_confirm_by :: u256
  zh_gas_limit :: u256
  zh_reward_address :: address

text \<open>The fields of a header that \<open>construct_header\<close> sets; the others keep their default.\<close>

record header =
  hd_parent_hash :: b256
  hd_number :: u64
  hd_gas_limit :: u64
  hd_timestamp :: u64
  hd_base_fee_per_gas :: "u64 option"

datatype evm_error = InvalidTransaction | EvmOther

text \<open>\<open>BlobTransactionSidecar\<close>, or the EIP-7594 form that the decoder refuses.\<close>

datatype ('blob, 'cmt) sidecar = Eip4844 "'blob list" "'cmt list" | Eip7594

text \<open>A receipt, without the fields that the code leaves at their default.\<close>

record ('ty, 'log) receipt =
  rc_tx_type :: 'ty
  rc_success :: bool
  rc_cumulative_gas_used :: u64
  rc_logs :: "'log list"

text \<open>The methods the EVM reads the database through (\<open>impl reth_revm::Database\<close>).\<close>

record 'code evm_database =
  ed_basic :: "address \<Rightarrow> err + 'code account_info option"
  ed_code_by_hash :: "b256 \<Rightarrow> err + 'code"
  ed_storage :: "address \<Rightarrow> u256 \<Rightarrow> err + u256"
  ed_block_hash :: "u64 \<Rightarrow> err + b256"

record ('code, 'b, 'tx, 'e, 'res, 'st, 'bundle, 'blob, 'cmt, 'ty, 'log) exec_api =
  transitions_at_block :: "u64 \<Rightarrow> bool" \<comment> \<open>London of \<open>CHAIN_SPEC\<close>\<close>
  initial_base_fee :: u64
  next_block_base_fee :: "'b \<Rightarrow> u64 \<Rightarrow> u64 option"
  block_hash_of :: "'b \<Rightarrow> b256"
  is_eip4844 :: "'tx \<Rightarrow> bool"
  tx_hash :: "'tx \<Rightarrow> b256"
  tx_type :: "'tx \<Rightarrow> 'ty"
  tx_gas_limit :: "'tx \<Rightarrow> u64"
  tx_chain_id :: "'tx \<Rightarrow> u64 option"
  pool_get_blob :: "b256 \<Rightarrow> err + ('blob, 'cmt) sidecar option"
  blobscan_transaction :: "b256 \<Rightarrow> err + 'blob list \<times> 'cmt list"
  kzg_to_versioned_hash :: "'cmt \<Rightarrow> b256"
  rlp_hashes :: "bytes \<Rightarrow> err + b256 list" \<comment> \<open>\<open>Vec::<B256>::decode\<close>\<close>
  blob_decode_all :: "'blob list \<Rightarrow> bytes list option" \<comment> \<open>\<open>SimpleCoder::decode_all\<close>\<close>
  keccak256 :: "bytes \<Rightarrow> b256"
  rlp_byte_strings :: "bytes \<Rightarrow> err + bytes list" \<comment> \<open>\<open>alloy_rlp::decode_exact\<close>\<close>
  decode_2718 :: "bytes \<Rightarrow> err + 'tx"
  try_recover :: "'tx \<Rightarrow> err + address"
  evm_for_block :: "'code evm_database \<Rightarrow> header \<Rightarrow> err + 'e"
  evm_transact :: "'tx \<times> address \<Rightarrow> 'e \<Rightarrow> (evm_error + 'res \<times> 'st) \<times> 'e"
  evm_commit :: "'st \<Rightarrow> 'e \<Rightarrow> 'e"
  merge_transitions :: "'e \<Rightarrow> 'e"
  take_bundle :: "'e \<Rightarrow> 'bundle"
  res_gas_used :: "'res \<Rightarrow> u64"
  res_success :: "'res \<Rightarrow> bool"
  res_logs :: "'res \<Rightarrow> 'log list"
  try_into_recovered :: "header \<times> 'tx list \<Rightarrow> err + 'b"

section \<open>The header\<close>

text \<open>\<open>u64::try_from\<close> of a U256.\<close>

definition try_u64 :: "u256 \<Rightarrow> err + u64" where
  "try_u64 x = (if unat x < 2 ^ 64 then Inr (ucast x) else Inl TryFromIntError)"

definition construct_header ::
  "('code, 'b, 'tx, 'e, 'res, 'st, 'bundle, 'blob, 'cmt, 'ty, 'log) exec_api \<Rightarrow>
   ('code, 'b) rollup_text \<Rightarrow> rollup_db \<Rightarrow> zenith_header \<Rightarrow> err + header" where
  "construct_header X T db h =
     and_then (if zh_sequence h \<noteq> 0 then get_block T db (zh_sequence h - 1) else Inr None) (\<lambda>parent_block.
     and_then (try_u64 (zh_sequence h)) (\<lambda>block_number.
     and_then (try_u64 (zh_confirm_by h)) (\<lambda>timestamp.
     and_then (if transitions_at_block X block_number then Inr (initial_base_fee X)
        else and_then (ok_or (Eyre ''parent block not found'') parent_block) (\<lambda>parent.
          ok_or (Eyre ''failed to calculate base fee'') (next_block_base_fee X parent timestamp)))
       (\<lambda>base_fee_per_gas.
     and_then (try_u64 (zh_gas_limit h)) (\<lambda>gas_limit.
     Inr \<lparr>hd_parent_hash = (case parent_block of None \<Rightarrow> 0 | Some b \<Rightarrow> block_hash_of X b),
          hd_number = block_number, hd_gas_limit = gas_limit, hd_timestamp = timestamp,
          hd_base_fee_per_gas = Some base_fee_per_gas\<rparr>)))))"

section \<open>Decoding the transactions\<close>

text \<open>The blobs of a blob-carrying transaction: from the pool, or else from Blobscan.\<close>

definition find_blobs ::
  "('code, 'b, 'tx, 'e, 'res, 'st, 'bundle, 'blob, 'cmt, 'ty, 'log) exec_api \<Rightarrow>
   'tx \<Rightarrow> err + ('blob \<times> 'cmt) list" where
  "find_blobs X tx =
     and_then (pool_get_blob X (tx_hash X tx)) (\<lambda>found.
     case found of
       Some (Eip4844 blobs commitments) \<Rightarrow> Inr (zip blobs commitments)
     | Some Eip7594 \<Rightarrow> Inl (Eyre ''Expected EIP-4844 sidecar but got EIP-7594'')
     | None \<Rightarrow> and_then (blobscan_transaction X (tx_hash X tx)) (\<lambda>(blobs, commitments).
         Inr (zip blobs commitments)))"

text \<open>The raw transactions, checked against the hash that the contract's event announces.\<close>

definition raw_transactions ::
  "('code, 'b, 'tx, 'e, 'res, 'st, 'bundle, 'blob, 'cmt, 'ty, 'log) exec_api \<Rightarrow>
   'tx \<Rightarrow> bytes \<Rightarrow> b256 \<Rightarrow> err + bytes" where
  "raw_transactions X tx block_data block_data_hash =
     and_then
       (if is_eip4844 X tx
        then and_then (find_blobs X tx) (\<lambda>blobs.
          and_then (rlp_hashes X block_data) (\<lambda>blob_hashes.
          let blobs = map fst (filter (\<lambda>(_, hash). hash \<in> set blob_hashes)
                (map (\<lambda>(blob, commitment). (blob, kzg_to_versioned_hash X commitment)) blobs)) in
          if length blobs \<noteq> length blob_hashes then Inl (Eyre ''some blobs not found'') else
          and_then (ok_or (Eyre ''failed to decode blobs'') (blob_decode_all X blobs)) (\<lambda>data.
          Inr (concat data))))
        else Inr block_data) (\<lambda>raw.
     if keccak256 X raw \<noteq> block_data_hash then Inl (Eyre ''block data hash mismatch'') else Inr raw)"

fun recover_transactions ::
  "('code, 'b, 'tx, 'e, 'res, 'st, 'bundle, 'blob, 'cmt, 'ty, 'log) exec_api \<Rightarrow>
   bytes list \<Rightarrow> ('tx \<times> address) list \<Rightarrow> err + ('tx \<times> address) list" where
  "recover_transactions X [] transactions = Inr transactions"
| "recover_transactions X (raw # raws) transactions =
     and_then (decode_2718 X raw) (\<lambda>tx.
     if tx_chain_id X tx = Some CHAIN_ID
     then and_then (try_recover X tx) (\<lambda>sender. recover_transactions X raws (transactions @ [(tx, sender)]))
     else recover_transactions X raws transactions)"

definition decode_transactions ::
  "('code, 'b, 'tx, 'e, 'res, 'st, 'bundle, 'blob, 'cmt, 'ty, 'log) exec_api \<Rightarrow>
   'tx \<Rightarrow> bytes \<Rightarrow> b256 \<Rightarrow> err + ('tx \<times> address) list" where
  "decode_transactions X tx block_data block_data_hash =
     and_then (raw_transactions X tx block_data block_data_hash) (\<lambda>raw.
     and_then (rlp_byte_strings X raw) (\<lambda>raws.
     recover_transactions X raws []))"

section \<open>Executing the transactions\<close>

text \<open>The gas used so far, and the three vectors the loop pushes to.\<close>

record ('tx, 'ty, 'log, 'res) progress =
  pg_cumulative_gas_used :: u64
  pg_executed_txs :: "'tx list"
  pg_receipts :: "('ty, 'log) receipt list"
  pg_results :: "'res list"

text \<open>
  The loop over the transactions. The subtraction of the gas used so far wraps as it does in a
  release build; \<open>gas_accounting\<close> below shows that it does not.
\<close>

fun execute_loop ::
  "('code, 'b, 'tx, 'e, 'res, 'st, 'bundle, 'blob, 'cmt, 'ty, 'log) exec_api \<Rightarrow>
   header \<Rightarrow> ('tx \<times> address) list \<Rightarrow> ('tx, 'ty, 'log, 'res) progress \<Rightarrow> 'e \<Rightarrow>
   (err + ('tx, 'ty, 'log, 'res) progress) \<times> 'e" where
  "execute_loop X h [] pg evm = (Inr pg, evm)"
| "execute_loop X h (tx # txs) pg evm =
     (let block_available_gas = hd_gas_limit h - pg_cumulative_gas_used pg in
      if block_available_gas < tx_gas_limit X (fst tx)
      then (Inl (Eyre ''TransactionGasLimitMoreThanAvailableBlockGas''), evm)
      else case evm_transact X tx evm of
        (Inl InvalidTransaction, evm) \<Rightarrow> execute_loop X h txs pg evm
      | (Inl EvmOther, evm) \<Rightarrow> (Inl (Eyre ''db error''), evm)
      | (Inr (result, state), evm) \<Rightarrow>
         (let cumulative_gas_used = pg_cumulative_gas_used pg + res_gas_used X result;
              receipt = \<lparr>rc_tx_type = tx_type X (fst tx), rc_success = res_success X result,
                rc_cumulative_gas_used = cumulative_gas_used, rc_logs = res_logs X result\<rparr> in
          execute_loop X h txs
            \<lparr>pg_cumulative_gas_used = cumulative_gas_used,
             pg_executed_txs = pg_executed_txs pg @ [fst tx],
             pg_receipts = pg_receipts pg @ [receipt],
             pg_results = pg_results pg @ [result]\<rparr> (evm_commit X state evm)))"

definition no_progress :: "('tx, 'ty, 'log, 'res) progress" where
  "no_progress = \<lparr>pg_cumulative_gas_used = 0, pg_executed_txs = [], pg_receipts = [], pg_results = []\<rparr>"

definition execute_transactions ::
  "('code, 'b, 'tx, 'e, 'res, 'st, 'bundle, 'blob, 'cmt, 'ty, 'log) exec_api \<Rightarrow>
   header \<Rightarrow> ('tx \<times> address) list \<Rightarrow> 'e \<Rightarrow> (err + ('tx, 'ty, 'log, 'res) progress) \<times> 'e" where
  "execute_transactions X h transactions evm =
     (if transactions = [] then (Inr no_progress, evm)
      else case execute_loop X h transactions no_progress evm of
        (Inl e, evm) \<Rightarrow> (Inl e, evm)
      | (Inr pg, evm) \<Rightarrow> (Inr pg, merge_transitions X evm))"

section \<open>The block\<close>

text \<open>The rollup database as the EVM reads it.\<close>

definition database_of :: "('code, 'b) rollup_text \<Rightarrow> rollup_db \<Rightarrow> 'code evm_database" where
  "database_of T db = \<lparr>ed_basic = db_basic T db, ed_code_by_hash = db_code_by_hash T db,
     ed_storage = db_storage T db, ed_block_hash = db_block_hash T db\<rparr>"

definition execute_block ::
  "('code, 'b, 'tx, 'e, 'res, 'st, 'bundle, 'blob, 'cmt, 'ty, 'log) exec_api \<Rightarrow>
   ('code, 'b) rollup_text \<Rightarrow> rollup_db \<Rightarrow> 'tx \<Rightarrow> zenith_header \<Rightarrow> bytes \<Rightarrow> b256 \<Rightarrow>
   err + 'b \<times> 'bundle \<times> ('ty, 'log) receipt list \<times> 'res list" where
  "execute_block X T db tx h block_data block_data_hash =
     (if zh_rollup_chain_id h \<noteq> ucast CHAIN_ID then Inl (Eyre ''Invalid rollup chain ID'') else
      and_then (construct_header X T db h) (\<lambda>header.
      and_then (decode_transactions X tx block_data block_data_hash) (\<lambda>transactions.
      and_then (evm_for_block X (database_of T db) header) (\<lambda>evm.
      case execute_transactions X header transactions evm of
        (Inl e, evm) \<Rightarrow> Inl e
      | (Inr pg, evm) \<Rightarrow>
          and_then (try_into_recovered X (header, pg_executed_txs pg)) (\<lambda>block.
          Inr (block, take_bundle X evm, pg_receipts pg, pg_results pg))))))"

section \<open>Gas accounting\<close>

text \<open>The law of the EVM: a transaction uses at most its gas limit.\<close>

definition gas_law ::
  "('code, 'b, 'tx, 'e, 'res, 'st, 'bundle, 'blob, 'cmt, 'ty, 'log) exec_api \<Rightarrow> bool" where
  "gas_law X \<longleftrightarrow> (\<forall>tx evm res st evm'. evm_transact X tx evm = (Inr (res, st), evm') \<longrightarrow>
     res_gas_used X res \<le> tx_gas_limit X (fst tx))"

text \<open>The receipts a block ought to have, with the running total in unbounded arithmetic.\<close>

fun receipts_of ::
  "('code, 'b, 'tx, 'e, 'res, 'st, 'bundle, 'blob, 'cmt, 'ty, 'log) exec_api \<Rightarrow>
   nat \<Rightarrow> 'tx list \<Rightarrow> 'res list \<Rightarrow> ('ty, 'log) receipt list" where
  "receipts_of X acc (t # ts) (r # rs) =
     \<lparr>rc_tx_type = tx_type X t, rc_success = res_success X r,
      rc_cumulative_gas_used = word_of_nat (acc + unat (res_gas_used X r)), rc_logs = res_logs X r\<rparr>
     # receipts_of X (acc + unat (res_gas_used X r)) ts rs"
| "receipts_of X acc _ _ = []"

definition gas_total ::
  "('code, 'b, 'tx, 'e, 'res, 'st, 'bundle, 'blob, 'cmt, 'ty, 'log) exec_api \<Rightarrow> 'res list \<Rightarrow> nat" where
  "gas_total X rs = sum_list (map (\<lambda>r. unat (res_gas_used X r)) rs)"

lemma add_within:
  assumes "c \<le> L" "g \<le> t" "\<not> L - c < (t :: u64)"
  shows "unat (c + g) = unat c + unat g" "c + g \<le> L"
proof -
  have "unat (L - c) = unat L - unat c" using assms(1) by (simp add: unat_sub)
  moreover have "unat t \<le> unat (L - c)" using assms(3) by (simp add: not_less word_le_nat_alt)
  moreover have "unat g \<le> unat t" "unat c \<le> unat L" using assms(1,2) by (simp_all add: word_le_nat_alt)
  ultimately have le: "unat c + unat g \<le> unat L" by linarith
  moreover have "unat L < 2 ^ 64" using unsigned_less[of L, where 'a = nat] by simp
  ultimately show s: "unat (c + g) = unat c + unat g" by (simp add: unat_word_ariths)
  with le show "c + g \<le> L" by (simp add: word_le_nat_alt)
qed

lemma execute_loop_ok:
  assumes "gas_law X" "pg_cumulative_gas_used pg \<le> hd_gas_limit h"
    "execute_loop X h txs pg evm = (Inr pg', evm')"
  shows "\<exists>ts rs. subseq ts (map fst txs) \<and> length ts = length rs \<and>
    pg_executed_txs pg' = pg_executed_txs pg @ ts \<and> pg_results pg' = pg_results pg @ rs \<and>
    pg_receipts pg' = pg_receipts pg @ receipts_of X (unat (pg_cumulative_gas_used pg)) ts rs \<and>
    unat (pg_cumulative_gas_used pg') = unat (pg_cumulative_gas_used pg) + gas_total X rs \<and>
    pg_cumulative_gas_used pg' \<le> hd_gas_limit h"
  using assms(2,3)
proof (induction txs arbitrary: pg evm)
  case (Cons tx txs)
  let ?c = "pg_cumulative_gas_used pg"
  obtain q evm1 where tr: "evm_transact X tx evm = (q, evm1)" by (cases "evm_transact X tx evm")
  from Cons.prems(2) have fits: "\<not> hd_gas_limit h - ?c < tx_gas_limit X (fst tx)"
    by (auto simp: Let_def split: if_splits)
  show ?case
  proof (cases q)
    case (Inl e)
    with Cons.prems tr fits have "e = InvalidTransaction" "execute_loop X h txs pg evm1 = (Inr pg', evm')"
      by (cases e; simp add: Let_def)+
    from Cons.IH[OF Cons.prems(1) this(2)] show ?thesis by (auto intro: subseq_Cons')
  next
    case (Inr rst)
    obtain r st where rst: "rst = (r, st)" by (cases rst)
    with assms(1) tr Inr have g: "res_gas_used X r \<le> tx_gas_limit X (fst tx)"
      unfolding gas_law_def by blast
    note sum = add_within[OF Cons.prems(1) g fits]
    let ?pg = "\<lparr>pg_cumulative_gas_used = ?c + res_gas_used X r, pg_executed_txs = pg_executed_txs pg @ [fst tx],
      pg_receipts = pg_receipts pg @ [\<lparr>rc_tx_type = tx_type X (fst tx), rc_success = res_success X r,
        rc_cumulative_gas_used = ?c + res_gas_used X r, rc_logs = res_logs X r\<rparr>],
      pg_results = pg_results pg @ [r]\<rparr>"
    have "execute_loop X h txs ?pg (evm_commit X st evm1) = (Inr pg', evm')"
      using Cons.prems(2) tr fits Inr rst by (simp add: Let_def)
    moreover have "pg_cumulative_gas_used ?pg \<le> hd_gas_limit h" using sum(2) by simp
    ultimately obtain ts rs where "subseq ts (map fst txs)" "length ts = length rs"
      "pg_executed_txs pg' = pg_executed_txs ?pg @ ts" "pg_results pg' = pg_results ?pg @ rs"
      "pg_receipts pg' = pg_receipts ?pg @ receipts_of X (unat (pg_cumulative_gas_used ?pg)) ts rs"
      "unat (pg_cumulative_gas_used pg') = unat (pg_cumulative_gas_used ?pg) + gas_total X rs"
      "pg_cumulative_gas_used pg' \<le> hd_gas_limit h"
      using Cons.IH by blast
    moreover have "word_of_nat (unat ?c + unat (res_gas_used X r)) = ?c + res_gas_used X r" by simp
    ultimately show ?thesis
      by (intro exI[of _ "fst tx # ts"] exI[of _ "r # rs"]) (simp add: sum(1) gas_total_def)
  qed
qed (simp add: gas_total_def)

section \<open>What decoding accepts\<close>

lemma recover_transactions_iff:
  "recover_transactions X raws acc = Inr rts \<longleftrightarrow>
     (\<exists>ts new. list_all2 (\<lambda>raw t. decode_2718 X raw = Inr t) raws ts \<and> rts = acc @ new \<and>
       list_all2 (\<lambda>t (t', a). t' = t \<and> try_recover X t = Inr a)
         (filter (\<lambda>t. tx_chain_id X t = Some CHAIN_ID) ts) new)"
proof (induction raws arbitrary: acc)
  case (Cons raw raws)
  show ?case
  proof (cases "decode_2718 X raw")
    case (Inr t)
    show ?thesis
    proof (cases "tx_chain_id X t = Some CHAIN_ID")
      case True
      show ?thesis
      proof (cases "try_recover X t")
        case (Inl e)
        with Inr True show ?thesis by (auto simp: list_all2_Cons1)
      next
        case r: (Inr a)
        with Inr True show ?thesis
          by (simp add: Cons.IH list_all2_Cons1 ex_simps [symmetric] del: ex_simps)
      qed
    next
      case False
      with Inr show ?thesis by (simp add: Cons.IH list_all2_Cons1) (rule iffI; fastforce)
    qed
  qed (auto simp: list_all2_Cons1)
qed auto

end
