(* ===== verification/Rollup_Main.thy ===== *)
theory Rollup_Main
  imports Rollup_Exec
begin

text \<open>
  The rollup itself (rollup/src/main.rs): the events of the rollup contract in a chain, the
  handlers \<open>commit\<close> and \<open>revert\<close>, and the notification loop. Each database call of a handler is a
  transaction or a statement of its own, so what was written before an error stays. The decoding
  of logs and call data (generated by \<open>sol!\<close> from the ABI) and the accessors of reth's chain are
  parameters. The handler is an interpretation of \<open>exex_handler\<close>.
\<close>

section \<open>Events of the rollup contract\<close>

definition ROLLUP_CONTRACT_ADDRESS :: address where
  "ROLLUP_CONTRACT_ADDRESS = 0x97C0E40c6B5bb5d4fa3e2AA1C6b8bC7EA5ECAe31"

text \<open>The events and calls that the code tells apart.\<close>

datatype rollup_event =
    BlockSubmitted b256 \<comment> \<open>\<open>blockDataHash\<close>\<close>
  | Enter u256 address address u256 \<comment> \<open>rollup chain id, token, recipient, amount\<close>
  | OtherEvent

datatype rollup_call = SubmitBlock zenith_header bytes | OtherCall

record ('c, 'b, 'tx, 'rcpt, 'lg) chain_api = "('c, 'b, 'tx, 'rcpt, 'lg) chain_access" +
  decode_raw_log :: "'lg \<Rightarrow> rollup_event option"
  abi_decode_input :: "'tx \<Rightarrow> err + rollup_call"

definition decode_chain_into_rollup_events ::
  "('c, 'b, 'tx, 'rcpt, 'lg) chain_api \<Rightarrow> 'c \<Rightarrow> ('b \<times> 'tx \<times> rollup_event) list" where
  "decode_chain_into_rollup_events C chain =
     List.map_filter (\<lambda>(block, tx, log). map_option (\<lambda>event. (block, tx, event)) (decode_raw_log C log))
       (logs_from C [ROLLUP_CONTRACT_ADDRESS] chain)"

section \<open>The handlers\<close>

text \<open>A loop over events that stops at the first error; \<open>continue\<close> and \<open>()\<close> go on.\<close>

fun run_events :: "('ev \<Rightarrow> 'db \<Rightarrow> (err + unit) \<times> 'db) \<Rightarrow> 'ev list \<Rightarrow> 'db \<Rightarrow> (err + unit) \<times> 'db" where
  "run_events f [] db = (Inr (), db)"
| "run_events f (ev # evs) db =
     (case f ev db of (Inl e, db) \<Rightarrow> (Inl e, db) | (Inr _, db) \<Rightarrow> run_events f evs db)"

text \<open>A statement that either changes the database or fails and leaves it.\<close>

definition statement :: "'db \<Rightarrow> err + 'db \<Rightarrow> (err + unit) \<times> 'db" where
  "statement db r = (case r of Inl e \<Rightarrow> (Inl e, db) | Inr db' \<Rightarrow> (Inr (), db'))"

text \<open>The closures that the handlers pass to \<open>upsert_account\<close>; \<open>U256\<close> arithmetic wraps.\<close>

definition credit ::
  "('code, 'b) rollup_text \<Rightarrow> u256 \<Rightarrow> 'code account_info option \<Rightarrow> err + 'code account_info" where
  "credit T amount account =
     (let account = (case account of None \<Rightarrow> default_account T | Some a \<Rightarrow> a)
      in Inr (account\<lparr>balance := balance account + amount\<rparr>))"

definition debit :: "u256 \<Rightarrow> 'code account_info option \<Rightarrow> err + 'code account_info" where
  "debit amount account =
     and_then (ok_or (Eyre ''account not found'') account) (\<lambda>account.
     Inr (account\<lparr>balance := balance account - amount\<rparr>))"

definition commit_event ::
  "('c, 'b, 'tx, 'rcpt, 'lg) chain_api \<Rightarrow>
   ('code, 'b, 'tx, 'e, 'res, 'st, 'bundle, 'blob, 'cmt, 'ty, 'log) exec_api \<Rightarrow>
   ('code, 'b) rollup_text \<Rightarrow> ('bundle \<Rightarrow> 'code plain_changeset \<times> 'code plain_reverts) \<Rightarrow>
   'b \<times> 'tx \<times> rollup_event \<Rightarrow> rollup_db \<Rightarrow> (err + unit) \<times> rollup_db" where
  "commit_event C X T to_plain ev db =
     (case ev of (_, tx, event) \<Rightarrow>
       case event of
         BlockSubmitted block_data_hash \<Rightarrow>
           (case abi_decode_input C tx of
              Inl e \<Rightarrow> (Inl e, db)
            | Inr (SubmitBlock header block_data) \<Rightarrow>
                (case execute_block X T db tx header block_data block_data_hash of
                   Inr (block, bundle, _, _) \<Rightarrow> insert_block_with_bundle T to_plain db block bundle
                 | Inl err \<Rightarrow> (Inr (), db))
            | Inr OtherCall \<Rightarrow> (Inr (), db))
       | Enter rollup_chain_id token rollup_recipient amount \<Rightarrow>
           if rollup_chain_id \<noteq> ucast CHAIN_ID then (Inr (), db)
           else if token \<noteq> 0 then (Inr (), db)
           else statement db (upsert_account T db rollup_recipient (credit T amount))
       | OtherEvent \<Rightarrow> (Inr (), db))"

definition commit_chain ::
  "('c, 'b, 'tx, 'rcpt, 'lg) chain_api \<Rightarrow>
   ('code, 'b, 'tx, 'e, 'res, 'st, 'bundle, 'blob, 'cmt, 'ty, 'log) exec_api \<Rightarrow>
   ('code, 'b) rollup_text \<Rightarrow> ('bundle \<Rightarrow> 'code plain_changeset \<times> 'code plain_reverts) \<Rightarrow>
   'c \<Rightarrow> rollup_db \<Rightarrow> (err + unit) \<times> rollup_db" where
  "commit_chain C X T to_plain chain =
     run_events (commit_event C X T to_plain) (decode_chain_into_rollup_events C chain)"

definition revert_event ::
  "('c, 'b, 'tx, 'rcpt, 'lg) chain_api \<Rightarrow> ('code, 'b) rollup_text \<Rightarrow>
   'b \<times> 'tx \<times> rollup_event \<Rightarrow> rollup_db \<Rightarrow> (err + unit) \<times> rollup_db" where
  "revert_event C T ev db =
     (case ev of (_, tx, event) \<Rightarrow>
       case event of
         BlockSubmitted _ \<Rightarrow>
           (case abi_decode_input C tx of
              Inl e \<Rightarrow> (Inl e, db)
            | Inr (SubmitBlock header _) \<Rightarrow> revert_tip_block T db (zh_sequence header)
            | Inr OtherCall \<Rightarrow> (Inr (), db))
       | Enter rollup_chain_id token rollup_recipient amount \<Rightarrow>
           if rollup_chain_id \<noteq> ucast CHAIN_ID then (Inr (), db)
           else if token \<noteq> 0 then (Inr (), db)
           else statement db (upsert_account T db rollup_recipient (debit amount))
       | OtherEvent \<Rightarrow> (Inr (), db))"

definition revert_chain ::
  "('c, 'b, 'tx, 'rcpt, 'lg) chain_api \<Rightarrow> ('code, 'b) rollup_text \<Rightarrow> 'c \<Rightarrow> rollup_db \<Rightarrow> (err + unit) \<times> rollup_db" where
  "revert_chain C T chain =
     run_events (revert_event C T) (rev (decode_chain_into_rollup_events C chain))"

section \<open>The notification loop\<close>

record 'h rollup =
  ro_db :: rollup_db
  ro_events :: "'h events"

text \<open>The body of the loop of \<open>start\<close>: the reverted chain first, then the committed one.\<close>

definition rollup_step ::
  "('c, 'h) exex_api \<Rightarrow> ('c, 'b, 'tx, 'rcpt, 'lg) chain_api \<Rightarrow>
   ('code, 'b, 'tx, 'e, 'res, 'st, 'bundle, 'blob, 'cmt, 'ty, 'log) exec_api \<Rightarrow>
   ('code, 'b) rollup_text \<Rightarrow> ('bundle \<Rightarrow> 'code plain_changeset \<times> 'code plain_reverts) \<Rightarrow>
   'c exex_notification \<Rightarrow> 'h rollup \<Rightarrow> (err + unit) \<times> 'h rollup" where
  "rollup_step A C X T to_plain n s =
     (case (case reverted_chain A n of None \<Rightarrow> (Inr (), ro_db s) | Some c \<Rightarrow> revert_chain C T c (ro_db s)) of
        (Inl e, db) \<Rightarrow> (Inl e, s\<lparr>ro_db := db\<rparr>)
      | (Inr _, db) \<Rightarrow>
         (case committed_chain A n of
            None \<Rightarrow> (Inr (), s\<lparr>ro_db := db\<rparr>)
          | Some c \<Rightarrow>
             (case commit_chain C X T to_plain c db of
                (Inl e, db) \<Rightarrow> (Inl e, s\<lparr>ro_db := db\<rparr>)
              | (Inr _, db) \<Rightarrow>
                 (case send_event (tip_num_hash A c) (ro_events s) of
                    Inl e \<Rightarrow> (Inl e, s\<lparr>ro_db := db\<rparr>)
                  | Inr ev \<Rightarrow> (Inr (), s\<lparr>ro_db := db, ro_events := ev\<rparr>)))))"

definition start_rollup ::
  "('c, 'h) exex_api \<Rightarrow> ('c, 'b, 'tx, 'rcpt, 'lg) chain_api \<Rightarrow>
   ('code, 'b, 'tx, 'e, 'res, 'st, 'bundle, 'blob, 'cmt, 'ty, 'log) exec_api \<Rightarrow>
   ('code, 'b) rollup_text \<Rightarrow> ('bundle \<Rightarrow> 'code plain_changeset \<times> 'code plain_reverts) \<Rightarrow>
   (err + 'c exex_notification) list \<Rightarrow> 'h rollup \<Rightarrow> (err + unit) \<times> 'h rollup" where
  "start_rollup A C X T to_plain = run_exex (rollup_step A C X T to_plain)"

interpretation rollup: exex_handler A "rollup_step A C X T to_plain" "\<lambda>s. finished_heights (ro_events s)"
  for A C X T to_plain
  by unfold_locales
    (auto simp: rollup_step_def owed_heights_def send_event_def
      split: prod.splits sum.splits option.splits if_splits)

end
