(* ===== verification/Rollup_Main_Props.thy ===== *)
theory Rollup_Main_Props
  imports Rollup_Main
begin

text \<open>
  The properties of the rollup's handlers and of the execution of a block: the invariant of the
  database under every notification, the heights reported to the node, deposits and their
  reverts, and the gas accounting, the transactions and the header of an executed block.
\<close>

section \<open>Lemmas on the handlers\<close>

lemma run_events_invariant:
  assumes "\<And>ev db r db'. I db \<Longrightarrow> f ev db = (r, db') \<Longrightarrow> I db'" "I db" "run_events f evs db = (r, db')"
  shows "I db'"
  using assms(2,3)
proof (induction evs arbitrary: db)
  case (Cons ev evs)
  obtain q db1 where st: "f ev db = (q, db1)" by (cases "f ev db")
  with Cons.prems(1) have "I db1" by (rule assms(1))
  with Cons st show ?case by (cases q) auto
qed simp

lemma run_events_append:
  "run_events f (xs @ ys) db =
     (case run_events f xs db of (Inl e, db) \<Rightarrow> (Inl e, db) | (Inr _, db) \<Rightarrow> run_events f ys db)"
  by (induction f xs db rule: run_events.induct) (auto split: prod.splits sum.splits)

lemma statement_simps [simp]:
  "statement db (Inl e) = (Inl e, db)" "statement db (Inr db') = (Inr (), db')"
  by (simp_all add: statement_def)

text \<open>Whether an event is an ETH deposit to this rollup, and what a deposit does to the accounts.\<close>

fun deposit_of :: "rollup_event \<Rightarrow> (address \<times> u256) option" where
  "deposit_of (Enter chain token recipient amount) =
     (if chain = ucast CHAIN_ID \<and> token = 0 then Some (recipient, amount) else None)"
| "deposit_of _ = None"

fun submits_block :: "rollup_event \<Rightarrow> bool" where
  "submits_block (BlockSubmitted _) = True"
| "submits_block _ = False"

definition depositors :: "('x \<times> 'y \<times> rollup_event) list \<Rightarrow> address list" where
  "depositors evs = map fst (List.map_filter (\<lambda>(_, _, ev). deposit_of ev) evs)"

lemma depositors_simps [simp]:
  "depositors [] = []"
  "depositors ((b, tx, ev) # evs) =
     (case deposit_of ev of None \<Rightarrow> depositors evs | Some d \<Rightarrow> fst d # depositors evs)"
  by (simp_all add: depositors_def List.map_filter_simps split: option.splits)

context rollup_text_ok
begin

lemma commit_event_ok:
  assumes "db_ok T db" "commit_event C X T to_plain ev db = (r, db')"
  shows "db_ok T db'"
proof -
  have st: "db_ok T db'" if "statement db (upsert_account T db a f) = (r, db')" for a f
    using that assms(1) by (auto simp: statement_def dest: db_ok_upsert split: sum.splits)
  show ?thesis
    using assms unfolding commit_event_def
    by (auto split: prod.splits rollup_event.splits sum.splits rollup_call.splits if_splits
        dest: db_ok_insert st)
qed

lemma revert_event_ok:
  assumes "db_ok T db" "revert_event C T ev db = (r, db')"
  shows "db_ok T db'"
proof -
  have st: "db_ok T db'" if "statement db (upsert_account T db a f) = (r, db')" for a f
    using that assms(1) by (auto simp: statement_def dest: db_ok_upsert split: sum.splits)
  show ?thesis
    using assms unfolding revert_event_def
    by (auto split: prod.splits rollup_event.splits sum.splits rollup_call.splits if_splits
        dest: db_ok_revert st)
qed

lemma commit_chain_ok: "db_ok T db \<Longrightarrow> commit_chain C X T to_plain c db = (r, db') \<Longrightarrow> db_ok T db'"
  unfolding commit_chain_def by (rule run_events_invariant [where I = "db_ok T", OF commit_event_ok])

lemma revert_chain_ok: "db_ok T db \<Longrightarrow> revert_chain C T c db = (r, db') \<Longrightarrow> db_ok T db'"
  unfolding revert_chain_def by (rule run_events_invariant [where I = "db_ok T", OF revert_event_ok])

lemma rollup_step_ok:
  assumes "db_ok T (ro_db s)" "rollup_step A C X T to_plain n s = (r, s')"
  shows "db_ok T (ro_db s')"
proof -
  obtain q db where first: "(case reverted_chain A n of None \<Rightarrow> (Inr (), ro_db s)
      | Some c \<Rightarrow> revert_chain C T c (ro_db s)) = (q, db)" by (rule prod.exhaust)
  have ok: "db_ok T db" using first assms(1) by (auto split: option.splits dest: revert_chain_ok)
  show ?thesis
    using assms(2) ok commit_chain_ok[OF ok] unfolding rollup_step_def first
    by (fastforce split: sum.splits option.splits prod.splits)
qed

text \<open>A deposit and its revert, on the account view.\<close>

definition credited :: "address \<Rightarrow> u256 \<Rightarrow> (address \<Rightarrow> (u256 \<times> u64 \<times> b256) option) \<Rightarrow> address \<Rightarrow> (u256 \<times> u64 \<times> b256) option" where
  "credited a amount m = m(a \<mapsto> (case m a of None \<Rightarrow> (amount, 0, code_hash (default_account T))
     | Some (bal, n, ch) \<Rightarrow> (bal + amount, n, ch)))"

lemma upsert_credit:
  assumes "db_ok T db"
  obtains db' where "upsert_account T db a (credit T amount) = Inr db'" "db_ok T db'" "same_logs db db'"
    "slot_view T db' = slot_view T db" "acct_view T db' = credited a amount (acct_view T db)"
proof -
  obtain oacc where g: "get_account T db a = Inr oacc" "acct_view T db a = map_option account_key oacc"
    using get_account_ok[OF assms] by metis
  define acc where "acc = (case oacc of None \<Rightarrow> default_account T | Some x \<Rightarrow> x)"
  have "upsert_account T db a (credit T amount) = Inr (account_put T a (acc\<lparr>balance := balance acc + amount\<rparr>) db)"
    by (rule upsert_account_eq[OF g(1)]) (simp add: credit_def acc_def Let_def)
  moreover have "account_key (acc\<lparr>balance := balance acc + amount\<rparr>) = (case acct_view T db a of
      None \<Rightarrow> (amount, 0, code_hash (default_account T)) | Some (bal, n, ch) \<Rightarrow> (bal + amount, n, ch))"
    using default_account by (cases oacc) (simp_all add: acc_def g(2) account_key_def)
  ultimately show thesis
    by (intro that[of "account_put T a (acc\<lparr>balance := balance acc + amount\<rparr>) db"]) (auto simp: assms db_ok_account_put acct_view_put credited_def)
qed

lemma upsert_debit:
  assumes "db_ok T db" "acct_view T db a = Some (bal, n, ch)"
  obtains db' where "upsert_account T db a (debit amount) = Inr db'" "db_ok T db'" "same_logs db db'"
    "slot_view T db' = slot_view T db" "acct_view T db' = (acct_view T db)(a \<mapsto> (bal - amount, n, ch))"
proof -
  obtain oacc where g: "get_account T db a = Inr oacc" "acct_view T db a = map_option account_key oacc"
    using get_account_ok[OF assms(1)] by metis
  with assms(2) obtain acc where acc: "oacc = Some acc" "account_key acc = (bal, n, ch)" by auto
  have "upsert_account T db a (debit amount) = Inr (account_put T a (acc\<lparr>balance := balance acc - amount\<rparr>) db)"
    by (rule upsert_account_eq[OF g(1)]) (simp add: debit_def acc)
  moreover have "account_key (acc\<lparr>balance := balance acc - amount\<rparr>) = (bal - amount, n, ch)"
    using acc(2) by (simp add: account_key_def)
  ultimately show thesis
    by (intro that[of "account_put T a (acc\<lparr>balance := balance acc - amount\<rparr>) db"]) (auto simp: assms(1) db_ok_account_put acct_view_put)
qed

lemma commit_deposit:
  assumes "deposit_of event = None" "\<not> submits_block event"
  shows "commit_event C X T to_plain (b, tx, event) db = (Inr (), db)"
    "revert_event C T (b, tx, event) db = (Inr (), db)"
  using assms by (cases event; auto simp: commit_event_def revert_event_def split: if_splits)+

text \<open>The accounts after deposits were made and taken back: an account that did not exist stays, empty.\<close>

definition emptied :: "('x \<times> 'y \<times> rollup_event) list \<Rightarrow> (address \<Rightarrow> (u256 \<times> u64 \<times> b256) option) \<Rightarrow>
    address \<Rightarrow> (u256 \<times> u64 \<times> b256) option" where
  "emptied evs m a = (if m a = None \<and> a \<in> set (depositors evs)
     then Some (0, 0, code_hash (default_account T)) else m a)"

lemma deposits_undone:
  assumes "db_ok T db" "\<forall>(_, _, ev) \<in> set evs. \<not> submits_block ev"
  shows "\<exists>db1 db2. run_events (commit_event C X T to_plain) evs db = (Inr (), db1) \<and>
    run_events (revert_event C T) (rev evs) db1 = (Inr (), db2) \<and> db_ok T db2 \<and> same_logs db db2 \<and>
    slot_view T db2 = slot_view T db \<and> acct_view T db2 = emptied evs (acct_view T db)"
  using assms
proof (induction evs arbitrary: db)
  case Nil
  then show ?case by (simp add: emptied_def fun_eq_iff)
next
  case (Cons e evs)
  obtain b tx ev where e: "e = (b, tx, ev)" by (cases e)
  from Cons.prems(2) have nb: "\<not> submits_block ev" "\<forall>(_, _, ev) \<in> set evs. \<not> submits_block ev" by (auto simp: e)
  show ?case
  proof (cases "deposit_of ev")
    case None
    note skip = commit_deposit[OF None nb(1)]
    from Cons.IH[OF Cons.prems(1) nb(2)] obtain db1 db2 where IH:
      "run_events (commit_event C X T to_plain) evs db = (Inr (), db1)"
      "run_events (revert_event C T) (rev evs) db1 = (Inr (), db2)" "db_ok T db2" "same_logs db db2"
      "slot_view T db2 = slot_view T db" "acct_view T db2 = emptied evs (acct_view T db)" by blast
    moreover have "emptied (e # evs) m = emptied evs m" for m
      by (simp add: emptied_def fun_eq_iff e None)
    ultimately show ?thesis
      by (intro exI[of _ db1] exI[of _ db2]) (simp add: run_events_append e skip)
  next
    case (Some d)
    obtain a amount where d: "d = (a, amount)" by (cases d)
    with Some have ev: "ev = Enter (ucast CHAIN_ID) 0 a amount" by (cases ev) (auto split: if_splits)
    from upsert_credit[OF Cons.prems(1), of a amount] obtain db' where db':
      "upsert_account T db a (credit T amount) = Inr db'" "db_ok T db'" "same_logs db db'"
      "slot_view T db' = slot_view T db" "acct_view T db' = credited a amount (acct_view T db)" by metis
    from Cons.IH[OF db'(2) nb(2)] obtain db1 db2 where IH:
      "run_events (commit_event C X T to_plain) evs db' = (Inr (), db1)"
      "run_events (revert_event C T) (rev evs) db1 = (Inr (), db2)" "db_ok T db2" "same_logs db' db2"
      "slot_view T db2 = slot_view T db'" "acct_view T db2 = emptied evs (acct_view T db')" by blast
    define old where "old = (case acct_view T db a of None \<Rightarrow> (0, 0, code_hash (default_account T)) | Some x \<Rightarrow> x)"
    obtain bal n ch where old: "old = (bal, n, ch)" by (cases old)
    then have "acct_view T db' a = Some (bal + amount, n, ch)"
      by (auto simp: db'(5) credited_def old_def split: option.splits)
    then have "acct_view T db2 a = Some (bal + amount, n, ch)" by (simp add: IH(6) emptied_def)
    from upsert_debit[OF IH(3) this, of amount] obtain db3 where db3:
      "upsert_account T db2 a (debit amount) = Inr db3" "db_ok T db3" "same_logs db2 db3"
      "slot_view T db3 = slot_view T db2" "acct_view T db3 = (acct_view T db2)(a \<mapsto> old)"
      by (metis add_diff_cancel_right' old)
    have "acct_view T db3 x = emptied (e # evs) (acct_view T db) x" for x
    proof (cases "x = a")
      case True
      then show ?thesis by (simp add: db3(5) emptied_def old_def e Some d split: option.splits)
    next
      case False
      then show ?thesis by (simp add: db3(5) IH(6) db'(5) emptied_def credited_def e Some d)
    qed
    moreover have "same_logs db db3" using db'(3) IH(4) db3(3) by (blast intro: same_logs_trans)
    moreover have "run_events (commit_event C X T to_plain) (e # evs) db = (Inr (), db1)"
      using db'(1) IH(1) by (simp add: e ev commit_event_def)
    moreover have "run_events (revert_event C T) (rev (e # evs)) db1 = (Inr (), db3)"
      using db3(1) IH(2) by (simp add: run_events_append e ev revert_event_def)
    ultimately show ?thesis using db3(2,4) IH(5) db'(4) by (auto simp: fun_eq_iff)
  qed
qed

end

section \<open>An instance of the parameters\<close>

text \<open>
  A host for the witnesses: a transaction is its gas limit and uses all of it (0 is invalid), the
  block data is the list of transactions, a recovered block is its number, every block has the
  bundle of \<open>demo_bundle\<close>, and a chain is one block with one transaction per event.
\<close>

definition ref_exec ::
  "(string, u64, u64, unit, u64, unit, string plain_changeset \<times> string plain_reverts, unit, unit, unit, unit) exec_api" where
  "ref_exec = \<lparr>transitions_at_block = (\<lambda>n. n = 0), initial_base_fee = 1000000000,
     next_block_base_fee = (\<lambda>_ _. Some 7), block_hash_of = (\<lambda>b. ucast b),
     is_eip4844 = (\<lambda>_. False), tx_hash = (\<lambda>t. ucast t), tx_type = (\<lambda>_. ()), tx_gas_limit = (\<lambda>t. t),
     tx_chain_id = (\<lambda>t. if t = 13 then None else Some CHAIN_ID),
     pool_get_blob = (\<lambda>_. Inr None), blobscan_transaction = (\<lambda>_. Inl (External ''blobscan'')),
     kzg_to_versioned_hash = (\<lambda>_. 0), rlp_hashes = (\<lambda>_. Inr []), blob_decode_all = (\<lambda>_. None),
     keccak256 = (\<lambda>d. word_of_nat (length d)), rlp_byte_strings = (\<lambda>d. Inr (map (\<lambda>x. [x]) d)),
     decode_2718 = (\<lambda>b. case b of [x] \<Rightarrow> Inr (ucast x) | _ \<Rightarrow> Inl SerdeError),
     try_recover = (\<lambda>_. Inr 9), evm_for_block = (\<lambda>_ _. Inr ()),
     evm_transact = (\<lambda>tx e. (if fst tx = 0 then Inl InvalidTransaction else Inr (fst tx, ()), e)),
     evm_commit = (\<lambda>_ e. e), merge_transitions = (\<lambda>e. e), take_bundle = (\<lambda>_. demo_bundle),
     res_gas_used = (\<lambda>r. r), res_success = (\<lambda>_. True), res_logs = (\<lambda>_. []),
     try_into_recovered = (\<lambda>(h, _). Inr (hd_number h))\<rparr>"

lemma ref_exec_gas: "gas_law ref_exec"
  by (simp add: gas_law_def ref_exec_def)

definition demo_header :: "u256 \<Rightarrow> zenith_header" where
  "demo_header n = \<lparr>zh_rollup_chain_id = 17001, zh_sequence = n, zh_confirm_by = 100, zh_gas_limit = 50,
     zh_reward_address = 0\<rparr>"

definition ref_chain :: "u256 \<Rightarrow> (rollup_event list, u64, u64, rollup_event, rollup_event) chain_api" where
  "ref_chain n = \<lparr>blocks_and_receipts = (\<lambda>evs. [(0, evs)]), transactions_of = (\<lambda>_. [1, 2, 3]),
     logs_of = (\<lambda>e. [e]), log_address = (\<lambda>_. ROLLUP_CONTRACT_ADDRESS), decode_raw_log = Some,
     abi_decode_input = (\<lambda>_. Inr (SubmitBlock (demo_header n) [20, 0, 30]))\<rparr>"

section \<open>Properties\<close>

text \<open>
  Property C7. Whatever notifications the rollup receives, and whether or not it stops with an
  error, its database stays well formed: every commit, revert and deposit, in any order, keeps
  the UNIQUE constraints and the parseable columns.
\<close>

theorem rollup_keeps_db_ok:
  assumes "rollup_text_ok T" "db_ok T (ro_db s)" "start_rollup A C X T to_plain ns s = (r, s')"
  shows "db_ok T (ro_db s')"
  by (rule run_exex_invariant [where I = "\<lambda>s. db_ok T (ro_db s)",
      OF rollup_text_ok.rollup_step_ok [OF assms(1)] assms(2) assms(3) [unfolded start_rollup_def]])

theorem rollup_keeps_db_ok_witness:
  "db_ok ref_text (ro_db (snd (start_rollup (std_exex_api length) (ref_chain 5) ref_exec ref_text (\<lambda>b. b)
     [Inr (ChainCommitted [Enter 17001 0 1 8, BlockSubmitted 3]), Inl (External ''stream'')]
     \<lparr>ro_db = demo_db, ro_events = \<lparr>finished_heights = [], receiver_gone = False\<rparr>\<rparr>)))"
  by (rule rollup_keeps_db_ok [OF ref.rollup_text_ok_axioms _ surjective_pairing]) (simp add: demo_db_ok)

text \<open>
  The rollup reports a finished height for every notification with a committed chain
  that it processed without an error, in order, with the number and hash of that chain's tip, and
  reports nothing else: when it stops early, the heights are those of the notifications before.
\<close>

lemma rollup_heights:
  "\<exists>done rest. ns = map Inr done @ rest \<and>
     finished_heights (ro_events (snd (start_rollup A C X T to_plain ns s))) =
       finished_heights (ro_events s) @ concat (map (owed_heights A) done) \<and>
     (case fst (start_rollup A C X T to_plain ns s) of Inr _ \<Rightarrow> rest = [] | Inl _ \<Rightarrow> rest \<noteq> [])"
  using rollup.run_heights [where A = A and C = C and X = X and T = T and to_plain = to_plain,
      OF surjective_pairing] by (simp add: start_rollup_def)

text \<open>
  Deposits: committing any sequence of events without submitted blocks (deposits to
  any recipients, in any amounts, and events that are ignored) and then reverting the same chain
  succeeds and restores every existing account, the storage and the blocks, although balances
  wrap. A recipient without an account before keeps an empty one.
\<close>

lemma deposits_roundtrip:
  assumes "rollup_text_ok T" "db_ok T db"
    and "\<forall>(_, _, ev) \<in> set (decode_chain_into_rollup_events C chain). \<not> submits_block ev"
  shows "\<exists>db1 db2. commit_chain C X T to_plain chain db = (Inr (), db1) \<and>
    revert_chain C T chain db1 = (Inr (), db2) \<and> db_ok T db2 \<and>
    block_tbl db2 = block_tbl db \<and> slot_view T db2 = slot_view T db \<and>
    (\<forall>a. acct_view T db2 a =
       (if acct_view T db a = None \<and> a \<in> set (depositors (decode_chain_into_rollup_events C chain))
        then Some (0, 0, code_hash (default_account T)) else acct_view T db a))"
  using rollup_text_ok.deposits_undone [OF assms, of C X to_plain]
  by (auto simp: commit_chain_def revert_chain_def same_logs_def rollup_text_ok.emptied_def [OF assms(1)] fun_eq_iff)

lemma deposits_roundtrip_witness:
  "\<exists>db1 db2. commit_chain (ref_chain 5) ref_exec ref_text (\<lambda>b. b) [Enter 17001 0 1 (- 2), OtherEvent] demo_db = (Inr (), db1) \<and>
    revert_chain (ref_chain 5) ref_text [Enter 17001 0 1 (- 2), OtherEvent] db1 = (Inr (), db2) \<and>
    acct_view ref_text db2 1 = Some (5, 0, 0)"
proof -
  have "\<forall>(_, _, ev) \<in> set (decode_chain_into_rollup_events (ref_chain 5) [Enter 17001 0 1 (- 2), OtherEvent]).
      \<not> submits_block ev"
    by (simp add: decode_chain_into_rollup_events_def logs_from_def ref_chain_def List.map_filter_def)
  from deposits_roundtrip [OF ref.rollup_text_ok_axioms demo_db_ok this, of ref_exec "\<lambda>b. b"]
  obtain db1 db2 where
    "commit_chain (ref_chain 5) ref_exec ref_text (\<lambda>b. b) [Enter 17001 0 1 (- 2), OtherEvent] demo_db = (Inr (), db1)"
    "revert_chain (ref_chain 5) ref_text [Enter 17001 0 1 (- 2), OtherEvent] db1 = (Inr (), db2)"
    "acct_view ref_text db2 1 = (if acct_view ref_text demo_db 1 = None \<and> 1 \<in> set (depositors
        (decode_chain_into_rollup_events (ref_chain 5) [Enter 17001 0 1 (- 2), OtherEvent]))
       then Some (0, 0, code_hash (default_account ref_text)) else acct_view ref_text demo_db 1)"
    by blast
  then show ?thesis by (intro exI[of _ db1] exI[of _ db2]) simp
qed

text \<open>
  A submitted block, through the handlers: when the block executes, committing its
  chain stores it, and reverting the chain brings back the accounts, the storage and the blocks,
  under the conditions of the round trip of the database and with the sequence of the submitted
  header as the number of the block.
\<close>

lemma commit_revert_block:
  assumes laws: "rollup_text_ok T" and ok: "db_ok T db"
    and ev: "decode_chain_into_rollup_events C chain = [(l1, tx, BlockSubmitted h)]"
    and call: "abi_decode_input C tx = Inr (SubmitBlock header block_data)"
    and exec: "execute_block X T db tx header block_data h = Inr (block, bundle, receipts, results)"
    and number: "zh_sequence header = ucast (block_number T block)"
    and plain: "to_plain bundle = (cs, rv)"
    and faithful: "faithful_reverts T db cs rv" and wipes: "no_wipes cs rv"
    and tip: "\<forall>k \<in> fst ` set (block_tbl db). k < dec_string (unat (block_number T block))"
    and fresh: "no_logs_for (dec_string (unat (block_number T block))) db"
  shows "\<exists>db1 db2. commit_chain C X T to_plain chain db = (Inr (), db1) \<and>
    get_block T db1 (zh_sequence header) = Inr (Some block) \<and>
    revert_chain C T chain db1 = (Inr (), db2) \<and>
    block_tbl db2 = block_tbl db \<and> acct_view T db2 = acct_view T db \<and> slot_value T db2 = slot_value T db"
proof -
  from rollup_text_ok.insert_then_revert [where to_plain = to_plain, OF laws ok plain faithful wipes tip fresh]
  obtain db1 db2 where "insert_block_with_bundle T to_plain db block bundle = (Inr (), db1)"
    "get_block T db1 (ucast (block_number T block)) = Inr (Some block)"
    "revert_tip_block T db1 (ucast (block_number T block)) = (Inr (), db2)"
    "block_tbl db2 = block_tbl db" "acct_view T db2 = acct_view T db" "slot_value T db2 = slot_value T db"
    by blast
  then show ?thesis
    by (intro exI[of _ db1] exI[of _ db2])
      (simp add: commit_chain_def revert_chain_def ev commit_event_def revert_event_def call exec number)
qed

lemma demo_faithful:
  "faithful_reverts ref_text demo_db (fst demo_bundle) (snd demo_bundle)" "no_wipes (fst demo_bundle) (snd demo_bundle)"
  by (simp_all add: faithful_reverts_def demo_bundle_def revert_slots_def slot_revert_value_def slot_value_def
      account_key_def demo_account_def no_wipes_def)

lemma demo_execute:
  "execute_block ref_exec ref_text demo_db 1 (demo_header 5) [20, 0, 30] 3 =
    Inr (5, demo_bundle, [\<lparr>rc_tx_type = (), rc_success = True, rc_cumulative_gas_used = 20, rc_logs = []\<rparr>,
      \<lparr>rc_tx_type = (), rc_success = True, rc_cumulative_gas_used = 50, rc_logs = []\<rparr>], [20, 30])"
proof -
  have "get_block ref_text demo_db 4 = Inr (Some 4)"
    by (simp add: get_block_def query_row_def ref.u256_decimal)
  then show ?thesis
    by (simp add: execute_block_def demo_header_def CHAIN_ID_def construct_header_def try_u64_def
        decode_transactions_def raw_transactions_def ref_exec_def execute_transactions_def no_progress_def Let_def)
qed

lemma commit_revert_block_witness:
  "\<exists>db1 db2. commit_chain (ref_chain 5) ref_exec ref_text (\<lambda>b. b) [BlockSubmitted 3] demo_db = (Inr (), db1) \<and>
    get_block ref_text db1 5 = Inr (Some 5) \<and>
    revert_chain (ref_chain 5) ref_text [BlockSubmitted 3] db1 = (Inr (), db2) \<and>
    block_tbl db2 = block_tbl demo_db \<and> acct_view ref_text db2 = acct_view ref_text demo_db \<and>
    slot_value ref_text db2 = slot_value ref_text demo_db"
proof -
  have ev: "decode_chain_into_rollup_events (ref_chain 5) [BlockSubmitted 3] = [(0, 1, BlockSubmitted 3)]"
    by (simp add: decode_chain_into_rollup_events_def logs_from_def ref_chain_def List.map_filter_def)
  have call: "abi_decode_input (ref_chain 5) 1 = Inr (SubmitBlock (demo_header 5) [20, 0, 30])"
    by (simp add: ref_chain_def)
  show ?thesis
    using commit_revert_block [where to_plain = "\<lambda>b. b", OF ref.rollup_text_ok_axioms demo_db_ok ev call
        demo_execute _ surjective_pairing demo_faithful]
    by (simp add: demo_header_def no_logs_for_def)
qed

text \<open>
  Property C38. A submitted block whose execution fails is skipped on commit, with the database
  unchanged, but reverting its chain still reverts a block: unless the sequence happens to be the
  stored tip, the revert fails, and the failure stops the rollup.
\<close>

theorem failed_block_cannot_be_reverted:
  assumes laws: "rollup_text_ok T" and ok: "db_ok T db"
    and ev: "decode_chain_into_rollup_events C chain = [(l1, tx, BlockSubmitted h)]"
    and call: "abi_decode_input C tx = Inr (SubmitBlock header block_data)"
    and exec: "execute_block X T db tx header block_data h = Inl e"
    and tip: "u256_to_string T (zh_sequence header) \<notin> fst ` set (block_tbl db)"
    and api: "exex_api_ok A"
  shows "commit_chain C X T to_plain chain db = (Inr (), db) \<and>
    (\<exists>e. rollup_step A C X T to_plain (ChainReverted chain) \<lparr>ro_db = db, ro_events = evs\<rparr> =
      (Inl e, \<lparr>ro_db = db, ro_events = evs\<rparr>))"
proof -
  have "\<not> (block_tbl db \<noteq> [] \<and> Max (set (map fst (block_tbl db))) = u256_to_string T (zh_sequence header))"
  proof
    assume m: "block_tbl db \<noteq> [] \<and> Max (set (map fst (block_tbl db))) = u256_to_string T (zh_sequence header)"
    then have "Max (set (map fst (block_tbl db))) \<in> set (map fst (block_tbl db))" by (intro Max_in) auto
    with m tip show False by auto
  qed
  with rollup_text_ok.revert_body_cases [OF laws ok, of "zh_sequence header"]
  obtain e' where "revert_tip_body T (zh_sequence header) db = Inl e'" by metis
  then show ?thesis
    by (simp add: commit_chain_def ev commit_event_def call exec rollup_step_def revert_chain_def
        revert_event_def revert_tip_block_def api)
qed

theorem failed_block_cannot_be_reverted_witness:
  "commit_chain (ref_chain 6) ref_exec ref_text (\<lambda>b. b) [BlockSubmitted 3] demo_db = (Inr (), demo_db) \<and>
   (\<exists>e. rollup_step (std_exex_api length) (ref_chain 6) ref_exec ref_text (\<lambda>b. b) (ChainReverted [BlockSubmitted 3])
      \<lparr>ro_db = demo_db, ro_events = \<lparr>finished_heights = [], receiver_gone = False\<rparr>\<rparr> =
      (Inl e, \<lparr>ro_db = demo_db, ro_events = \<lparr>finished_heights = [], receiver_gone = False\<rparr>\<rparr>))"
proof -
  have ev: "decode_chain_into_rollup_events (ref_chain 6) [BlockSubmitted 3] = [(0, 1, BlockSubmitted 3)]"
    by (simp add: decode_chain_into_rollup_events_def logs_from_def ref_chain_def List.map_filter_def)
  have call: "abi_decode_input (ref_chain 6) 1 = Inr (SubmitBlock (demo_header 6) [20, 0, 30])"
    by (simp add: ref_chain_def)
  have "get_block ref_text demo_db 5 = Inr None"
    by (simp add: get_block_def query_row_def ref.u256_decimal)
  then have exec: "execute_block ref_exec ref_text demo_db 1 (demo_header 6) [20, 0, 30] 3 = Inl (Eyre ''parent block not found'')"
    by (simp add: execute_block_def demo_header_def CHAIN_ID_def construct_header_def try_u64_def ref_exec_def)
  show ?thesis
    by (rule failed_block_cannot_be_reverted [OF ref.rollup_text_ok_axioms demo_db_ok ev call exec])
      (simp_all add: demo_header_def ref.u256_decimal)
qed

text \<open>
  Property C25. Gas accounting of a block, when a transaction uses no more than its gas limit: the
  subtraction and the sums in the loop never wrap, the total is at most the block's gas limit, the
  executed transactions are those of the input that were not skipped, in order, with one result
  each, and the receipts are those of the executed transactions with the running total of the gas.
\<close>

theorem block_gas_accounting:
  assumes "gas_law X" "execute_transactions X h txs evm = (Inr pg, evm')"
  shows "subseq (pg_executed_txs pg) (map fst txs) \<and> length (pg_results pg) = length (pg_executed_txs pg) \<and>
    pg_receipts pg = receipts_of X 0 (pg_executed_txs pg) (pg_results pg) \<and>
    unat (pg_cumulative_gas_used pg) = gas_total X (pg_results pg) \<and>
    gas_total X (pg_results pg) \<le> unat (hd_gas_limit h)"
proof (cases "txs = []")
  case True
  with assms(2) show ?thesis by (auto simp: execute_transactions_def no_progress_def gas_total_def)
next
  case False
  with assms(2) obtain evm1 where "execute_loop X h txs no_progress evm = (Inr pg, evm1)"
    by (auto simp: execute_transactions_def split: prod.splits sum.splits)
  from execute_loop_ok [OF assms(1) _ this] show ?thesis
    by (auto simp: no_progress_def word_le_nat_alt)
qed

theorem block_gas_accounting_witness:
  "\<exists>pg. execute_transactions ref_exec \<lparr>hd_parent_hash = 0, hd_number = 5, hd_gas_limit = 50, hd_timestamp = 1,
      hd_base_fee_per_gas = None\<rparr> [(20, 9), (0, 9), (30, 9)] () = (Inr pg, ()) \<and>
    pg_executed_txs pg = [20, 30] \<and> gas_total ref_exec (pg_results pg) = unat (pg_cumulative_gas_used pg)"
proof -
  have run: "execute_transactions ref_exec \<lparr>hd_parent_hash = 0, hd_number = 5, hd_gas_limit = 50, hd_timestamp = 1,
      hd_base_fee_per_gas = None\<rparr> [(20, 9), (0, 9), (30, 9)] () =
    (Inr \<lparr>pg_cumulative_gas_used = 50, pg_executed_txs = [20, 30],
      pg_receipts = [\<lparr>rc_tx_type = (), rc_success = True, rc_cumulative_gas_used = 20, rc_logs = []\<rparr>,
        \<lparr>rc_tx_type = (), rc_success = True, rc_cumulative_gas_used = 50, rc_logs = []\<rparr>],
      pg_results = [20, 30]\<rparr>, ())"
    by (simp add: execute_transactions_def ref_exec_def no_progress_def Let_def)
  from block_gas_accounting [OF ref_exec_gas run] run show ?thesis by auto
qed

text \<open>
  Property C26. What the decoder accepts: the raw transactions (from the blobs or from the call)
  hash to the announced block data hash, every one of them decodes, and the result is those with
  the rollup's chain id, in order, each with its recovered sender. One undecodable transaction, or
  one of the rollup's whose signer cannot be recovered, rejects the block.
\<close>

theorem decode_transactions_iff:
  "decode_transactions X tx block_data h = Inr rts \<longleftrightarrow>
     (\<exists>raw raws ts. raw_transactions X tx block_data h = Inr raw \<and> keccak256 X raw = h \<and>
       rlp_byte_strings X raw = Inr raws \<and>
       list_all2 (\<lambda>raw t. decode_2718 X raw = Inr t) raws ts \<and>
       list_all2 (\<lambda>t (t', a). t' = t \<and> try_recover X t = Inr a)
         (filter (\<lambda>t. tx_chain_id X t = Some CHAIN_ID) ts) rts)"
proof -
  have "raw_transactions X tx block_data h = Inr raw \<Longrightarrow> keccak256 X raw = h" for raw
    by (auto simp: raw_transactions_def res split: if_splits)
  then show ?thesis
    by (auto simp: decode_transactions_def res recover_transactions_iff)
qed

text \<open>
  Blocks are chained by their parent hash: once a block is inserted, the header that
  is built for the next sequence number has the next number and the hash of that block as its
  parent, whatever else the database holds.
\<close>

lemma header_links_to_parent:
  assumes "rollup_text_ok T" "db_ok T db" "insert_block_with_bundle T to_plain db block b = (Inr (), db1)"
    and seq: "zh_sequence h = ucast (block_number T block) + 1" "block_number T block \<noteq> - 1"
    and u64: "unat (zh_confirm_by h) < 2 ^ 64" "unat (zh_gas_limit h) < 2 ^ 64"
    and fee: "\<not> transitions_at_block X (block_number T block + 1)"
      "next_block_base_fee X block (ucast (zh_confirm_by h)) = Some fee"
  shows "construct_header X T db1 h = Inr \<lparr>hd_parent_hash = block_hash_of X block,
    hd_number = block_number T block + 1, hd_gas_limit = ucast (zh_gas_limit h),
    hd_timestamp = ucast (zh_confirm_by h), hd_base_fee_per_gas = Some fee\<rparr>"
proof -
  obtain cs rv where plain: "to_plain b = (cs, rv)" by (cases "to_plain b")
  let ?n = "block_number T block" and ?num = "dec_string (unat (block_number T block))"
  have new: "?num \<notin> fst ` set (block_tbl db)" and
    blocks: "block_tbl db1 = block_tbl db @ [(?num, the (block_to_json T block))]"
    using rollup_text_ok.insert_body_cases [where to_plain = to_plain, OF assms(1,2) plain, of block] assms(3)
    by (auto simp: insert_block_with_bundle_def in_transaction_Inr_iff split: if_splits)
  obtain j where j: "block_to_json T block = Some j" "block_from_json T j = Some block"
    using rollup_text_ok.block_rt [OF assms(1)] by blast
  have "map_of (block_tbl db) ?num = None" using new by (simp add: map_of_eq_None_iff)
  then have get: "get_block T db1 (ucast ?n) = Inr (Some block)"
    using rollup_text_ok.number_text [OF assms(1), of ?n]
    by (simp add: get_block_def query_row_def blocks map_add_def j)
  have lt: "unat ?n + 1 < 2 ^ 64"
  proof -
    have "unat ?n \<noteq> unat (- 1 :: u64)" using seq(2) by (simp add: word_unat_eq_iff [symmetric])
    moreover have "unat (- 1 :: u64) = 2 ^ 64 - 1" by (simp add: unsigned_minus_1_eq_mask mask_eq_exp_minus_1)
    moreover have "unat ?n < 2 ^ 64" using unsigned_less[of ?n, where 'a = nat] by simp
    ultimately show ?thesis by simp
  qed
  have s1: "unat (zh_sequence h) = unat ?n + 1"
    using lt by (simp add: seq(1) unat_word_ariths)
  have "ucast (zh_sequence h) = ?n + 1"
    using s1 lt by (simp add: word_unat_eq_iff unsigned_ucast_eq take_bit_nat_eq_self unat_word_ariths)
  moreover have "zh_sequence h \<noteq> 0" using s1 by auto
  ultimately show ?thesis
    using get s1 lt u64 fee seq(1) by (simp add: construct_header_def try_u64_def)
qed

lemma header_links_to_parent_witness:
  "\<exists>db1. insert_block_with_bundle ref_text (\<lambda>b. b) demo_db 5 demo_bundle = (Inr (), db1) \<and>
     construct_header ref_exec ref_text db1 (demo_header 6) = Inr \<lparr>hd_parent_hash = 5, hd_number = 6,
       hd_gas_limit = 50, hd_timestamp = 100, hd_base_fee_per_gas = Some 7\<rparr>"
proof -
  have "\<not> (dec_string 5 = dec_string 4)" by simp
  then obtain db1 where ins: "insert_block_with_bundle ref_text (\<lambda>b. b) demo_db 5 demo_bundle = (Inr (), db1)"
    using ref.insert_body_cases [where to_plain = "\<lambda>b. b" and block = 5,
        OF demo_db_ok surjective_pairing [of demo_bundle]]
    by (auto simp: demo_bundle_def insert_block_with_bundle_def)
  have "(5 :: u64) \<noteq> - 1" by simp
  then show ?thesis
    using header_links_to_parent [OF ref.rollup_text_ok_axioms demo_db_ok ins, of "demo_header 6" ref_exec 7] ins
    by (simp add: demo_header_def ref_exec_def)
qed

end
