(* ===== verification/Rollup_Blobs.thy ===== *)
theory Rollup_Blobs
  imports Rollup_Main_Props
begin

text \<open>
  Submitting a rollup block: the data goes into the call itself or into blobs, of which the call
  then lists the versioned hashes. The submitter is the one of the tests (\<open>execute_transaction\<close> of
  rollup/src/execution.rs); alloy's RLP and its sidecar builder are a parameter, with their round
  trips as the assumptions of the locale \<open>blob_submission\<close>, next to the decoders of \<open>exec_api\<close>.
\<close>

section \<open>The submitter\<close>

record ('key, 'body, 'tx, 'blob, 'cmt) submitter =
  sign_tx :: "'key \<Rightarrow> 'body \<Rightarrow> 'tx" \<comment> \<open>\<open>sign_tx_with_key_pair\<close>\<close>
  encode_2718 :: "'tx \<Rightarrow> bytes"
  rlp_encode_strings :: "bytes list \<Rightarrow> bytes"
  rlp_encode_hashes :: "b256 list \<Rightarrow> bytes"
  build_sidecar :: "bytes \<Rightarrow> err + 'blob list \<times> 'cmt list" \<comment> \<open>\<open>SidecarBuilder::<SimpleCoder>\<close>\<close>
  default_body :: 'body \<comment> \<open>\<open>TxEip2930::default()\<close>\<close>
  blob_body :: "'blob list \<times> 'cmt list \<Rightarrow> 'body" \<comment> \<open>\<open>MockTransaction::eip4844_with_sidecar\<close>\<close>
  pool_add :: "'tx \<Rightarrow> err + unit" \<comment> \<open>what \<open>add_transaction\<close> of a fresh pool answers\<close>

text \<open>\<open>sidecar.versioned_hashes()\<close>.\<close>

definition versioned_hashes ::
  "('code, 'b, 'tx, 'e, 'res, 'st, 'bundle, 'blob, 'cmt, 'ty, 'log) exec_api \<Rightarrow> 'cmt list \<Rightarrow> b256 list" where
  "versioned_hashes X cmts = map (kzg_to_versioned_hash X) cmts"

locale blob_submission =
  fixes X :: "('code, 'b, 'tx, 'e, 'res, 'st, 'bundle, 'blob, 'cmt, 'ty, 'log) exec_api"
    and S :: "('key, 'body, 'tx, 'blob, 'cmt) submitter"
  assumes hashes_rt: "rlp_hashes X (rlp_encode_hashes S hs) = Inr hs"
    and strings_rt: "rlp_byte_strings X (rlp_encode_strings S raws) = Inr raws"
    and sidecar_rt: "build_sidecar S data = Inr (blobs, cmts) \<Longrightarrow>
      length blobs = length cmts \<and> (\<exists>chunks. blob_decode_all X blobs = Some chunks \<and> concat chunks = data)"
begin

text \<open>Of a sidecar that holds other blobs too, the filter keeps the ones that are listed.\<close>

lemma own_blobs:
  assumes "length pre = length pre_cmts" "length blobs = length cmts"
    and "\<forall>c \<in> set pre_cmts \<union> set post_cmts. kzg_to_versioned_hash X c \<notin> set (versioned_hashes X cmts)"
  shows "map fst (filter (\<lambda>(_, hash). hash \<in> set (versioned_hashes X cmts))
    (map (\<lambda>(blob, commitment). (blob, kzg_to_versioned_hash X commitment))
      (zip (pre @ blobs @ post) (pre_cmts @ cmts @ post_cmts)))) = blobs"
proof -
  have none: "filter ((\<lambda>(_, hash). hash \<in> H) \<circ> (\<lambda>(b, c). (b, kzg_to_versioned_hash X c))) (zip bs cs) = []"
    if "\<forall>c \<in> set cs. kzg_to_versioned_hash X c \<notin> H" for bs cs H
    using that by (auto simp: filter_empty_conv dest: set_zip_rightD)
  have all: "filter ((\<lambda>(_, hash). hash \<in> set (versioned_hashes X cmts)) \<circ> (\<lambda>(b, c). (b, kzg_to_versioned_hash X c)))
      (zip blobs cmts) = zip blobs cmts"
    by (auto simp: filter_id_conv versioned_hashes_def dest: set_zip_rightD)
  have "map (fst \<circ> (\<lambda>(b, c). (b, kzg_to_versioned_hash X c))) (zip blobs cmts) = map fst (zip blobs cmts)" by auto
  with assms show ?thesis by (simp add: filter_map zip_append1 none all)
qed

lemma blob_data_read:
  assumes "build_sidecar S data = Inr (blobs, cmts)" "is_eip4844 X tx"
    and "find_blobs X tx = Inr (zip (pre @ blobs @ post) (pre_cmts @ cmts @ post_cmts))" "length pre = length pre_cmts"
    and "\<forall>c \<in> set pre_cmts \<union> set post_cmts. kzg_to_versioned_hash X c \<notin> set (versioned_hashes X cmts)"
    and "\<not> is_eip4844 X tx'"
  shows "raw_transactions X tx (rlp_encode_hashes S (versioned_hashes X cmts)) h = raw_transactions X tx' data h"
proof -
  from sidecar_rt [OF assms(1)] obtain chunks where len: "length blobs = length cmts"
    and chunks: "blob_decode_all X blobs = Some chunks" "concat chunks = data" by blast
  have "length blobs = length (versioned_hashes X cmts)" by (simp add: versioned_hashes_def len)
  then show ?thesis
    using own_blobs [OF assms(4) len assms(5), of post] assms(2,3,6) chunks
    by (simp add: raw_transactions_def hashes_rt del: length_map)
qed

end

text \<open>A block is executed for its transactions: the L1 transaction matters only through them.\<close>

lemma execute_block_cong:
  "decode_transactions X tx d h = decode_transactions X tx' d' h \<Longrightarrow>
    execute_block X T db tx header d h = execute_block X T db tx' header d' h"
  by (simp add: execute_block_def)

text \<open>
  Property C13. Blobs are as good as calldata: let the data of a block be encoded into blobs and
  let the submission list their versioned hashes. Whether the node's pool still has the blobs or
  they come from Blobscan, and whatever other blobs the same transaction carries, executing the
  submission gives what executing the data in the call itself gives, errors included.
\<close>

theorem blobs_execute_like_calldata:
  assumes "blob_submission X S"
    and "build_sidecar S data = Inr (blobs, cmts)" "is_eip4844 X tx" "\<not> is_eip4844 X tx'"
    and "pool_get_blob X (tx_hash X tx) = Inr (Some (Eip4844 (pre @ blobs @ post) (pre_cmts @ cmts @ post_cmts))) \<or>
      pool_get_blob X (tx_hash X tx) = Inr None \<and>
      blobscan_transaction X (tx_hash X tx) = Inr (pre @ blobs @ post, pre_cmts @ cmts @ post_cmts)"
    and "length pre = length pre_cmts"
    and "\<forall>c \<in> set pre_cmts \<union> set post_cmts. kzg_to_versioned_hash X c \<notin> set (versioned_hashes X cmts)"
  shows "execute_block X T db tx header (rlp_encode_hashes S (versioned_hashes X cmts)) h =
    execute_block X T db tx' header data h"
proof -
  have "find_blobs X tx = Inr (zip (pre @ blobs @ post) (pre_cmts @ cmts @ post_cmts))"
    using assms(5) by (auto simp: find_blobs_def)
  from blob_submission.blob_data_read [OF assms(1-3) this assms(6,7,4)]
  show ?thesis by (intro execute_block_cong) (simp add: decode_transactions_def)
qed

section \<open>An instance with blobs\<close>

text \<open>
  A blob holds one byte and is its own commitment, lists are framed, L1 transactions from 200 on
  carry blobs (the pool knows those of 200, Blobscan the others). The EVM reads the balance of
  account 1 and its slot 2 when it is set up, and a transaction succeeds when their sum is not 0.
\<close>

definition demo_raws :: "bytes list" where
  "demo_raws = [[20], [0], [30]]"

definition demo_data :: bytes where
  "demo_data = concat (map frame demo_raws)"

definition demo_blobs :: "bytes list" where
  "demo_blobs = [99] # map (\<lambda>b. [b]) demo_data"

definition read_sum :: "string evm_database \<Rightarrow> u256" where
  "read_sum D = (case ed_basic D 1 of Inr (Some acc) \<Rightarrow> balance acc | _ \<Rightarrow> 0) +
     (case ed_storage D 1 2 of Inr v \<Rightarrow> v | Inl _ \<Rightarrow> 0)"

definition blob_exec ::
  "(string, u64, u64, u256, u64 \<times> u256, unit, string plain_changeset \<times> string plain_reverts, bytes, bytes, unit, unit) exec_api" where
  "blob_exec = \<lparr>transitions_at_block = (\<lambda>n. n = 0), initial_base_fee = 1000000000,
     next_block_base_fee = (\<lambda>_ _. Some 7), block_hash_of = (\<lambda>b. ucast b),
     is_eip4844 = (\<lambda>t. 200 \<le> t), tx_hash = (\<lambda>t. ucast t), tx_type = (\<lambda>_. ()), tx_gas_limit = (\<lambda>t. t),
     tx_chain_id = (\<lambda>_. Some CHAIN_ID),
     pool_get_blob = (\<lambda>h. Inr (if h = 200 then Some (Eip4844 demo_blobs demo_blobs) else None)),
     blobscan_transaction = (\<lambda>_. Inr (demo_blobs, demo_blobs)),
     kzg_to_versioned_hash = (\<lambda>c. case c of [b] \<Rightarrow> ucast b | _ \<Rightarrow> 1000),
     rlp_hashes = (\<lambda>d. ok_or SerdeError (map_option (map (hex_word \<circ> text_of)) (unframes [] d))),
     blob_decode_all = Some, keccak256 = (\<lambda>d. word_of_nat (length d)),
     rlp_byte_strings = (\<lambda>d. ok_or SerdeError (unframes [] d)),
     decode_2718 = (\<lambda>b. case b of [x] \<Rightarrow> Inr (ucast x) | _ \<Rightarrow> Inl SerdeError),
     try_recover = (\<lambda>_. Inr 9), evm_for_block = (\<lambda>D _. Inr (read_sum D)),
     evm_transact = (\<lambda>tx e. (if fst tx = 0 then Inl InvalidTransaction else Inr ((fst tx, e), ()), e)),
     evm_commit = (\<lambda>_ e. e), merge_transitions = (\<lambda>e. e), take_bundle = (\<lambda>_. demo_bundle),
     res_gas_used = fst, res_success = (\<lambda>r. snd r \<noteq> 0), res_logs = (\<lambda>_. []),
     try_into_recovered = (\<lambda>(h, _). Inr (hd_number h))\<rparr>"

definition blob_submitter :: "(unit, u64, u64, bytes, bytes) submitter" where
  "blob_submitter = \<lparr>sign_tx = (\<lambda>_ body. body), encode_2718 = (\<lambda>tx. [ucast tx]),
     rlp_encode_strings = (\<lambda>raws. concat (map frame raws)),
     rlp_encode_hashes = (\<lambda>hs. concat (map frame (map (text_bytes \<circ> word_hex 64) hs))),
     build_sidecar = (\<lambda>data. Inr (map (\<lambda>b. [b]) data, map (\<lambda>b. [b]) data)),
     default_body = 1, blob_body = (\<lambda>_. 200), pool_add = (\<lambda>_. Inr ())\<rparr>"

lemma unframes_map: "unframes [] (concat (map (\<lambda>x. frame (f x)) xs)) = Some (map f xs)"
  using unframes_frames [of "map f xs"] by (simp add: comp_def)

interpretation blobs: blob_submission blob_exec blob_submitter
  by unfold_locales (auto simp: blob_exec_def blob_submitter_def unframes_frames unframes_map comp_def hex_word_hex)

text \<open>Both the pool's blobs and Blobscan's, among them one that is not listed.\<close>

theorem blobs_execute_like_calldata_witness:
  "execute_block blob_exec ref_text demo_db 200 (demo_header 5) (rlp_encode_hashes blob_submitter (versioned_hashes blob_exec (tl demo_blobs))) 9 =
     execute_block blob_exec ref_text demo_db 1 (demo_header 5) demo_data 9 \<and>
   execute_block blob_exec ref_text demo_db 201 (demo_header 5) (rlp_encode_hashes blob_submitter (versioned_hashes blob_exec (tl demo_blobs))) 9 =
     execute_block blob_exec ref_text demo_db 1 (demo_header 5) demo_data 9"
proof -
  have build: "build_sidecar blob_submitter demo_data = Inr (tl demo_blobs, tl demo_blobs)"
    by (simp add: blob_submitter_def demo_blobs_def)
  have api: "pool_get_blob blob_exec (tx_hash blob_exec 200) = Inr (Some (Eip4844 ([[99]] @ tl demo_blobs @ []) ([[99]] @ tl demo_blobs @ [])))"
    "pool_get_blob blob_exec (tx_hash blob_exec 201) = Inr None"
    "blobscan_transaction blob_exec (tx_hash blob_exec 201) = Inr ([[99]] @ tl demo_blobs @ [], [[99]] @ tl demo_blobs @ [])"
    "is_eip4844 blob_exec 200" "is_eip4844 blob_exec 201" "\<not> is_eip4844 blob_exec 1"
    by (simp_all add: blob_exec_def demo_blobs_def word_le_nat_alt)
  have other: "\<forall>c \<in> set [[99]] \<union> set []. kzg_to_versioned_hash blob_exec c \<notin> set (versioned_hashes blob_exec (tl demo_blobs))"
    by (simp add: blob_exec_def versioned_hashes_def demo_blobs_def demo_data_def demo_raws_def frame_def)
  show ?thesis
    using blobs_execute_like_calldata [OF blobs.blob_submission_axioms build api(4,6) disjI1 [OF api(1)] _ other]
      blobs_execute_like_calldata [OF blobs.blob_submission_axioms build api(5,6) disjI2 [OF conjI [OF api(2,3)]] _ other]
    by simp
qed

end
