(* ===== verification/Rollup_Replay.thy ===== *)
theory Rollup_Replay
  imports Rollup_Blobs
begin

text \<open>
  A reverted block leaves no trace for the next one: the EVM reads the database after the revert
  as it read it before the block, so whatever is executed next gives the same result. The law of
  the EVM that this needs (\<open>evm_reads\<close>) is that it sees a database only through the values it
  reads, and an account's code only as the code stored under the account's code hash.
\<close>

section \<open>Databases that the EVM cannot tell apart\<close>

definition same_reads :: "'code evm_database \<Rightarrow> 'code evm_database \<Rightarrow> bool" where
  "same_reads D D' \<longleftrightarrow>
     (\<forall>a. rel_sum (=) (rel_option (\<lambda>acc acc'. account_key acc = account_key acc' \<and>
        ed_code_by_hash D (code_hash acc) = ed_code_by_hash D' (code_hash acc))) (ed_basic D a) (ed_basic D' a)) \<and>
     ed_storage D = ed_storage D' \<and> ed_block_hash D = ed_block_hash D'"

definition block_outcome ::
  "('code, 'b, 'tx, 'e, 'res, 'st, 'bundle, 'blob, 'cmt, 'ty, 'log) exec_api \<Rightarrow> 'code evm_database \<Rightarrow>
   header \<Rightarrow> ('tx \<times> address) list \<Rightarrow> err + ('tx, 'ty, 'log, 'res) progress \<times> 'bundle" where
  "block_outcome X D header txs = and_then (evm_for_block X D header) (\<lambda>evm.
     case execute_transactions X header txs evm of (Inl e, _) \<Rightarrow> Inl e | (Inr pg, evm) \<Rightarrow> Inr (pg, take_bundle X evm))"

definition evm_reads ::
  "('code, 'b, 'tx, 'e, 'res, 'st, 'bundle, 'blob, 'cmt, 'ty, 'log) exec_api \<Rightarrow> bool" where
  "evm_reads X \<longleftrightarrow> (\<forall>D D' header txs. same_reads D D' \<longrightarrow> block_outcome X D header txs = block_outcome X D' header txs)"

lemma execute_block_outcome:
  "execute_block X T db tx h d hash =
     (if zh_rollup_chain_id h \<noteq> ucast CHAIN_ID then Inl (Eyre ''Invalid rollup chain ID'') else
      and_then (construct_header X T db h) (\<lambda>header. and_then (decode_transactions X tx d hash) (\<lambda>transactions.
      and_then (block_outcome X (database_of T db) header transactions) (\<lambda>(pg, bundle).
      and_then (try_into_recovered X (header, pg_executed_txs pg)) (\<lambda>block.
      Inr (block, bundle, pg_receipts pg, pg_results pg))))))"
proof -
  have "(case execute_transactions X header txs evm of (Inl e, evm) \<Rightarrow> Inl e
      | (Inr pg, evm) \<Rightarrow> and_then (try_into_recovered X (header, pg_executed_txs pg)) (\<lambda>block.
          Inr (block, take_bundle X evm, pg_receipts pg, pg_results pg))) =
    and_then (case execute_transactions X header txs evm of (Inl e, _) \<Rightarrow> Inl e | (Inr pg, evm) \<Rightarrow> Inr (pg, take_bundle X evm))
      (\<lambda>(pg, bundle). and_then (try_into_recovered X (header, pg_executed_txs pg)) (\<lambda>block.
        Inr (block, bundle, pg_receipts pg, pg_results pg)))" for header txs evm
    by (simp split: prod.splits sum.splits)
  then show ?thesis by (simp add: execute_block_def block_outcome_def and_then_assoc)
qed

lemma execute_block_same_reads:
  assumes "evm_reads X" "same_reads (database_of T db) (database_of T db')" "block_tbl db = block_tbl db'"
  shows "execute_block X T db tx h d hash = execute_block X T db' tx h d hash"
proof -
  have "construct_header X T db h = construct_header X T db' h"
    by (simp add: construct_header_def get_block_def assms(3))
  moreover have "block_outcome X (database_of T db) header txs = block_outcome X (database_of T db') header txs" for header txs
    using assms(1,2) by (simp add: evm_reads_def)
  ultimately show ?thesis by (simp add: execute_block_outcome)
qed

section \<open>The bytecode of an inserted block\<close>

text \<open>Contracts are stored for good: an insertion adds those that are not stored yet, a revert removes none.\<close>

context rollup_text_ok
begin

lemma map_of_write_contracts:
  "map_of (bytecode_tbl (write_contracts T cs tx)) (b256_to_string T h) =
     (case map_of (bytecode_tbl tx) (b256_to_string T h) of
        None \<Rightarrow> map_option (bytecode_to_string T) (map_of cs h) | Some d \<Rightarrow> Some d)"
proof (induction cs arbitrary: tx)
  case (Cons c cs)
  obtain k bc where c: "c = (k, bc)" by (cases c)
  let ?tx = "tx\<lparr>bytecode_tbl := insert_or_ignore (b256_to_string T k) (bytecode_to_string T bc) (bytecode_tbl tx)\<rparr>"
  have "write_contracts T (c # cs) tx = write_contracts T cs ?tx" by (simp add: write_contracts_def c)
  with Cons.IH [of ?tx] show ?case
    by (auto simp: c map_of_insert_or_ignore split: option.splits)
qed (simp add: write_contracts_def split: option.splits)

lemma write_contracts_only:
  "bytecode_tbl (write_contracts T cs tx) = bytecode_tbl (write_contracts T cs tx')" if "bytecode_tbl tx = bytecode_tbl tx'"
  using that
proof (induction cs arbitrary: tx tx')
  case (Cons c cs)
  obtain k bc where "c = (k, bc)" by (cases c)
  with Cons show ?case by (simp add: write_contracts_def)
qed (simp add: write_contracts_def)

lemma insert_body_bytecode:
  assumes ok: "db_ok T db" and plain: "to_plain bundle = (cs, rv)"
    and ins: "insert_block_body T to_plain block bundle db = Inr db'"
  shows "bytecode_tbl db' = bytecode_tbl (write_contracts T (ch_contracts cs) db)"
proof -
  let ?num = "dec_string (unat (block_number T block))"
  from insert_body_cases [where to_plain = to_plain, OF ok plain, of block] ins
  have one: "length (rv_accounts rv) \<le> 1" "length (rv_storage rv) \<le> 1" by (auto split: if_splits)
  from ins obtain j bt where j: "block_to_json T block = Some j" and bt: "insert_row ''block'' ?num j (block_tbl db) = Inr bt"
    by (auto simp: insert_block_body_def Let_def res)
  define tx1 where "tx1 = fold (write_account T) (ch_accounts cs) (db\<lparr>block_tbl := bt\<rparr>)"
  define tx2 where "tx2 = tx1\<lparr>account_revert_tbl :=
      upsert_rows (map (account_revert_row T ?num) (concat (rv_accounts rv))) (account_revert_tbl tx1)\<rparr>"
  define tx3 where "tx3 = fold (write_storage_changeset T) (ch_storage cs) tx2"
  obtain j' where block: "block_from_json T j \<noteq> None" using block_rt [of block] j by auto
  have ok1: "db_ok T tx1"
    unfolding tx1_def by (rule db_ok_write_accounts [OF db_ok_block [OF ok bt block]])
  have ok2: "db_ok T tx2" unfolding tx2_def by (rule db_ok_write_account_reverts [OF ok1])
  have f3: "same_logs tx2 tx3" "db_ok T tx3"
    using storage_changesets_ok [of tx2 "ch_storage cs", folded tx3_def] ok2 by auto
  from write_storage_reverts_total [OF f3(2), of ?num "concat (rv_storage rv)"] obtain tbl where
    tbl: "write_storage_reverts T ?num (concat (rv_storage rv)) tx3 = Inr (tx3\<lparr>storage_revert_tbl := tbl\<rparr>)" by blast
  have a: "(case rv_accounts rv of [] \<Rightarrow> Inr tx1 | rs # _ \<Rightarrow> write_account_reverts T ?num rs tx1) = Inr tx2"
    using one(1) by (cases "rv_accounts rv") (auto simp: write_account_reverts_eq tx2_def)
  have b: "(case rv_storage rv of [] \<Rightarrow> Inr tx3 | rs # _ \<Rightarrow> write_storage_reverts T ?num rs tx3)
      = Inr (tx3\<lparr>storage_revert_tbl := tbl\<rparr>)"
    using one(2) tbl by (cases "rv_storage rv") auto
  have w: "write_accounts T (ch_accounts cs) (db\<lparr>block_tbl := bt\<rparr>) = Inr tx1"
    by (simp add: write_accounts_eq tx1_def)
  have e3: "fold (write_storage_changeset T) (ch_storage cs) tx2 = tx3" by (simp add: tx3_def)
  have "db' = write_contracts T (ch_contracts cs) (tx3\<lparr>storage_revert_tbl := tbl\<rparr>)"
    using ins one unfolding insert_block_body_def Let_def j ok_or_simps and_then_simps bt plain prod.case w
    by (simp add: a b e3 cong: list.case_cong)
  moreover have "bytecode_tbl tx3 = bytecode_tbl db"
    using f3(1) write_accounts_frame [of "db\<lparr>block_tbl := bt\<rparr>" "ch_accounts cs", folded tx1_def]
    by (simp add: same_logs_def tx2_def)
  ultimately show ?thesis by (simp add: write_contracts_only [of "tx3\<lparr>storage_revert_tbl := tbl\<rparr>" db])
qed

text \<open>No new contract takes the code hash of an account whose code is not stored.\<close>

definition keeps_codes :: "rollup_db \<Rightarrow> (b256 \<times> 'code) list \<Rightarrow> bool" where
  "keeps_codes db contracts \<longleftrightarrow> (\<forall>a bal n h. acct_view T db a = Some (bal, n, h) \<longrightarrow>
     h \<notin> fst ` set contracts \<or> b256_to_string T h \<in> fst ` set (bytecode_tbl db))"

lemma views_same_reads:
  assumes ok: "db_ok T db" "db_ok T db'" and views: "acct_view T db' = acct_view T db" "slot_value T db' = slot_value T db"
    and blocks: "block_tbl db' = block_tbl db"
    and codes: "\<And>a bal n h. acct_view T db a = Some (bal, n, h) \<Longrightarrow>
      map_of (bytecode_tbl db') (b256_to_string T h) = map_of (bytecode_tbl db) (b256_to_string T h)"
  shows "same_reads (database_of T db') (database_of T db)"
proof -
  have "rel_sum (=) (rel_option (\<lambda>acc acc'. account_key acc = account_key acc' \<and>
      db_code_by_hash T db' (code_hash acc) = db_code_by_hash T db (code_hash acc))) (db_basic T db' a) (db_basic T db a)" for a
  proof -
    obtain o1 o2 where "get_account T db' a = Inr o1" "acct_view T db' a = map_option account_key o1"
      "get_account T db a = Inr o2" "acct_view T db a = map_option account_key o2"
      using get_account_ok [OF ok(2), of a] get_account_ok [OF ok(1), of a] by metis
    then show ?thesis
      using views(1) codes [of a]
      by (cases o1; cases o2) (auto simp: db_basic_def db_code_by_hash_def query_row_def account_key_def)
  qed
  moreover have "db_storage T db' a k = db_storage T db a k" for a k
  proof -
    obtain v1 v2 where "get_storage T db' a (b256_from_u256 T k) = Inr v1" "slot_view T db' (a, b256_from_u256 T k) = v1"
      "get_storage T db a (b256_from_u256 T k) = Inr v2" "slot_view T db (a, b256_from_u256 T k) = v2"
      using get_storage_ok [OF ok(2), of a] get_storage_ok [OF ok(1), of a] by metis
    then show ?thesis
      using fun_cong [OF views(2), of "(a, b256_from_u256 T k)"] by (simp add: db_storage_def slot_value_def)
  qed
  moreover have "db_block_hash T db' = db_block_hash T db"
    by (simp add: db_block_hash_def blocks fun_eq_iff)
  ultimately show ?thesis by (simp add: same_reads_def database_of_def fun_eq_iff)
qed

lemma insert_revert_same_reads:
  assumes ok: "db_ok T db" and plain: "to_plain bundle = (cs, rv)" and codes: "keeps_codes db (ch_contracts cs)"
    and ins: "insert_block_with_bundle T to_plain db block bundle = (Inr (), db1)"
    and rev: "revert_tip_block T db1 n = (Inr (), db2)"
    and restored: "block_tbl db2 = block_tbl db" "acct_view T db2 = acct_view T db" "slot_value T db2 = slot_value T db"
  shows "same_reads (database_of T db2) (database_of T db)"
proof -
  from ins have "insert_block_body T to_plain block bundle db = Inr db1"
    by (simp add: insert_block_with_bundle_def in_transaction_Inr_iff)
  note bytes1 = insert_body_bytecode [OF ok plain this]
  have ok1: "db_ok T db1" by (rule db_ok_insert [OF ok ins])
  have ok2: "db_ok T db2" by (rule db_ok_revert [OF ok1 rev])
  from rev have "revert_tip_body T n db1 = Inr db2" by (simp add: revert_tip_block_def in_transaction_Inr_iff)
  with revert_body_cases [OF ok1, of n] have bytes2: "bytecode_tbl db2 = bytecode_tbl db1" by (auto split: if_splits)
  show ?thesis
  proof (rule views_same_reads [OF ok ok2 restored(2,3,1)])
    fix a bal n h
    assume "acct_view T db a = Some (bal, n, h)"
    with codes have "map_of (ch_contracts cs) h = None \<or> map_of (bytecode_tbl db) (b256_to_string T h) \<noteq> None"
      by (auto simp: keeps_codes_def map_of_eq_None_iff)
    then show "map_of (bytecode_tbl db2) (b256_to_string T h) = map_of (bytecode_tbl db) (b256_to_string T h)"
      by (auto simp: bytes2 bytes1 map_of_write_contracts split: option.splits)
  qed
qed

end

section \<open>Executing after a revert\<close>


text \<open>The EVM of \<open>blob_exec\<close> sees the database: 5 on \<open>demo_db\<close>, and 5 again after the revert.\<close>

lemma blob_exec_reads: "evm_reads blob_exec"
proof -
  have "read_sum D = read_sum D'" if "same_reads D D'" for D D'
  proof -
    from that have "rel_sum (=) (rel_option (\<lambda>acc acc'. account_key acc = account_key acc' \<and>
        ed_code_by_hash D (code_hash acc) = ed_code_by_hash D' (code_hash acc))) (ed_basic D 1) (ed_basic D' 1)"
      and "ed_storage D = ed_storage D'" by (auto simp: same_reads_def)
    then show ?thesis
      unfolding read_sum_def
      by (cases "ed_basic D 1"; cases "ed_basic D' 1") (auto simp: account_key_def split: option.splits)
  qed
  then show ?thesis by (simp add: evm_reads_def block_outcome_def blob_exec_def)
qed

lemma read_demo_db: "read_sum (database_of ref_text demo_db) = 5"
proof -
  obtain oacc where "get_account ref_text demo_db 1 = Inr oacc" "acct_view ref_text demo_db 1 = map_option account_key oacc"
    by (rule get_account_ok [OF demo_db_ok])
  moreover from this(2) obtain acc where "oacc = Some acc" "balance acc = 5"
    by (cases oacc) (simp_all add: account_key_def)
  moreover obtain v where "get_storage ref_text demo_db 1 2 = Inr v" "slot_view ref_text demo_db (1, 2) = v"
    by (rule get_storage_ok [OF demo_db_ok])
  ultimately show ?thesis by (simp add: read_sum_def database_of_def db_basic_def db_storage_def)
qed

lemma demo_execute_reading:
  "execute_block blob_exec ref_text demo_db 1 (demo_header 5) demo_data 9 =
    Inr (5, demo_bundle, [\<lparr>rc_tx_type = (), rc_success = True, rc_cumulative_gas_used = 20, rc_logs = []\<rparr>,
      \<lparr>rc_tx_type = (), rc_success = True, rc_cumulative_gas_used = 50, rc_logs = []\<rparr>], [(20, 5), (30, 5)])"
proof -
  have "get_block ref_text demo_db 4 = Inr (Some 4)"
    by (simp add: get_block_def query_row_def ref.u256_decimal)
  moreover have "unframes [] demo_data = Some demo_raws" "length demo_data = 9"
    by (simp_all add: demo_data_def unframes_frames) (simp add: demo_raws_def frame_def)
  ultimately show ?thesis
    by (simp add: execute_block_def demo_header_def CHAIN_ID_def construct_header_def try_u64_def read_demo_db
        decode_transactions_def raw_transactions_def blob_exec_def execute_transactions_def no_progress_def
        demo_raws_def Let_def word_le_nat_alt)
qed

definition reading_chain :: "(rollup_event list, u64, u64, rollup_event, rollup_event) chain_api" where
  "reading_chain = (ref_chain 5)\<lparr>abi_decode_input := (\<lambda>_. Inr (SubmitBlock (demo_header 5) demo_data))\<rparr>"


end
