(* ===== verification/Rollup_Reorg.thy ===== *)
theory Rollup_Reorg
  imports Rollup_Replay
begin

text \<open>
  Whole chains through the two handlers: any mixture of deposits, submitted blocks and ignored
  events is undone by reverting the chain, one event after the other in the reverse order, while
  the undo rows of the blocks stay in the database. The relation \<open>undone\<close> says what the database
  has in common with the one before the events.
\<close>

section \<open>Chains that can be reverted\<close>

text \<open>
  Every submitted block of the chain executes, and when it is stored it satisfies the conditions of
  the round trip of the database and its header names its number.
\<close>

definition reversible_block ::
  "('code, 'b) rollup_text \<Rightarrow> ('bundle \<Rightarrow> 'code plain_changeset \<times> 'code plain_reverts) \<Rightarrow> rollup_db \<Rightarrow>
   zenith_header \<Rightarrow> 'b \<Rightarrow> 'bundle \<Rightarrow> bool" where
  "reversible_block T to_plain db header block bundle \<longleftrightarrow>
     zh_sequence header = ucast (block_number T block) \<and>
     faithful_reverts T db (fst (to_plain bundle)) (snd (to_plain bundle)) \<and>
     no_wipes (fst (to_plain bundle)) (snd (to_plain bundle)) \<and>
     (\<forall>k \<in> fst ` set (block_tbl db). k < dec_string (unat (block_number T block))) \<and>
     no_logs_for (dec_string (unat (block_number T block))) db"

definition reversible_event ::
  "('c, 'b, 'tx, 'rcpt, 'lg) chain_api \<Rightarrow>
   ('code, 'b, 'tx, 'e, 'res, 'st, 'bundle, 'blob, 'cmt, 'ty, 'log) exec_api \<Rightarrow>
   ('code, 'b) rollup_text \<Rightarrow> ('bundle \<Rightarrow> 'code plain_changeset \<times> 'code plain_reverts) \<Rightarrow>
   'b \<times> 'tx \<times> rollup_event \<Rightarrow> rollup_db \<Rightarrow> bool" where
  "reversible_event C X T to_plain ev db =
     (case ev of
        (_, tx, BlockSubmitted h) \<Rightarrow>
          (case abi_decode_input C tx of
             Inr (SubmitBlock header block_data) \<Rightarrow>
               (case execute_block X T db tx header block_data h of
                  Inr (block, bundle, _) \<Rightarrow> reversible_block T to_plain db header block bundle
                | Inl _ \<Rightarrow> False)
           | Inr OtherCall \<Rightarrow> True
           | Inl _ \<Rightarrow> False)
      | _ \<Rightarrow> True)"

fun reversible ::
  "('c, 'b, 'tx, 'rcpt, 'lg) chain_api \<Rightarrow>
   ('code, 'b, 'tx, 'e, 'res, 'st, 'bundle, 'blob, 'cmt, 'ty, 'log) exec_api \<Rightarrow>
   ('code, 'b) rollup_text \<Rightarrow> ('bundle \<Rightarrow> 'code plain_changeset \<times> 'code plain_reverts) \<Rightarrow>
   ('b \<times> 'tx \<times> rollup_event) list \<Rightarrow> rollup_db \<Rightarrow> bool" where
  "reversible C X T to_plain [] db = True"
| "reversible C X T to_plain (ev # evs) db \<longleftrightarrow>
     reversible_event C X T to_plain ev db \<and> reversible C X T to_plain evs (snd (commit_event C X T to_plain ev db))"

lemma reversible_submit:
  assumes "reversible_event C X T to_plain (b, tx, BlockSubmitted h) db" "abi_decode_input C tx \<noteq> Inr OtherCall"
  obtains header block_data r where "abi_decode_input C tx = Inr (SubmitBlock header block_data)"
    "execute_block X T db tx header block_data h = Inr r" "reversible_block T to_plain db header (fst r) (fst (snd r))"
proof (cases "abi_decode_input C tx")
  case (Inr call)
  with assms obtain header block_data where call: "call = SubmitBlock header block_data" by (cases call) auto
  show thesis
  proof (cases "execute_block X T db tx header block_data h")
    case r: (Inr r)
    with assms Inr call show thesis by (intro that [of header block_data r]) (auto simp: reversible_event_def split: prod.splits)
  qed (use assms Inr call in \<open>simp add: reversible_event_def\<close>)
qed (use assms in \<open>simp add: reversible_event_def\<close>)

section \<open>What is undone\<close>

lemma map_of_upsert_rows_other: "k \<notin> fst ` set kvs \<Longrightarrow> map_of (upsert_rows kvs t) k = map_of t k"
  by (induction kvs arbitrary: t) auto

lemma logged_same_logs:
  assumes "same_logs db db'"
  shows "logged_account T num db' a = logged_account T num db a" "logged_slot T num db' ak = logged_slot T num db ak"
  using assms by (simp_all add: same_logs_def logged_account_def logged_slot_def)

context rollup_text_ok
begin

text \<open>
  The accounts of \<open>D\<close> may have come into being, empty. The undo rows of the blocks that are stored
  are the same.
\<close>

definition undone :: "address set \<Rightarrow> rollup_db \<Rightarrow> rollup_db \<Rightarrow> bool" where
  "undone D db db' \<longleftrightarrow> db_ok T db' \<and> block_tbl db' = block_tbl db \<and> slot_value T db' = slot_value T db \<and>
     (\<forall>a. acct_view T db' a = acct_view T db a \<or>
        a \<in> D \<and> acct_view T db a = None \<and> acct_view T db' a = Some (0, 0, code_hash (default_account T))) \<and>
     (\<forall>num \<in> fst ` set (block_tbl db). (\<forall>a. logged_account T num db' a = logged_account T num db a) \<and>
        (\<forall>ak. logged_slot T num db' ak = logged_slot T num db ak))"

lemma undone_refl: "db_ok T db \<Longrightarrow> undone {} db db"
  by (simp add: undone_def)

lemma undone_cases:
  "undone D db db' \<Longrightarrow> acct_view T db' a = acct_view T db a \<or>
     a \<in> D \<and> acct_view T db a = None \<and> acct_view T db' a = Some (0, 0, code_hash (default_account T))"
  by (simp add: undone_def)

lemma undone_logs:
  assumes "undone D db db'" "num \<in> fst ` set (block_tbl db)"
  shows "logged_account T num db' a = logged_account T num db a" "logged_slot T num db' ak = logged_slot T num db ak"
  using assms unfolding undone_def by blast+

lemma undone_account: "undone D db db' \<Longrightarrow> acct_view T db a = Some x \<Longrightarrow> acct_view T db' a = Some x"
  unfolding undone_def by (metis option.distinct(1))

lemma undone_mono: "undone D db db' \<Longrightarrow> D \<subseteq> D' \<Longrightarrow> undone D' db db'"
  unfolding undone_def by blast

text \<open>A deposit that is taken back.\<close>

lemma undone_deposit:
  assumes ok: "db_ok T db" and up: "upsert_account T db a (credit T amount) = Inr db1"
    and later: "undone D db1 db1'"
  obtains db' where "upsert_account T db1' a (debit amount) = Inr db'" "undone (insert a D) db db'"
proof -
  from upsert_credit [OF ok, of a amount] up have db1: "db_ok T db1" "same_logs db db1"
    "slot_view T db1 = slot_view T db" "acct_view T db1 = credited a amount (acct_view T db)" by (metis sum.inject(2))+
  define old where "old = (case acct_view T db a of None \<Rightarrow> (0, 0, code_hash (default_account T)) | Some x \<Rightarrow> x)"
  obtain bal n ch where old: "old = (bal, n, ch)" by (cases old)
  have here: "acct_view T db1 a = Some (bal + amount, n, ch)"
    using old by (auto simp: db1(4) credited_def old_def split: option.splits)
  with later have "db_ok T db1'" "acct_view T db1' a = Some (bal + amount, n, ch)"
    by (simp_all add: undone_def [THEN iffD1] undone_account)
  from upsert_debit [OF this, of amount] obtain db' where db': "upsert_account T db1' a (debit amount) = Inr db'"
    "db_ok T db'" "same_logs db1' db'" "slot_view T db' = slot_view T db1'" "acct_view T db' = (acct_view T db1')(a \<mapsto> old)"
    by (metis add_diff_cancel_right' old)
  have accts: "acct_view T db' x = acct_view T db x \<or>
      x \<in> insert a D \<and> acct_view T db x = None \<and> acct_view T db' x = Some (0, 0, code_hash (default_account T))" for x
  proof (cases "x = a")
    case True
    then show ?thesis by (auto simp: db'(5) old_def split: option.splits)
  next
    case False
    then have "acct_view T db1 x = acct_view T db x" by (simp add: db1(4) credited_def)
    with False undone_cases [OF later, of x] show ?thesis by (simp add: db'(5))
  qed
  have "slot_value T db' = slot_value T db"
    using later by (simp add: undone_def slot_value_def [abs_def] db'(4) db1(3))
  moreover have "block_tbl db' = block_tbl db" "block_tbl db1 = block_tbl db"
    using later db1(2) db'(3) by (simp_all add: undone_def same_logs_def)
  ultimately have "undone (insert a D) db db'"
    using later db'(2) accts
    by (simp add: undone_def logged_same_logs [OF db'(3)] logged_same_logs [OF db1(2)])
  with db'(1) show thesis by (rule that)
qed

text \<open>The rows of other blocks are left alone by an insertion.\<close>

lemma insert_keeps_logs:
  assumes ok: "db_ok T db" and wipes: "no_wipes (fst (to_plain bundle)) (snd (to_plain bundle))"
    and ins: "insert_block_with_bundle T to_plain db block bundle = (Inr (), db1)"
    and other: "num \<noteq> dec_string (unat (block_number T block))"
  shows "logged_account T num db1 a = logged_account T num db a" "logged_slot T num db1 ak = logged_slot T num db ak"
proof -
  obtain cs rv where plain: "to_plain bundle = (cs, rv)" by (cases "to_plain bundle")
  let ?num = "dec_string (unat (block_number T block))"
  from ins have body: "insert_block_body T to_plain block bundle db = Inr db1"
    by (simp add: insert_block_with_bundle_def in_transaction_Inr_iff)
  with insert_body_cases [where to_plain = to_plain, OF ok plain, of block]
  have new: "?num \<notin> fst ` set (block_tbl db)" "length (rv_accounts rv) \<le> 1" "length (rv_storage rv) \<le> 1"
    by (auto split: if_splits)
  from insert_block_body_ok [where to_plain = to_plain, OF ok refl new(1) plain new(2,3)] body wipes plain
  have tbls: "account_revert_tbl db1 = upsert_rows (map (account_revert_row T ?num) (concat (rv_accounts rv))) (account_revert_tbl db)"
    "storage_revert_tbl db1 = upsert_rows
       (map (\<lambda>(a, k, s). storage_revert_row T ?num a (k, s)) (concat (map (revert_slots T) (concat (rv_storage rv)))))
       (storage_revert_tbl db)"
    by (auto simp: no_wipes_def)
  show "logged_account T num db1 a = logged_account T num db a"
    unfolding logged_account_def tbls(1) using other
    by (subst map_of_upsert_rows_other) (auto simp: account_revert_row_def)
  show "logged_slot T num db1 ak = logged_slot T num db ak"
    unfolding logged_slot_def tbls(2) using other
    by (subst map_of_upsert_rows_other) (auto simp: storage_revert_row_def)
qed

text \<open>A block that is taken back.\<close>

lemma undone_block:
  assumes ok: "db_ok T db" and rev: "reversible_block T to_plain db header block bundle"
  obtains db1 where "insert_block_with_bundle T to_plain db block bundle = (Inr (), db1)" "db_ok T db1"
    "\<And>D db1'. undone D db1 db1' \<Longrightarrow>
      \<exists>db'. revert_tip_block T db1' (zh_sequence header) = (Inr (), db') \<and> undone D db db'"
proof -
  obtain cs rv where plain: "to_plain bundle = (cs, rv)" by (cases "to_plain bundle")
  define num where "num = dec_string (unat (block_number T block))"
  have seq: "zh_sequence header = ucast (block_number T block)" and number: "u256_to_string T (zh_sequence header) = num"
    using rev by (simp_all add: reversible_block_def number_text num_def)
  from rev plain have tip: "\<forall>k \<in> fst ` set (block_tbl db). k < num" by (simp add: reversible_block_def num_def)
  from rev plain insert_then_revert [where to_plain = to_plain and block = block, OF ok plain]
  obtain db1 db2 where ins: "insert_block_with_bundle T to_plain db block bundle = (Inr (), db1)"
    and revd: "revert_tip_block T db1 (zh_sequence header) = (Inr (), db2)" and views: "block_tbl db2 = block_tbl db"
    "acct_view T db2 = acct_view T db" "slot_value T db2 = slot_value T db"
    by (auto simp: reversible_block_def)
  have ok1: "db_ok T db1" by (rule db_ok_insert [OF ok ins])
  from revd have body: "revert_tip_body T (zh_sequence header) db1 = Inr db2"
    by (simp add: revert_tip_block_def in_transaction_Inr_iff)
  have wipes: "no_wipes (fst (to_plain bundle)) (snd (to_plain bundle))" using rev by (simp add: reversible_block_def)
  note kept = insert_keeps_logs [where to_plain = to_plain, OF ok wipes ins, folded num_def]
  have undo: "block_tbl db1 \<noteq> [] \<and> Max (set (map fst (block_tbl db1))) = num"
    "delete_rows (\<lambda>k. k = num) (block_tbl db1) = block_tbl db"
    "\<And>a. (case logged_account T num db1 a of None \<Rightarrow> acct_view T db1 a | Some oa \<Rightarrow> map_option account_key oa) = acct_view T db a"
    "\<And>ak. (case logged_slot T num db1 ak of None \<Rightarrow> slot_value T db1 ak | Some v \<Rightarrow> v) = slot_value T db ak"
    using revert_body_cases [OF ok1, of "zh_sequence header", unfolded number] body views by (auto split: if_splits)
  have stored: "fst ` set (block_tbl db) \<subseteq> fst ` set (block_tbl db1)" "num \<in> fst ` set (block_tbl db1)"
    using undo(1) Max_in [of "set (map fst (block_tbl db1))"] by (auto simp: undo(2) [symmetric] delete_rows_def)
  have "\<exists>db'. revert_tip_block T db1' (zh_sequence header) = (Inr (), db') \<and> undone D db db'"
    if later: "undone D db1 db1'" for D db1'
  proof -
    from later have same: "block_tbl db1' = block_tbl db1" "slot_value T db1' = slot_value T db1" "db_ok T db1'" by (simp_all add: undone_def)
    from revert_body_cases [OF same(3), of "zh_sequence header", unfolded number] undo(1) obtain db' where
      db': "revert_tip_body T (zh_sequence header) db1' = Inr db'" "db_ok T db'"
      "block_tbl db' = delete_rows (\<lambda>k. k = num) (block_tbl db1')"
      "account_revert_tbl db' = account_revert_tbl db1'" "storage_revert_tbl db' = storage_revert_tbl db1'"
      "\<forall>a. acct_view T db' a = (case logged_account T num db1' a of None \<Rightarrow> acct_view T db1' a | Some oa \<Rightarrow> map_option account_key oa)"
      "\<forall>ak. slot_value T db' ak = (case logged_slot T num db1' ak of None \<Rightarrow> slot_value T db1' ak | Some v \<Rightarrow> v)"
      by (auto simp: same(1))
    note logs = undone_logs [OF later stored(2)]
    have accts: "acct_view T db' a = acct_view T db a \<or>
        a \<in> D \<and> acct_view T db a = None \<and> acct_view T db' a = Some (0, 0, code_hash (default_account T))" for a
      using db'(6) logs(1) [of a] undo(3) [of a] undone_cases [OF later, of a]
      by (cases "logged_account T num db1 a") simp_all
    have "slot_value T db' ak = slot_value T db ak" for ak
      using spec [OF db'(7), of ak] logs(2) [of ak] undo(4) [of ak] by (simp only: same(2))
    moreover have "logged_account T k db' a = logged_account T k db a" "logged_slot T k db' ak = logged_slot T k db ak"
      if "k \<in> fst ` set (block_tbl db)" for k a ak
    proof -
      from that tip stored(1) have "k \<noteq> num" "k \<in> fst ` set (block_tbl db1)" by auto
      with kept [of k] undone_logs [OF later, of k]
      show "logged_account T k db' a = logged_account T k db a" "logged_slot T k db' ak = logged_slot T k db ak"
        by (simp_all add: logged_account_def logged_slot_def db'(4,5))
    qed
    ultimately have "undone D db db'"
      using db'(2,3) accts undo(2) by (simp add: undone_def same(1) fun_eq_iff)
    with db'(1) show ?thesis by (auto simp: revert_tip_block_def)
  qed
  with ins ok1 show thesis by (rule that)
qed

lemma undone_event:
  assumes ok: "db_ok T db" and rev: "reversible_event C X T to_plain ev db"
  obtains db1 where "commit_event C X T to_plain ev db = (Inr (), db1)" "db_ok T db1"
    "\<And>D db1'. undone D db1 db1' \<Longrightarrow>
      \<exists>db'. revert_event C T ev db1' = (Inr (), db') \<and> undone (D \<union> set (depositors [ev])) db db'"
proof -
  obtain b tx event where ev: "ev = (b, tx, event)" by (cases ev)
  show thesis
  proof (cases "submits_block event")
    case True
    then obtain h where h: "event = BlockSubmitted h" by (cases event) auto
    show thesis
    proof (cases "abi_decode_input C tx = Inr OtherCall")
      case True
      with ev h ok show thesis by (intro that [of db]) (simp_all add: commit_event_def revert_event_def)
    next
      case False
      from reversible_submit [OF rev [unfolded ev h] False] obtain header block_data r where
        r: "abi_decode_input C tx = Inr (SubmitBlock header block_data)" "execute_block X T db tx header block_data h = Inr r"
        "reversible_block T to_plain db header (fst r) (fst (snd r))" .
      from undone_block [OF ok r(3)] obtain db1 where
        "insert_block_with_bundle T to_plain db (fst r) (fst (snd r)) = (Inr (), db1)" "db_ok T db1"
        "\<And>D db1'. undone D db1 db1' \<Longrightarrow> \<exists>db'. revert_tip_block T db1' (zh_sequence header) = (Inr (), db') \<and> undone D db db'" by blast
      with ev h r(1,2) show thesis
        by (intro that [of db1]) (auto simp: commit_event_def revert_event_def split: prod.splits)
    qed
  next
    case no_block: False
    show thesis
    proof (cases "deposit_of event")
      case None
      with ok ev show thesis by (intro that [of db]) (simp_all add: commit_deposit [OF None no_block])
    next
      case (Some d)
      obtain a amount where d: "d = (a, amount)" by (cases d)
      with Some have event: "event = Enter (ucast CHAIN_ID) 0 a amount" by (cases event) (auto split: if_splits)
      from upsert_credit [OF ok, of a amount] obtain db1 where db1: "upsert_account T db a (credit T amount) = Inr db1" "db_ok T db1" by metis
      have "\<exists>db'. revert_event C T ev db1' = (Inr (), db') \<and> undone (D \<union> set (depositors [ev])) db db'"
        if later: "undone D db1 db1'" for D db1'
      proof -
        from undone_deposit [OF ok db1(1) later] obtain db' where
          "upsert_account T db1' a (debit amount) = Inr db'" "undone (insert a D) db db'" by blast
        then show ?thesis by (simp add: revert_event_def ev event)
      qed
      with db1 show thesis by (intro that [of db1]) (simp_all add: commit_event_def ev event)
    qed
  qed
qed

lemma events_undone:
  "db_ok T db \<Longrightarrow> reversible C X T to_plain evs db \<Longrightarrow>
    \<exists>db1 db2. run_events (commit_event C X T to_plain) evs db = (Inr (), db1) \<and> db_ok T db1 \<and>
      run_events (revert_event C T) (rev evs) db1 = (Inr (), db2) \<and> undone (set (depositors evs)) db db2"
proof (induction evs arbitrary: db)
  case Nil
  then show ?case by (simp add: undone_refl)
next
  case (Cons ev evs)
  from Cons.prems have "reversible_event C X T to_plain ev db" by simp
  from undone_event [OF Cons.prems(1) this] obtain db1 where db1: "commit_event C X T to_plain ev db = (Inr (), db1)" "db_ok T db1"
    and undo: "\<And>D db1'. undone D db1 db1' \<Longrightarrow>
      \<exists>db'. revert_event C T ev db1' = (Inr (), db') \<and> undone (D \<union> set (depositors [ev])) db db'" by blast
  from Cons.prems(2) db1(1) have "reversible C X T to_plain evs db1" by simp
  from Cons.IH [OF db1(2) this] obtain db2 db3 where IH: "run_events (commit_event C X T to_plain) evs db1 = (Inr (), db2)"
    "db_ok T db2" "run_events (revert_event C T) (rev evs) db2 = (Inr (), db3)" "undone (set (depositors evs)) db1 db3" by blast
  from undo [OF IH(4)] obtain db4 where "revert_event C T ev db3 = (Inr (), db4)"
    "undone (set (depositors evs) \<union> set (depositors [ev])) db db4" by blast
  moreover have "set (depositors evs) \<union> set (depositors [ev]) = set (depositors (ev # evs))"
    by (cases ev) (auto split: option.splits)
  ultimately show ?case using db1(1) IH(1-3) by (simp add: run_events_append)
qed

end

section \<open>A chain is undone\<close>


text \<open>A deposit to an account that does not exist, block 5, and a deposit to an account it changed.\<close>

lemma demo_execute_again:
  assumes "block_tbl db = block_tbl demo_db"
  shows "execute_block ref_exec ref_text db tx (demo_header 5) [20, 0, 30] 3 = execute_block ref_exec ref_text demo_db 1 (demo_header 5) [20, 0, 30] 3"
  using assms
  by (simp add: execute_block_def construct_header_def get_block_def decode_transactions_def raw_transactions_def ref_exec_def)


end
