(* ===== verification/Rollup_Fork.thy ===== *)
theory Rollup_Fork
  imports Rollup_Reorg
begin

text \<open>
  A reorg is as if the old chain had never been there. The commit handler is a function of what the
  EVM reads: two databases that agree on it (\<open>alike\<close>, whatever undo rows and bytecode a past chain
  left in one of them) are taken by any chain to databases that agree, with the same result. And a
  chain that is reverted leaves a database that agrees with the one before it.
\<close>

section \<open>The blocks a chain executes\<close>

definition executed ::
  "('c, 'b, 'tx, 'rcpt, 'lg) chain_api \<Rightarrow>
   ('code, 'b, 'tx, 'e, 'res, 'st, 'bundle, 'blob, 'cmt, 'ty, 'log) exec_api \<Rightarrow>
   ('code, 'b) rollup_text \<Rightarrow> 'b \<times> 'tx \<times> rollup_event \<Rightarrow> rollup_db \<Rightarrow> ('b \<times> 'bundle) option" where
  "executed C X T ev db =
     (case ev of
        (_, tx, BlockSubmitted h) \<Rightarrow>
          (case abi_decode_input C tx of
             Inr (SubmitBlock header block_data) \<Rightarrow>
               (case execute_block X T db tx header block_data h of
                  Inr (block, bundle, _) \<Rightarrow> Some (block, bundle)
                | Inl _ \<Rightarrow> None)
           | _ \<Rightarrow> None)
      | _ \<Rightarrow> None)"

fun all_executed ::
  "('c, 'b, 'tx, 'rcpt, 'lg) chain_api \<Rightarrow>
   ('code, 'b, 'tx, 'e, 'res, 'st, 'bundle, 'blob, 'cmt, 'ty, 'log) exec_api \<Rightarrow>
   ('code, 'b) rollup_text \<Rightarrow> ('bundle \<Rightarrow> 'code plain_changeset \<times> 'code plain_reverts) \<Rightarrow>
   (rollup_db \<Rightarrow> 'code plain_changeset \<Rightarrow> bool) \<Rightarrow> ('b \<times> 'tx \<times> rollup_event) list \<Rightarrow> rollup_db \<Rightarrow> bool" where
  "all_executed C X T to_plain P [] db = True"
| "all_executed C X T to_plain P (ev # evs) db \<longleftrightarrow>
     (case executed C X T ev db of None \<Rightarrow> True | Some (_, bundle) \<Rightarrow> P db (fst (to_plain bundle))) \<and>
     all_executed C X T to_plain P evs (snd (commit_event C X T to_plain ev db))"

text \<open>The code hashes that an account of the database has, or that a new one gets.\<close>

definition code_hashes :: "('code, 'b) rollup_text \<Rightarrow> rollup_db \<Rightarrow> b256 set" where
  "code_hashes T db = insert (code_hash (default_account T)) {h. \<exists>a bal n. acct_view T db a = Some (bal, n, h)}"

definition stored_code :: "('code, 'b) rollup_text \<Rightarrow> rollup_db \<Rightarrow> b256 \<Rightarrow> string option" where
  "stored_code T db h = map_of (bytecode_tbl db) (b256_to_string T h)"

text \<open>
  Contracts are named by the hash of their code: \<open>code_at\<close>. The accounts that a block of a chain
  changes have the code of a contract it deploys or a code hash that is in use; a contract that a
  block deploys does not have the hash of an account whose code is not stored.
\<close>

definition codes_named :: "('code, 'b) rollup_text \<Rightarrow> (b256 \<Rightarrow> string) \<Rightarrow> 'code plain_changeset \<Rightarrow> bool" where
  "codes_named T code_at cs \<longleftrightarrow> (\<forall>(h, c) \<in> set (ch_contracts cs). bytecode_to_string T c = code_at h)"

definition codes_closed :: "('code, 'b) rollup_text \<Rightarrow> rollup_db \<Rightarrow> 'code plain_changeset \<Rightarrow> bool" where
  "codes_closed T db cs \<longleftrightarrow> (\<forall>(_, oacc) \<in> set (ch_accounts cs). \<forall>acc. oacc = Some acc \<longrightarrow>
     code_hash acc \<in> fst ` set (ch_contracts cs) \<union> code_hashes T db)"

definition codes_new :: "('code, 'b) rollup_text \<Rightarrow> rollup_db \<Rightarrow> 'code plain_changeset \<Rightarrow> bool" where
  "codes_new T db cs \<longleftrightarrow> (\<forall>h \<in> fst ` set (ch_contracts cs). h \<in> code_hashes T db \<longrightarrow> stored_code T db h \<noteq> None)"

section \<open>Databases that are alike\<close>

definition more_code :: "('code, 'b) rollup_text \<Rightarrow> (b256 \<Rightarrow> string) \<Rightarrow> rollup_db \<Rightarrow> rollup_db \<Rightarrow> bool" where
  "more_code T code_at db db' \<longleftrightarrow> (\<forall>h. stored_code T db' h = stored_code T db h \<or>
     stored_code T db h = None \<and> stored_code T db' h = Some (code_at h) \<and> h \<notin> code_hashes T db)"

definition same_views :: "('code, 'b) rollup_text \<Rightarrow> rollup_db \<Rightarrow> rollup_db \<Rightarrow> bool" where
  "same_views T db db' \<longleftrightarrow> block_tbl db' = block_tbl db \<and> acct_view T db' = acct_view T db \<and> slot_value T db' = slot_value T db"

definition alike :: "('code, 'b) rollup_text \<Rightarrow> (b256 \<Rightarrow> string) \<Rightarrow> rollup_db \<Rightarrow> rollup_db \<Rightarrow> bool" where
  "alike T code_at db db' \<longleftrightarrow> db_ok T db \<and> db_ok T db' \<and> same_views T db db' \<and> more_code T code_at db db'"

lemma apply_changesets_value:
  assumes "\<And>ak. (case m' ak of None \<Rightarrow> 0 | Some v \<Rightarrow> v) = (case m ak of None \<Rightarrow> 0 | Some (v :: u256) \<Rightarrow> v)"
  shows "(case fold (apply_changeset T) css m' ak of None \<Rightarrow> 0 | Some v \<Rightarrow> v) =
    (case fold (apply_changeset T) css m ak of None \<Rightarrow> 0 | Some v \<Rightarrow> v)"
  using assms
proof (induction css arbitrary: m m' ak)
  case (Cons cs css)
  have "(case apply_changeset T cs m' ak of None \<Rightarrow> 0 | Some v \<Rightarrow> v) = (case apply_changeset T cs m ak of None \<Rightarrow> 0 | Some v \<Rightarrow> v)" for ak
    using Cons.prems [of ak] by (auto simp: apply_changeset_def split: option.split)
  from Cons.IH [OF this] show ?case by simp
qed simp

context rollup_text_ok
begin

lemma alike_same_reads:
  assumes "alike T code_at db db'"
  shows "same_reads (database_of T db') (database_of T db)"
proof (rule views_same_reads)
  fix a bal n h
  assume "acct_view T db a = Some (bal, n, h)"
  then have "h \<in> code_hashes T db" by (auto simp: code_hashes_def)
  with assms show "map_of (bytecode_tbl db') (b256_to_string T h) = map_of (bytecode_tbl db) (b256_to_string T h)"
    by (auto simp: alike_def more_code_def stored_code_def)
qed (use assms in \<open>simp_all add: alike_def same_views_def\<close>)

lemma alike_execute: "evm_reads X \<Longrightarrow> alike T code_at db db' \<Longrightarrow> execute_block X T db' tx h d hash = execute_block X T db tx h d hash"
  by (rule execute_block_same_reads) (auto intro: alike_same_reads simp: alike_def same_views_def)

text \<open>An insertion, as an update of what is read; whether it fails depends on the block numbers alone.\<close>

definition insert_error :: "rollup_db \<Rightarrow> 'b \<Rightarrow> 'code plain_reverts \<Rightarrow> err option" where
  "insert_error db block rv =
     (if dec_string (unat (block_number T block)) \<in> fst ` set (block_tbl db) then Some (UniqueViolation ''block'')
      else if 1 < length (rv_accounts rv) then Some (Eyre ''too many blocks in account reverts'')
      else if 1 < length (rv_storage rv) then Some (Eyre ''too many blocks in storage reverts'') else None)"

lemma insert_effect:
  assumes ok: "db_ok T db" and plain: "to_plain bundle = (cs, rv)"
  shows "case insert_error db block rv of
      Some e \<Rightarrow> insert_block_with_bundle T to_plain db block bundle = (Inl e, db)
    | None \<Rightarrow> \<exists>db1. insert_block_with_bundle T to_plain db block bundle = (Inr (), db1) \<and> db_ok T db1 \<and>
      block_tbl db1 = block_tbl db @ [(dec_string (unat (block_number T block)), the (block_to_json T block))] \<and>
      acct_view T db1 = apply_accounts (ch_accounts cs) (acct_view T db) \<and>
      slot_view T db1 = fold (apply_changeset T) (ch_storage cs) (slot_view T db) \<and>
      (\<forall>h. stored_code T db1 h = (case stored_code T db h of
          None \<Rightarrow> map_option (bytecode_to_string T) (map_of (ch_contracts cs) h) | Some d \<Rightarrow> Some d))"
  using insert_body_cases [where to_plain = to_plain, OF ok plain, of block] insert_body_bytecode [where to_plain = to_plain, OF ok plain, of block]
  by (auto simp: insert_block_with_bundle_def in_transaction_def stored_code_def map_of_write_contracts insert_error_def split: if_splits)

lemma insert_alike:
  assumes alike: "alike T code_at db db'" and plain: "to_plain bundle = (cs, rv)"
    and named: "codes_named T code_at cs" and closed: "codes_closed T db cs"
    and ins: "insert_block_with_bundle T to_plain db block bundle = (r, db1)"
  shows "\<exists>db1'. insert_block_with_bundle T to_plain db' block bundle = (r, db1') \<and> alike T code_at db1 db1'"
proof -
  let ?num = "dec_string (unat (block_number T block))"
  have ok: "db_ok T db" "db_ok T db'" and same: "block_tbl db' = block_tbl db" "acct_view T db' = acct_view T db"
    "slot_value T db' = slot_value T db" and more: "more_code T code_at db db'"
    using alike by (simp_all add: alike_def same_views_def)
  show ?thesis
  proof (cases "insert_error db block rv")
    case None
    with insert_effect [where to_plain = to_plain, OF ok(1) plain, of block] ins have db1: "r = Inr ()" "db_ok T db1"
      "block_tbl db1 = block_tbl db @ [(?num, the (block_to_json T block))]"
      "acct_view T db1 = apply_accounts (ch_accounts cs) (acct_view T db)"
      "slot_view T db1 = fold (apply_changeset T) (ch_storage cs) (slot_view T db)"
      "\<And>h. stored_code T db1 h = (case stored_code T db h of
          None \<Rightarrow> map_option (bytecode_to_string T) (map_of (ch_contracts cs) h) | Some d \<Rightarrow> Some d)" by auto
    from None insert_effect [where to_plain = to_plain, OF ok(2) plain, of block] obtain db1' where
      db1': "insert_block_with_bundle T to_plain db' block bundle = (Inr (), db1')" "db_ok T db1'"
      "block_tbl db1' = block_tbl db' @ [(?num, the (block_to_json T block))]"
      "acct_view T db1' = apply_accounts (ch_accounts cs) (acct_view T db')"
      "slot_view T db1' = fold (apply_changeset T) (ch_storage cs) (slot_view T db')"
      "\<And>h. stored_code T db1' h = (case stored_code T db' h of
          None \<Rightarrow> map_option (bytecode_to_string T) (map_of (ch_contracts cs) h) | Some d \<Rightarrow> Some d)"
      by (auto simp: insert_error_def same(1))
    have "slot_value T db1' = slot_value T db1"
      unfolding slot_value_def db1(5) db1'(5)
      using fun_cong [OF same(3)] by (intro ext apply_changesets_value) (simp add: slot_value_def)
    then have views: "same_views T db1 db1'" by (simp add: same_views_def db1 db1' same)
    have hashes: "code_hashes T db1 \<subseteq> fst ` set (ch_contracts cs) \<union> code_hashes T db"
    proof
      fix h
      assume "h \<in> code_hashes T db1"
      then consider "h = code_hash (default_account T)" | a bal n where "acct_view T db1 a = Some (bal, n, h)"
        by (auto simp: code_hashes_def)
      then show "h \<in> fst ` set (ch_contracts cs) \<union> code_hashes T db"
      proof cases
        case 2
        show ?thesis
        proof (cases "map_of (rev (ch_accounts cs)) a")
          case None
          with 2 show ?thesis by (auto simp: db1(4) apply_accounts_def code_hashes_def)
        next
          case (Some oacc)
          with 2 obtain acc where acc: "oacc = Some acc" "code_hash acc = h"
            by (auto simp: db1(4) apply_accounts_def account_key_def)
          from Some acc have "(a, Some acc) \<in> set (ch_accounts cs)" by (auto dest: map_of_SomeD)
          with closed acc(2) show ?thesis by (auto simp: codes_closed_def)
        qed
      qed (simp add: code_hashes_def)
    qed
    have "stored_code T db1' h = stored_code T db1 h \<or>
        stored_code T db1 h = None \<and> stored_code T db1' h = Some (code_at h) \<and> h \<notin> code_hashes T db1" for h
    proof (cases "stored_code T db' h = stored_code T db h")
      case False
      with more have old: "stored_code T db h = None" "stored_code T db' h = Some (code_at h)" "h \<notin> code_hashes T db"
        by (auto simp: more_code_def)
      show ?thesis
      proof (cases "map_of (ch_contracts cs) h")
        case None
        with old hashes show ?thesis by (auto simp: db1(6) db1'(6) map_of_eq_None_iff)
      next
        case (Some c)
        with named have "bytecode_to_string T c = code_at h" by (auto simp: codes_named_def dest: map_of_SomeD)
        with Some old show ?thesis by (simp add: db1(6) db1'(6))
      qed
    qed (simp add: db1(6) db1'(6))
    with db1(1,2) db1'(1,2) views show ?thesis by (auto simp: alike_def more_code_def)
  next
    case (Some e)
    with insert_effect [where to_plain = to_plain, OF ok(1) plain, of block] ins have "db1 = db" "r = Inl e" by auto
    moreover from Some have "insert_error db' block rv = Some e" by (simp add: insert_error_def same(1))
    with insert_effect [where to_plain = to_plain, OF ok(2) plain, of block]
    have "insert_block_with_bundle T to_plain db' block bundle = (Inl e, db')" by simp
    ultimately show ?thesis using alike by simp
  qed
qed

text \<open>Deposits.\<close>

lemma alike_same_logs:
  assumes "same_logs db db1" "same_logs db' db1'" "more_code T code_at db db'" "code_hashes T db1 \<subseteq> code_hashes T db"
  shows "more_code T code_at db1 db1'"
  using assms by (auto simp: more_code_def same_logs_def stored_code_def)

lemma credit_alike:
  assumes alike: "alike T code_at db db'" and up: "upsert_account T db a (credit T amount) = Inr db1"
  shows "\<exists>db1'. upsert_account T db' a (credit T amount) = Inr db1' \<and> alike T code_at db1 db1'"
proof -
  have ok: "db_ok T db" "db_ok T db'" and same: "block_tbl db' = block_tbl db" "acct_view T db' = acct_view T db"
    "slot_value T db' = slot_value T db" and more: "more_code T code_at db db'"
    using alike by (simp_all add: alike_def same_views_def)
  from upsert_credit [OF ok(1), of a amount] up have db1: "db_ok T db1" "same_logs db db1"
    "slot_view T db1 = slot_view T db" "acct_view T db1 = credited a amount (acct_view T db)" by (metis sum.inject(2))+
  from upsert_credit [OF ok(2), of a amount] obtain db1' where db1': "upsert_account T db' a (credit T amount) = Inr db1'"
    "db_ok T db1'" "same_logs db' db1'" "slot_view T db1' = slot_view T db'" "acct_view T db1' = credited a amount (acct_view T db')"
    by metis
  have "code_hashes T db1 \<subseteq> code_hashes T db"
    by (auto simp: code_hashes_def db1(4) credited_def split: option.splits if_splits)
  from alike_same_logs [OF db1(2) db1'(3) more this] have "more_code T code_at db1 db1'" .
  moreover have "slot_value T db1' = slot_value T db1"
    using same(3) by (simp add: slot_value_def [abs_def] db1(3) db1'(4))
  moreover have "block_tbl db1' = block_tbl db1" using same(1) db1(2) db1'(3) by (simp add: same_logs_def)
  ultimately show ?thesis
    using db1 db1' same(2) by (auto simp: alike_def same_views_def)
qed

lemma event_alike:
  assumes evm: "evm_reads X" and alike: "alike T code_at db db'"
    and codes: "case executed C X T ev db of None \<Rightarrow> True
      | Some (_, bundle) \<Rightarrow> codes_named T code_at (fst (to_plain bundle)) \<and> codes_closed T db (fst (to_plain bundle))"
    and step: "commit_event C X T to_plain ev db = (r, db1)"
  shows "\<exists>db1'. commit_event C X T to_plain ev db' = (r, db1') \<and> alike T code_at db1 db1'"
proof -
  obtain b tx event where ev: "ev = (b, tx, event)" by (cases ev)
  have ok: "db_ok T db" using alike by (simp add: alike_def)
  show ?thesis
  proof (cases "deposit_of event")
    case (Some d)
    obtain a amount where d: "d = (a, amount)" by (cases d)
    with Some have event: "event = Enter (ucast CHAIN_ID) 0 a amount" by (cases event) (auto split: if_splits)
    from upsert_credit [OF ok, of a amount] obtain db2 where up: "upsert_account T db a (credit T amount) = Inr db2" by metis
    with step have "r = Inr ()" "db1 = db2" by (simp_all add: ev event commit_event_def)
    with credit_alike [OF alike up] show ?thesis by (auto simp: ev event commit_event_def)
  next
    case None
    show ?thesis
    proof (cases "submits_block event")
      case False
      with step alike show ?thesis by (simp add: ev commit_deposit [OF None False])
    next
      case True
      then obtain h where event: "event = BlockSubmitted h" by (cases event) auto
      note same = alike_execute [OF evm alike]
      show ?thesis
      proof (cases "\<exists>header data block changes rest. abi_decode_input C tx = Inr (SubmitBlock header data) \<and>
          execute_block X T db tx header data h = Inr (block, changes, rest)")
        case False
        with step alike show ?thesis
          by (auto simp: ev event commit_event_def same split: sum.splits rollup_call.splits prod.splits)
      next
        case True
        then obtain header data block changes rest where call: "abi_decode_input C tx = Inr (SubmitBlock header data)"
          "execute_block X T db tx header data h = Inr (block, changes, rest)" by blast
        obtain cs rv where plain: "to_plain changes = (cs, rv)" by (cases "to_plain changes")
        from codes call plain have "codes_named T code_at cs" "codes_closed T db cs" by (simp_all add: executed_def ev event)
        from insert_alike [where to_plain = to_plain, OF alike plain this] step call show ?thesis
          by (cases rest) (auto simp: ev event commit_event_def same)
      qed
    qed
  qed
qed

lemma chain_alike:
  assumes "evm_reads X"
  shows "alike T code_at db db' \<Longrightarrow> all_executed C X T to_plain (\<lambda>db cs. codes_named T code_at cs \<and> codes_closed T db cs) evs db \<Longrightarrow>
    run_events (commit_event C X T to_plain) evs db = (r, db1) \<Longrightarrow>
    \<exists>db1'. run_events (commit_event C X T to_plain) evs db' = (r, db1') \<and> alike T code_at db1 db1'"
proof (induction evs arbitrary: db db')
  case (Cons ev evs)
  obtain q db2 where step: "commit_event C X T to_plain ev db = (q, db2)" by (cases "commit_event C X T to_plain ev db")
  from Cons.prems(2) have "case executed C X T ev db of None \<Rightarrow> True
      | Some (_, bundle) \<Rightarrow> codes_named T code_at (fst (to_plain bundle)) \<and> codes_closed T db (fst (to_plain bundle))"
    by (simp add: case_prod_unfold)
  from event_alike [OF assms Cons.prems(1) this step] obtain db2' where
    step': "commit_event C X T to_plain ev db' = (q, db2')" "alike T code_at db2 db2'" by blast
  show ?case
  proof (cases q)
    case (Inl e)
    with step step' Cons.prems(3) show ?thesis by auto
  next
    case (Inr u)
    with Cons.IH [OF step'(2)] step step'(1) Cons.prems(2,3) show ?thesis by simp
  qed
qed auto

text \<open>What a chain leaves in the bytecode table, also when it is reverted.\<close>

lemma commit_event_code:
  assumes ok: "db_ok T db" and more: "more_code T code_at db0 db"
    and codes: "case executed C X T ev db of None \<Rightarrow> True
      | Some (_, bundle) \<Rightarrow> codes_named T code_at (fst (to_plain bundle)) \<and> codes_new T db0 (fst (to_plain bundle))"
    and step: "commit_event C X T to_plain ev db = (r, db1)"
  shows "more_code T code_at db0 db1"
proof -
  have kept: "more_code T code_at db0 db2" if "bytecode_tbl db2 = bytecode_tbl db" for db2
    using more that by (simp add: more_code_def stored_code_def)
  obtain b tx event where ev: "ev = (b, tx, event)" by (cases ev)
  show ?thesis
  proof (cases "executed C X T ev db")
    case None
    have "bytecode_tbl db1 = bytecode_tbl db"
    proof (cases "deposit_of event")
      case (Some d)
      obtain a amount where d: "d = (a, amount)" by (cases d)
      with Some have event: "event = Enter (ucast CHAIN_ID) 0 a amount" by (cases event) (auto split: if_splits)
      from upsert_credit [OF ok, of a amount] obtain db2 where "upsert_account T db a (credit T amount) = Inr db2" "same_logs db db2" by metis
      with step show ?thesis by (simp add: ev event commit_event_def same_logs_def)
    next
      case no_deposit: None
      show ?thesis
      proof (cases "submits_block event")
        case True
        then obtain h where "event = BlockSubmitted h" by (cases event) auto
        with step None show ?thesis
          by (auto simp: ev commit_event_def executed_def split: sum.splits rollup_call.splits prod.splits)
      next
        case False
        with step show ?thesis by (simp add: ev commit_deposit [OF no_deposit False])
      qed
    qed
    then show ?thesis by (rule kept)
  next
    case (Some e)
    obtain block changes where e: "e = (block, changes)" by (cases e)
    obtain cs rv where plain: "to_plain changes = (cs, rv)" by (cases "to_plain changes")
    from Some e step have ins: "insert_block_with_bundle T to_plain db block changes = (r, db1)"
      by (auto simp: executed_def commit_event_def ev split: rollup_event.splits sum.splits rollup_call.splits)
    from codes Some e plain have named: "codes_named T code_at cs" and new: "codes_new T db0 cs" by simp_all
    show ?thesis
    proof (cases "insert_error db block rv")
      case None
      with insert_effect [where to_plain = to_plain, OF ok plain, of block] ins have code:
        "\<And>h. stored_code T db1 h = (case stored_code T db h of
          None \<Rightarrow> map_option (bytecode_to_string T) (map_of (ch_contracts cs) h) | Some d \<Rightarrow> Some d)" by auto
      have "stored_code T db1 h = stored_code T db0 h \<or>
          stored_code T db0 h = None \<and> stored_code T db1 h = Some (code_at h) \<and> h \<notin> code_hashes T db0" for h
      proof (cases "stored_code T db h")
        case no_code: None
        with more have db0: "stored_code T db0 h = None" by (auto simp: more_code_def dest: spec [of _ h])
        show ?thesis
        proof (cases "map_of (ch_contracts cs) h")
          case (Some c)
          then have c: "(h, c) \<in> set (ch_contracts cs)" by (rule map_of_SomeD)
          with named have "bytecode_to_string T c = code_at h" by (auto simp: codes_named_def)
          moreover from c new db0 have "h \<notin> code_hashes T db0" by (force simp: codes_new_def)
          ultimately show ?thesis using Some no_code db0 by (simp add: code)
        qed (simp add: code no_code db0)
      next
        case (Some d)
        with more show ?thesis by (auto simp: more_code_def code dest: spec [of _ h])
      qed
      then show ?thesis by (simp add: more_code_def)
    next
      case (Some e)
      with insert_effect [where to_plain = to_plain, OF ok plain, of block] ins show ?thesis using kept by simp
    qed
  qed
qed

lemma commit_events_code:
  "db_ok T db \<Longrightarrow> more_code T code_at db0 db \<Longrightarrow>
    all_executed C X T to_plain (\<lambda>_ cs. codes_named T code_at cs \<and> codes_new T db0 cs) evs db \<Longrightarrow>
    run_events (commit_event C X T to_plain) evs db = (r, db1) \<Longrightarrow> more_code T code_at db0 db1"
proof (induction evs arbitrary: db)
  case (Cons ev evs)
  obtain q db2 where step: "commit_event C X T to_plain ev db = (q, db2)" by (cases "commit_event C X T to_plain ev db")
  have ok: "db_ok T db2" by (rule commit_event_ok [OF Cons.prems(1) step])
  have "more_code T code_at db0 db2"
    by (rule commit_event_code [OF Cons.prems(1,2) _ step]) (use Cons.prems(3) in \<open>simp add: case_prod_unfold\<close>)
  with Cons.IH [OF ok] Cons.prems(3,4) step show ?case by (cases q) auto
qed simp

lemma revert_events_code:
  assumes "db_ok T db" "run_events (revert_event C T) evs db = (r, db')"
  shows "bytecode_tbl db' = bytecode_tbl db"
proof -
  have tip: "bytecode_tbl db2 = bytecode_tbl db1" if "db_ok T db1" "revert_tip_block T db1 n = (q, db2)" for db1 n q db2
    using revert_body_cases [OF that(1), of n] that(2)
    by (auto simp: revert_tip_block_def in_transaction_def split: if_splits)
  have up: "bytecode_tbl db2 = bytecode_tbl db1" if "upsert_account T db1 a f = Inr db2" for db1 a f db2
    using that by (auto simp: upsert_account_def put_account_eq res account_put_def)
  have "bytecode_tbl db2 = bytecode_tbl db1" if "db_ok T db1" "revert_event C T ev db1 = (q, db2)" for ev db1 q db2
    using that tip up
    by (auto simp: revert_event_def statement_def split: prod.splits rollup_event.splits sum.splits rollup_call.splits if_splits)
  then have "db_ok T db' \<and> bytecode_tbl db' = bytecode_tbl db"
    using assms(1)
    by (intro run_events_invariant [where I = "\<lambda>x. db_ok T x \<and> bytecode_tbl x = bytecode_tbl db", OF _ _ assms(2)])
      (auto dest: revert_event_ok)
  then show ?thesis by simp
qed

text \<open>A chain that is committed and reverted leaves a database that is alike.\<close>

lemma undone_alike:
  assumes ok: "db_ok T db" and rev: "reversible C X T to_plain evs db"
    and accounts: "\<forall>a \<in> set (depositors evs). acct_view T db a \<noteq> None"
    and codes: "all_executed C X T to_plain (\<lambda>_ cs. codes_named T code_at cs \<and> codes_new T db cs) evs db"
  obtains db1 db2 where "run_events (commit_event C X T to_plain) evs db = (Inr (), db1)"
    "run_events (revert_event C T) (rev evs) db1 = (Inr (), db2)" "alike T code_at db db2"
proof -
  from events_undone [OF ok rev] obtain db1 db2 where run: "run_events (commit_event C X T to_plain) evs db = (Inr (), db1)"
    "db_ok T db1" "run_events (revert_event C T) (rev evs) db1 = (Inr (), db2)" and und: "undone (set (depositors evs)) db db2" by blast
  have "acct_view T db2 a = acct_view T db a" for a using undone_cases [OF und, of a] accounts by auto
  then have "same_views T db db2" using und by (auto simp: same_views_def undone_def)
  moreover have "more_code T code_at db db1"
    by (rule commit_events_code [OF ok _ codes run(1)]) (simp add: more_code_def)
  then have "more_code T code_at db db2"
    using revert_events_code [OF run(2,3)] by (simp add: more_code_def stored_code_def)
  ultimately have "alike T code_at db db2" using ok und by (simp add: alike_def undone_def)
  with run(1,3) show thesis by (rule that)
qed

end

section \<open>Reorgs\<close>

text \<open>The rollup on a database, with a new event channel.\<close>

definition fresh_rollup :: "rollup_db \<Rightarrow> 'h rollup" where
  "fresh_rollup db = \<lparr>ro_db = db, ro_events = \<lparr>finished_heights = [], receiver_gone = False\<rparr>\<rparr>"



end
