(* ===== verification/Rollup_Tests.thy ===== *)
theory Rollup_Tests
  imports Rollup_Replay
begin

text \<open>
  The test of the rollup (rollup/src/execution.rs, \<open>mod tests\<close>): the helper that submits one
  transaction as a block, by calldata or by blobs, executes it and stores it, and the test itself,
  which deploys a token, deposits into it and reverts the deposit. What the token's bytecode does
  on the EVM is a parameter (\<open>test_host\<close>); that the helper does the same for both data sources,
  and that the assertions after the revert hold when they held before the deposit, is proved.
\<close>

section \<open>The helper\<close>

definition ROLLUP_SUBMITTER_ADDRESS :: address where
  "ROLLUP_SUBMITTER_ADDRESS = 0x5b0517Dc94c413a5871536872605522E54C85a03"

datatype block_data_source = Calldata | Blobs

text \<open>
  The header, and the L1 submission: the node's interface with the pool as the test fills it, the
  data of the call and the L1 transaction. \<open>now\<close> is the system time in seconds, if it is past the epoch.
\<close>

definition test_block_header :: "u64 \<Rightarrow> u64 \<Rightarrow> zenith_header" where
  "test_block_header sequence now = \<lparr>zh_rollup_chain_id = ucast CHAIN_ID, zh_sequence = ucast sequence,
     zh_confirm_by = ucast now, zh_gas_limit = 30000000, zh_reward_address = ROLLUP_SUBMITTER_ADDRESS\<rparr>"

definition l1_submission ::
  "('code, 'b, 'tx, 'e, 'res, 'st, 'bundle, 'blob, 'cmt, 'ty, 'log) exec_api \<Rightarrow> ('key, 'body, 'tx, 'blob, 'cmt) submitter \<Rightarrow>
   'key \<Rightarrow> bytes \<Rightarrow> block_data_source \<Rightarrow>
   err + ('code, 'b, 'tx, 'e, 'res, 'st, 'bundle, 'blob, 'cmt, 'ty, 'log) exec_api \<times> bytes \<times> 'tx" where
  "l1_submission X S key encoded_transactions source =
     (case source of
        Calldata \<Rightarrow> Inr (X\<lparr>pool_get_blob := (\<lambda>_. Inr None)\<rparr>, encoded_transactions, sign_tx S key (default_body S))
      | Blobs \<Rightarrow> and_then (build_sidecar S encoded_transactions) (\<lambda>sidecar.
          let blob_hashes = rlp_encode_hashes S (versioned_hashes X (snd sidecar));
              transaction = sign_tx S key (blob_body S sidecar) in
          and_then (pool_add S transaction) (\<lambda>_.
          Inr (X\<lparr>pool_get_blob := (\<lambda>h. Inr (if h = tx_hash X transaction then Some (Eip4844 (fst sidecar) (snd sidecar)) else None))\<rparr>,
            blob_hashes, transaction))))"

definition execute_transaction ::
  "('code, 'b, 'tx, 'e, 'res, 'st, 'bundle, 'blob, 'cmt, 'ty, 'log) exec_api \<Rightarrow> ('key, 'body, 'tx, 'blob, 'cmt) submitter \<Rightarrow>
   ('code, 'b) rollup_text \<Rightarrow> ('bundle \<Rightarrow> 'code plain_changeset \<times> 'code plain_reverts) \<Rightarrow>
   err + u64 \<Rightarrow> 'key \<Rightarrow> u64 \<Rightarrow> 'body \<Rightarrow> block_data_source \<Rightarrow> rollup_db \<Rightarrow>
   (err + 'b \<times> ('ty, 'log) receipt list \<times> 'res list) \<times> rollup_db" where
  "execute_transaction X S T to_plain now key sequence body source db =
     (case and_then now (\<lambda>now.
        let block_header = test_block_header sequence now;
            encoded_transactions = rlp_encode_strings S [encode_2718 S (sign_tx S key body)];
            block_data_hash = keccak256 X encoded_transactions in
        and_then (l1_submission X S key encoded_transactions source) (\<lambda>(X, block_data, l1_transaction).
        execute_block X T db l1_transaction block_header block_data block_data_hash)) of
      Inl e \<Rightarrow> (Inl e, db)
    | Inr (block, bundle, receipts, results) \<Rightarrow>
        (case insert_block_with_bundle T to_plain db block bundle of
           (Inl e, db) \<Rightarrow> (Inl e, db)
         | (Inr _, db) \<Rightarrow> (Inr (block, receipts, results), db)))"

section \<open>Both data sources do the same\<close>

lemma other_pool:
  "recover_transactions (X\<lparr>pool_get_blob := p\<rparr>) raws acc = recover_transactions X raws acc"
  "execute_loop (X\<lparr>pool_get_blob := p\<rparr>) h txs pg evm = execute_loop X h txs pg evm"
proof -
  show "recover_transactions (X\<lparr>pool_get_blob := p\<rparr>) raws acc = recover_transactions X raws acc"
    by (induction X raws acc rule: recover_transactions.induct) (auto cong: and_then_cong if_cong)
  show "execute_loop (X\<lparr>pool_get_blob := p\<rparr>) h txs pg evm = execute_loop X h txs pg evm"
    by (induction txs arbitrary: pg evm) (auto simp: Let_def split: prod.splits sum.splits evm_error.splits)
qed

lemma other_pool_block:
  "construct_header (X\<lparr>pool_get_blob := p\<rparr>) T db header = construct_header X T db header"
  "execute_transactions (X\<lparr>pool_get_blob := p\<rparr>) h txs evm = execute_transactions X h txs evm"
  "block_outcome (X\<lparr>pool_get_blob := p\<rparr>) D h txs = block_outcome X D h txs"
proof -
  show "construct_header (X\<lparr>pool_get_blob := p\<rparr>) T db header = construct_header X T db header"
    by (simp add: construct_header_def cong: if_cong option.case_cong)
  show "execute_transactions (X\<lparr>pool_get_blob := p\<rparr>) h txs evm = execute_transactions X h txs evm" for h txs evm
    by (simp add: execute_transactions_def other_pool split: prod.splits sum.splits)
  then show "block_outcome (X\<lparr>pool_get_blob := p\<rparr>) D h txs = block_outcome X D h txs"
    by (simp add: block_outcome_def cong: prod.case_cong sum.case_cong)
qed

lemma calldata_other_pool:
  assumes "\<not> is_eip4844 X tx"
  shows "execute_block (X\<lparr>pool_get_blob := p\<rparr>) T db tx header d h = execute_block X T db tx header d h"
  using assms
  by (simp add: execute_block_outcome decode_transactions_def raw_transactions_def other_pool other_pool_block cong: prod.case_cong)

lemma blob_submission_other_pool: "blob_submission X S \<Longrightarrow> blob_submission (X\<lparr>pool_get_blob := p\<rparr>) S"
  by (simp add: blob_submission_def)

lemma execute_transaction_source:
  assumes laws: "blob_submission X S"
    and body: "is_eip4844 X (sign_tx S key (blob_body S sidecar))" "\<not> is_eip4844 X (sign_tx S key (default_body S))"
    and build: "build_sidecar S (rlp_encode_strings S [encode_2718 S (sign_tx S key body)]) = Inr sidecar"
    and accepted: "pool_add S (sign_tx S key (blob_body S sidecar)) = Inr ()"
  shows "execute_transaction X S T to_plain now key sequence body Blobs db =
    execute_transaction X S T to_plain now key sequence body Calldata db"
proof -
  let ?tx = "sign_tx S key (blob_body S sidecar)" and ?data = "rlp_encode_strings S [encode_2718 S (sign_tx S key body)]"
  let ?X = "X\<lparr>pool_get_blob := (\<lambda>h. Inr (if h = tx_hash X ?tx then Some (Eip4844 (fst sidecar) (snd sidecar)) else None))\<rparr>"
  have "execute_block ?X T db ?tx header (rlp_encode_hashes S (versioned_hashes X (snd sidecar))) h =
      execute_block ?X T db (sign_tx S key (default_body S)) header ?data h" for header h
  proof (rule execute_block_cong)
    have "find_blobs ?X ?tx = Inr (zip ([] @ fst sidecar @ []) ([] @ snd sidecar @ []))" by (simp add: find_blobs_def)
    from blob_submission.blob_data_read [OF blob_submission_other_pool [OF laws] _ _ this, of ?data "sign_tx S key (default_body S)"]
    show "decode_transactions ?X ?tx (rlp_encode_hashes S (versioned_hashes X (snd sidecar))) h =
        decode_transactions ?X (sign_tx S key (default_body S)) ?data h"
      using build body by (simp add: decode_transactions_def versioned_hashes_def)
  qed
  then show ?thesis
    using body(2) by (simp add: execute_transaction_def l1_submission_def build accepted calldata_other_pool Let_def)
qed

section \<open>The test\<close>

text \<open>The transactions that the test signs, and the calls that it makes on the EVM.\<close>

record tx_eip2930 =
  te_chain_id :: u64
  te_nonce :: u64
  te_gas_limit :: u64
  te_gas_price :: u128
  te_to :: "address option" \<comment> \<open>\<open>None\<close> is \<open>TxKind::Create\<close>\<close>
  te_value :: u256
  te_input :: bytes

record tx_env =
  tv_caller :: address
  tv_gas_limit :: u64
  tv_to :: address
  tv_data :: bytes
  tv_nonce :: u64

text \<open>
  What lies in the key pair, the token's bytecode and ABI, and the EVM outside a block: the output
  of a transaction on a database.
\<close>

record ('key, 'body, 'code, 'res) test_host =
  sender_of :: "'key \<Rightarrow> address"
  eip2930_body :: "tx_eip2930 \<Rightarrow> 'body"
  weth_bytecode :: bytes
  created_contract :: "'res \<Rightarrow> address option" \<comment> \<open>of a success with \<open>Output::Create\<close>\<close>
  balance_of_call :: "address \<Rightarrow> bytes" \<comment> \<open>\<open>WETH::balanceOfCall::new(..).abi_encode()\<close>\<close>
  max_tx_gas_limit :: u64
  transact_output :: "'code evm_database \<Rightarrow> tx_env \<Rightarrow> err + bytes option"

definition weth_deployment :: "('key, 'body, 'code, 'res) test_host \<Rightarrow> 'body" where
  "weth_deployment H = eip2930_body H \<lparr>te_chain_id = CHAIN_ID, te_nonce = 1, te_gas_limit = 1500000,
     te_gas_price = 1500000000, te_to = None, te_value = 0, te_input = weth_bytecode H\<rparr>"

definition weth_deposit :: "('key, 'body, 'code, 'res) test_host \<Rightarrow> address \<Rightarrow> 'body" where
  "weth_deposit H weth_address = eip2930_body H \<lparr>te_chain_id = CHAIN_ID, te_nonce = 2, te_gas_limit = 50000,
     te_gas_price = 1500000000, te_to = Some weth_address, te_value = 500000000000000000, te_input = [0xd0, 0xe3, 0x0d, 0xb0]\<rparr>"

definition to_be_bytes :: "u256 \<Rightarrow> bytes" where
  "to_be_bytes x = map (\<lambda>i. ucast (drop_bit (8 * (31 - i)) x)) [0..<32]"

definition assert_that :: "bool \<Rightarrow> err + unit" where
  "assert_that b = (if b then Inr () else Inl (Panic ''assertion failed''))"

text \<open>The sequence of two steps of the test, the second with the result of the first.\<close>

definition db_then :: "('db \<Rightarrow> (err + 'a) \<times> 'db) \<Rightarrow> ('a \<Rightarrow> 'db \<Rightarrow> (err + 'c) \<times> 'db) \<Rightarrow> 'db \<Rightarrow> (err + 'c) \<times> 'db" where
  "db_then m f db = (case m db of (Inl e, db) \<Rightarrow> (Inl e, db) | (Inr x, db) \<Rightarrow> f x db)"

text \<open>The balance the token reports, and the nonce of the sender.\<close>

definition verify_sender ::
  "('key, 'body, 'code, 'res) test_host \<Rightarrow> ('code, 'b) rollup_text \<Rightarrow> address \<Rightarrow> address \<Rightarrow> u256 \<Rightarrow> u64 \<Rightarrow> rollup_db \<Rightarrow> err + unit" where
  "verify_sender H T sender weth amount n db =
     and_then (transact_output H (database_of T db) \<lparr>tv_caller = sender, tv_gas_limit = max_tx_gas_limit H,
        tv_to = weth, tv_data = balance_of_call H sender, tv_nonce = n\<rparr>) (\<lambda>output.
     and_then (assert_that (output = Some (to_be_bytes amount))) (\<lambda>_.
     and_then (get_account T db sender) (\<lambda>account.
     and_then (ok_or (Panic ''unwrap on None'') account) (\<lambda>account.
     assert_that (nonce account = n)))))"

definition test_execute_block ::
  "('key, 'body, 'code, 'res) test_host \<Rightarrow> ('code, 'b, 'tx, 'e, 'res, 'st, 'bundle, 'blob, 'cmt, 'ty, 'log) exec_api \<Rightarrow>
   ('key, 'body, 'tx, 'blob, 'cmt) submitter \<Rightarrow> ('code, 'b) rollup_text \<Rightarrow>
   ('bundle \<Rightarrow> 'code plain_changeset \<times> 'code plain_reverts) \<Rightarrow> (u64 \<Rightarrow> err + u64) \<Rightarrow> 'key \<Rightarrow> (err + unit) \<times> rollup_db" where
  "test_execute_block H X S T to_plain clock key_pair =
     (let sender_address = sender_of H key_pair in
      db_then (\<lambda>db. statement db (upsert_account T db sender_address
        (\<lambda>_. Inr ((default_account T)\<lparr>balance := 1000000000000000000, nonce := 1\<rparr>)))) (\<lambda>_.
      db_then (execute_transaction X S T to_plain (clock 0) key_pair 0 (weth_deployment H) Calldata) (\<lambda>(_, _, results).
      db_then (\<lambda>db. (ok_or (Eyre ''WETH contract address not found'')
        (case results of [] \<Rightarrow> None | result # _ \<Rightarrow> created_contract H result), db)) (\<lambda>weth_address.
      db_then (execute_transaction X S T to_plain (clock 1) key_pair 1 (weth_deposit H weth_address) Blobs) (\<lambda>_.
      db_then (\<lambda>db. (verify_sender H T sender_address weth_address 500000000000000000 3 db, db)) (\<lambda>_.
      db_then (\<lambda>db. revert_tip_block T db 1) (\<lambda>_ db.
      (verify_sender H T sender_address weth_address 0 2 db, db))))))) create_tables)"

text \<open>
  The second half of the test, from the deposit on: when the balance and the nonce were as expected
  before the deposit and after it, they are again as before once the deposit is reverted.
\<close>

lemma verify_same_reads:
  assumes "same_reads (database_of T db') (database_of T db)"
    and "\<And>D D'. same_reads D D' \<Longrightarrow> transact_output H D = transact_output H D'"
  shows "verify_sender H T sender weth amount n db' = verify_sender H T sender weth amount n db"
proof -
  have "rel_sum (=) (rel_option (\<lambda>acc acc'. nonce acc = nonce acc')) (get_account T db' sender) (get_account T db sender)"
    using assms(1)
    by (auto simp: same_reads_def database_of_def db_basic_def account_key_def elim!: sum.rel_mono_strong option.rel_mono_strong)
  then show ?thesis
    unfolding verify_sender_def assms(2) [OF assms(1)]
    by (cases "get_account T db' sender"; cases "get_account T db sender")
      (auto simp: ok_or_def elim!: option.rel_cases)
qed

lemma deposit_is_reverted:
  fixes X :: "('code, 'b, 'tx, 'e, 'res, 'st, 'bundle, 'blob, 'cmt, 'ty, 'log) exec_api"
    and S :: "('key, 'body, 'tx, 'blob, 'cmt) submitter"
  defines "data key body \<equiv> rlp_encode_strings S [encode_2718 S (sign_tx S key body)]"
  assumes laws: "rollup_text_ok T" and submission: "blob_submission X S" and ok: "db_ok T db"
    and body: "is_eip4844 X (sign_tx S key (blob_body S sidecar))" "\<not> is_eip4844 X (sign_tx S key (default_body S))"
    and build: "build_sidecar S (data key (weth_deposit H weth)) = Inr sidecar"
    and accepted: "pool_add S (sign_tx S key (blob_body S sidecar)) = Inr ()"
    and exec: "execute_block X T db (sign_tx S key (default_body S)) (test_block_header 1 now) (data key (weth_deposit H weth))
      (keccak256 X (data key (weth_deposit H weth))) = Inr (block, bundle, receipts, results)"
    and number: "block_number T block = 1" and plain: "to_plain bundle = (cs, rv)"
    and faithful: "faithful_reverts T db cs rv" and wipes: "no_wipes cs rv"
    and tip: "\<forall>k \<in> fst ` set (block_tbl db). k < dec_string 1" and fresh: "no_logs_for (dec_string 1) db"
    and codes: "rollup_text_ok.keeps_codes T db (ch_contracts cs)"
    and call: "\<And>D D'. same_reads D D' \<Longrightarrow> transact_output H D = transact_output H D'"
  obtains db1 db2 where
    "execute_transaction X S T to_plain (Inr now) key 1 (weth_deposit H weth) Blobs db = (Inr (block, receipts, results), db1)"
    "revert_tip_block T db1 1 = (Inr (), db2)"
    "verify_sender H T sender weth amount n db2 = verify_sender H T sender weth amount n db"
proof -
  from rollup_text_ok.insert_then_revert [where to_plain = to_plain and block = block, OF laws ok plain faithful wipes] tip fresh
  obtain db1 db2 where ins: "insert_block_with_bundle T to_plain db block bundle = (Inr (), db1)"
    and revert: "revert_tip_block T db1 1 = (Inr (), db2)"
    and restored: "block_tbl db2 = block_tbl db" "acct_view T db2 = acct_view T db" "slot_value T db2 = slot_value T db"
    by (auto simp: number)
  have "execute_transaction X S T to_plain (Inr now) key 1 (weth_deposit H weth) Calldata db = (Inr (block, receipts, results), db1)"
    using exec body(2) ins
    by (simp add: execute_transaction_def l1_submission_def calldata_other_pool Let_def data_def)
  moreover have "verify_sender H T sender weth amount n db2 = verify_sender H T sender weth amount n db"
    by (rule verify_same_reads [OF rollup_text_ok.insert_revert_same_reads
          [where to_plain = to_plain, OF laws ok plain codes ins revert restored] call])
  ultimately show thesis
    using that revert execute_transaction_source [OF submission body build [unfolded data_def] accepted] by metis
qed

end
