(* ===== verification/Op_Bridge.thy ===== *)
theory Op_Bridge
  imports Sql_Tables Exex_Types
begin

text \<open>
  The OP bridge ExEx (op-bridge/src/main.rs): the tables of deposits and withdrawals, the events of
  the known bridge contracts in a chain, and the notification loop that deletes the rows of a
  reverted chain and inserts those of a committed one. Each statement commits by itself, so the
  rows written before an error stay. The contract's ABI (\<open>sol!\<close>) and reth's accessors are
  parameters; the mapping of addresses, hashes and amounts to text needs no law.
\<close>

section \<open>The tables\<close>

record bridge_row =
  br_block_number :: u64
  br_contract_address :: string
  br_from :: string
  br_to :: string
  br_amount :: string

text \<open>The UNIQUE column of deposits and withdrawals is the transaction hash.\<close>

record bridge_db =
  deposits :: "(string, bridge_row) table"
  withdrawals :: "(string, bridge_row) table"
  contracts :: "(string, string) table"

definition OP_BRIDGES :: "address list" where
  "OP_BRIDGES =
     [0x3154Cf16ccdb4C6d922629664174b904d80F2C35,
      0x3a05E5d33d7Ab3864D53aaEc93c8301C1Fa49115,
      0x697402166Fbf2F22E970df8a6486Ef171dbfc524,
      0x99C9fc46f92E8a1c0deC1b1747d010903E884bE1,
      0x735aDBbE72226BD52e818E7181953f42E3b0FF21,
      0x3B95bC951EE0f553ba487327278cAc44f29715E5]"

definition known_contracts :: "(string \<times> string) list" where
  "known_contracts =
     [(''0x3154Cf16ccdb4C6d922629664174b904d80F2C35'', ''Base''),
      (''0x3a05E5d33d7Ab3864D53aaEc93c8301C1Fa49115'', ''Blast''),
      (''0x697402166Fbf2F22E970df8a6486Ef171dbfc524'', ''Blast''),
      (''0x99C9fc46f92E8a1c0deC1b1747d010903E884bE1'', ''Optimism''),
      (''0x735aDBbE72226BD52e818E7181953f42E3b0FF21'', ''Mode''),
      (''0x3B95bC951EE0f553ba487327278cAc44f29715E5'', ''Manta'')]"

text \<open>\<open>CREATE TABLE IF NOT EXISTS\<close> on an opened database, and the known contracts.\<close>

definition create_bridge_tables :: "bridge_db option \<Rightarrow> bridge_db" where
  "create_bridge_tables existing =
     (let db = (case existing of None \<Rightarrow> \<lparr>deposits = [], withdrawals = [], contracts = []\<rparr> | Some db \<Rightarrow> db)
      in db\<lparr>contracts := fold (\<lambda>(address, name). insert_or_ignore address name) known_contracts (contracts db)\<rparr>)"

section \<open>The events\<close>

datatype bridge_event =
    ETHBridgeInitiated u256 address address \<comment> \<open>amount, from, to\<close>
  | ETHBridgeFinalized u256 address address
  | OtherBridgeEvent

record ('c, 'b, 'tx, 'rcpt, 'lg) bridge_api = "('c, 'b, 'tx, 'rcpt, 'lg) chain_access" +
  decode_bridge_log :: "'lg \<Rightarrow> bridge_event option"
  block_number_of :: "'b \<Rightarrow> u64"
  tx_hash_text :: "'tx \<Rightarrow> string"
  address_text :: "address \<Rightarrow> string"
  amount_text :: "u256 \<Rightarrow> string"

definition decode_chain_into_events ::
  "('c, 'b, 'tx, 'rcpt, 'lg) bridge_api \<Rightarrow> 'c \<Rightarrow> ('b \<times> 'tx \<times> 'lg \<times> bridge_event) list" where
  "decode_chain_into_events B chain =
     List.map_filter (\<lambda>(block, tx, log). map_option (\<lambda>event. (block, tx, log, event)) (decode_bridge_log B log))
       (logs_from B OP_BRIDGES chain)"

section \<open>The handler\<close>

definition bridge_row_of ::
  "('c, 'b, 'tx, 'rcpt, 'lg) bridge_api \<Rightarrow> 'b \<Rightarrow> 'lg \<Rightarrow> u256 \<Rightarrow> address \<Rightarrow> address \<Rightarrow> bridge_row" where
  "bridge_row_of B block log amount from_addr to_addr =
     \<lparr>br_block_number = block_number_of B block, br_contract_address = address_text B (log_address B log),
      br_from = address_text B from_addr, br_to = address_text B to_addr, br_amount = amount_text B amount\<rparr>"

fun revert_bridge_event ::
  "('c, 'b, 'tx, 'rcpt, 'lg) bridge_api \<Rightarrow> 'b \<times> 'tx \<times> 'lg \<times> bridge_event \<Rightarrow> bridge_db \<Rightarrow> bridge_db" where
  "revert_bridge_event B (_, tx, _, ETHBridgeInitiated _ _ _) db =
     db\<lparr>deposits := delete_rows (\<lambda>k. k = tx_hash_text B tx) (deposits db)\<rparr>"
| "revert_bridge_event B (_, tx, _, ETHBridgeFinalized _ _ _) db =
     db\<lparr>withdrawals := delete_rows (\<lambda>k. k = tx_hash_text B tx) (withdrawals db)\<rparr>"
| "revert_bridge_event B (_, _, _, OtherBridgeEvent) db = db"

definition revert_bridge_chain :: "('c, 'b, 'tx, 'rcpt, 'lg) bridge_api \<Rightarrow> 'c \<Rightarrow> bridge_db \<Rightarrow> bridge_db" where
  "revert_bridge_chain B chain db = fold (revert_bridge_event B) (decode_chain_into_events B chain) db"

text \<open>
  A 64-bit unsigned number as a parameter of a statement: SQLite's integers are signed, and the
  conversion fails before the statement runs. A block number is the only such parameter.
\<close>

definition bind_u64 :: "u64 \<Rightarrow> err + u64" where
  "bind_u64 n = (if n < 2 ^ 63 then Inr n else Inl TryFromIntError)"

definition insert_bridge_row :: "string \<Rightarrow> string \<Rightarrow> bridge_row \<Rightarrow> (string, bridge_row) table \<Rightarrow> err + (string, bridge_row) table" where
  "insert_bridge_row tab tx_hash row t =
     and_then (bind_u64 (br_block_number row)) (\<lambda>n. insert_row tab tx_hash (row\<lparr>br_block_number := n\<rparr>) t)"

fun commit_bridge_event ::
  "('c, 'b, 'tx, 'rcpt, 'lg) bridge_api \<Rightarrow> 'b \<times> 'tx \<times> 'lg \<times> bridge_event \<Rightarrow> bridge_db \<Rightarrow> err + bridge_db" where
  "commit_bridge_event B (block, tx, log, ETHBridgeInitiated amount from_addr to_addr) db =
     and_then (insert_bridge_row ''deposits'' (tx_hash_text B tx) (bridge_row_of B block log amount from_addr to_addr)
       (deposits db)) (\<lambda>t. Inr (db\<lparr>deposits := t\<rparr>))"
| "commit_bridge_event B (block, tx, log, ETHBridgeFinalized amount from_addr to_addr) db =
     and_then (insert_bridge_row ''withdrawals'' (tx_hash_text B tx) (bridge_row_of B block log amount from_addr to_addr)
       (withdrawals db)) (\<lambda>t. Inr (db\<lparr>withdrawals := t\<rparr>))"
| "commit_bridge_event B (_, _, _, OtherBridgeEvent) db = Inr db"

fun commit_bridge_events ::
  "('c, 'b, 'tx, 'rcpt, 'lg) bridge_api \<Rightarrow> ('b \<times> 'tx \<times> 'lg \<times> bridge_event) list \<Rightarrow> bridge_db \<Rightarrow>
   (err + unit) \<times> bridge_db" where
  "commit_bridge_events B [] db = (Inr (), db)"
| "commit_bridge_events B (ev # evs) db =
     (case commit_bridge_event B ev db of
        Inl e \<Rightarrow> (Inl e, db)
      | Inr db \<Rightarrow> commit_bridge_events B evs db)"

definition commit_bridge_chain ::
  "('c, 'b, 'tx, 'rcpt, 'lg) bridge_api \<Rightarrow> 'c \<Rightarrow> bridge_db \<Rightarrow> (err + unit) \<times> bridge_db" where
  "commit_bridge_chain B chain = commit_bridge_events B (decode_chain_into_events B chain)"

record 'h op_bridge =
  ob_db :: bridge_db
  ob_events :: "'h events"

definition op_bridge_step ::
  "('c, 'h) exex_api \<Rightarrow> ('c, 'b, 'tx, 'rcpt, 'lg) bridge_api \<Rightarrow>
   'c exex_notification \<Rightarrow> 'h op_bridge \<Rightarrow> (err + unit) \<times> 'h op_bridge" where
  "op_bridge_step A B n s =
     (let db = (case reverted_chain A n of None \<Rightarrow> ob_db s | Some c \<Rightarrow> revert_bridge_chain B c (ob_db s)) in
      case committed_chain A n of
        None \<Rightarrow> (Inr (), s\<lparr>ob_db := db\<rparr>)
      | Some c \<Rightarrow>
         (case commit_bridge_chain B c db of
            (Inl e, db) \<Rightarrow> (Inl e, s\<lparr>ob_db := db\<rparr>)
          | (Inr _, db) \<Rightarrow>
             (case send_event (tip_num_hash A c) (ob_events s) of
                Inl e \<Rightarrow> (Inl e, s\<lparr>ob_db := db\<rparr>)
              | Inr ev \<Rightarrow> (Inr (), s\<lparr>ob_db := db, ob_events := ev\<rparr>))))"

definition op_bridge_exex ::
  "('c, 'h) exex_api \<Rightarrow> ('c, 'b, 'tx, 'rcpt, 'lg) bridge_api \<Rightarrow>
   (err + 'c exex_notification) list \<Rightarrow> 'h op_bridge \<Rightarrow> (err + unit) \<times> 'h op_bridge" where
  "op_bridge_exex A B = run_exex (op_bridge_step A B)"

interpretation op_bridge: exex_handler A "op_bridge_step A B" "\<lambda>s. finished_heights (ob_events s)"
  for A B
  by unfold_locales
    (auto simp: op_bridge_step_def owed_heights_def send_event_def Let_def
      split: prod.splits sum.splits option.splits if_splits)

fun_cases commit_bridge_event_Inr: "commit_bridge_event B ev db = Inr db'"

section \<open>What a commit writes\<close>

text \<open>The rows of a list of events, per table, in order.\<close>

fun deposit_row :: "('c, 'b, 'tx, 'rcpt, 'lg) bridge_api \<Rightarrow> 'b \<times> 'tx \<times> 'lg \<times> bridge_event \<Rightarrow> (string \<times> bridge_row) option" where
  "deposit_row B (block, tx, log, ETHBridgeInitiated amount f t) =
     Some (tx_hash_text B tx, bridge_row_of B block log amount f t)"
| "deposit_row B _ = None"

fun withdrawal_row :: "('c, 'b, 'tx, 'rcpt, 'lg) bridge_api \<Rightarrow> 'b \<times> 'tx \<times> 'lg \<times> bridge_event \<Rightarrow> (string \<times> bridge_row) option" where
  "withdrawal_row B (block, tx, log, ETHBridgeFinalized amount f t) =
     Some (tx_hash_text B tx, bridge_row_of B block log amount f t)"
| "withdrawal_row B _ = None"

abbreviation deposit_rows :: "('c, 'b, 'tx, 'rcpt, 'lg) bridge_api \<Rightarrow> ('b \<times> 'tx \<times> 'lg \<times> bridge_event) list \<Rightarrow> (string \<times> bridge_row) list" where
  "deposit_rows B \<equiv> List.map_filter (deposit_row B)"

abbreviation withdrawal_rows :: "('c, 'b, 'tx, 'rcpt, 'lg) bridge_api \<Rightarrow> ('b \<times> 'tx \<times> 'lg \<times> bridge_event) list \<Rightarrow> (string \<times> bridge_row) list" where
  "withdrawal_rows B \<equiv> List.map_filter (withdrawal_row B)"

text \<open>New keys: distinct among themselves and not in the table.\<close>

definition fresh_rows :: "(string \<times> bridge_row) list \<Rightarrow> (string, bridge_row) table \<Rightarrow> bool" where
  "fresh_rows rows t \<longleftrightarrow> distinct (map fst rows) \<and> fst ` set rows \<inter> fst ` set t = {}"

lemma fresh_rows_simps [simp]:
  "fresh_rows [] t" "fresh_rows (rows @ rows') t \<longleftrightarrow> fresh_rows rows t \<and> fresh_rows rows' (t @ rows)"
  by (auto simp: fresh_rows_def)

text \<open>
  Events whose rows can be inserted, all of them: no transaction has two deposits or two
  withdrawals, none is stored yet, and the block numbers are integers of SQLite.
\<close>

definition insertable :: "('c, 'b, 'tx, 'rcpt, 'lg) bridge_api \<Rightarrow> ('b \<times> 'tx \<times> 'lg \<times> bridge_event) list \<Rightarrow> bridge_db \<Rightarrow> bool" where
  "insertable B evs db \<longleftrightarrow>
     fresh_rows (deposit_rows B evs) (deposits db) \<and> fresh_rows (withdrawal_rows B evs) (withdrawals db) \<and>
     list_all (\<lambda>(_, row). br_block_number row < 2 ^ 63) (deposit_rows B evs @ withdrawal_rows B evs)"

text \<open>The database with the rows of some events after its own.\<close>

definition with_rows :: "('c, 'b, 'tx, 'rcpt, 'lg) bridge_api \<Rightarrow> ('b \<times> 'tx \<times> 'lg \<times> bridge_event) list \<Rightarrow> bridge_db \<Rightarrow> bridge_db" where
  "with_rows B evs db = db\<lparr>deposits := deposits db @ deposit_rows B evs, withdrawals := withdrawals db @ withdrawal_rows B evs\<rparr>"

lemma map_filter_append: "List.map_filter f (xs @ ys) = List.map_filter f xs @ List.map_filter f ys"
  by (simp add: List.map_filter_def)

lemma insertable_append: "insertable B (evs @ evs') db \<longleftrightarrow> insertable B evs db \<and> insertable B evs' (with_rows B evs db)"
  by (auto simp: insertable_def with_rows_def map_filter_append)

lemma with_rows_append: "with_rows B (evs @ evs') db = with_rows B evs' (with_rows B evs db)"
  by (simp add: with_rows_def map_filter_append)

lemma no_rows [simp]: "insertable B [] db" "with_rows B [] db = db"
  by (simp_all add: insertable_def with_rows_def List.map_filter_simps)

text \<open>The errors of an insertion.\<close>

definition insert_errors :: "err set" where
  "insert_errors = {UniqueViolation ''deposits'', UniqueViolation ''withdrawals'', TryFromIntError}"

lemma commit_event_cases:
  "(insertable B [ev] db \<and> commit_bridge_event B ev db = Inr (with_rows B [ev] db)) \<or>
   (\<not> insertable B [ev] db \<and> (\<exists>e \<in> insert_errors. commit_bridge_event B ev db = Inl e))"
proof -
  obtain block tx log e where ev: "ev = (block, tx, log, e)" by (cases ev)
  show ?thesis
    by (cases e)
      (auto simp: ev insertable_def with_rows_def List.map_filter_simps fresh_rows_def insert_bridge_row_def bind_u64_def
        insert_row_def insert_errors_def bridge_row_of_def)
qed

text \<open>Either all rows are written, or those before the first event that cannot be inserted.\<close>

lemma commit_events_ok: "insertable B evs db \<Longrightarrow> commit_bridge_events B evs db = (Inr (), with_rows B evs db)"
proof (induction evs arbitrary: db)
  case (Cons ev evs)
  then have "insertable B [ev] db" "insertable B evs (with_rows B [ev] db)"
    using insertable_append [of B "[ev]" evs db] by simp_all
  with Cons.IH commit_event_cases [of B ev db] with_rows_append [of B "[ev]" evs db] show ?case by auto
qed simp

lemma commit_events_fails:
  assumes "\<not> insertable B evs db"
  shows "\<exists>pre ev suf. \<exists>e \<in> insert_errors. evs = pre @ ev # suf \<and> insertable B pre db \<and> \<not> insertable B (pre @ [ev]) db \<and>
    commit_bridge_events B evs db = (Inl e, with_rows B pre db)"
  using assms
proof (induction evs arbitrary: db)
  case (Cons ev evs)
  show ?case
  proof (cases "insertable B [ev] db")
    case False
    with commit_event_cases [of B ev db] show ?thesis by (intro exI [of _ "[]"] exI [of _ ev] exI [of _ evs]) auto
  next
    case True
    let ?db = "with_rows B [ev] db"
    from Cons.prems True have "\<not> insertable B evs ?db" using insertable_append [of B "[ev]" evs db] by simp
    from Cons.IH [OF this] obtain pre ev' suf e where *: "e \<in> insert_errors" "evs = pre @ ev' # suf" "insertable B pre ?db"
      "\<not> insertable B (pre @ [ev']) ?db" "commit_bridge_events B evs ?db = (Inl e, with_rows B pre ?db)" by blast
    from True commit_event_cases [of B ev db] have "commit_bridge_event B ev db = Inr ?db" by blast
    with * True insertable_append [of B "[ev]" pre db] insertable_append [of B "[ev]" "pre @ [ev']" db]
      with_rows_append [of B "[ev]" pre db] show ?thesis
      by (intro exI [of _ "ev # pre"] exI [of _ ev'] exI [of _ suf] bexI [of _ e]) simp_all
  qed
qed simp

lemma delete_rows_absent: "k \<notin> fst ` set t \<Longrightarrow> delete_rows (\<lambda>k'. k' = k) t = t"
  by (induction t) (auto simp: delete_rows_def)

lemma delete_fresh_rows:
  "fresh_rows rows t \<Longrightarrow> fold (\<lambda>(k, _). delete_rows (\<lambda>k'. k' = k)) rows (t @ rows) = t"
proof (induction rows arbitrary: t)
  case (Cons r rows)
  obtain k v where r: "r = (k, v)" by (cases r)
  from Cons.prems have nk: "k \<notin> fst ` set t" "k \<notin> fst ` set rows" and fresh: "fresh_rows rows t"
    by (auto simp: fresh_rows_def r)
  have "delete_rows (\<lambda>k'. k' = k) (t @ (k, v) # rows) = t @ rows"
    using delete_rows_absent[OF nk(1)] delete_rows_absent[OF nk(2)] by (simp add: delete_rows_def)
  then show ?case using Cons.IH[OF fresh] by (simp add: r)
qed simp

lemma revert_events_eq:
  "fold (revert_bridge_event B) evs db = db\<lparr>
     deposits := fold (\<lambda>(k, _). delete_rows (\<lambda>k'. k' = k)) (deposit_rows B evs) (deposits db),
     withdrawals := fold (\<lambda>(k, _). delete_rows (\<lambda>k'. k' = k)) (withdrawal_rows B evs) (withdrawals db)\<rparr>"
proof (induction evs arbitrary: db)
  case (Cons ev evs)
  obtain block tx log e where ev: "ev = (block, tx, log, e)" by (cases ev)
  show ?case by (cases e) (auto simp: ev List.map_filter_simps Cons.IH)
qed (simp add: List.map_filter_simps)

section \<open>Properties\<close>

text \<open>
  Property C36. A committed chain is stored completely or not beyond the first row that cannot be
  inserted. If no transaction has two deposits (or two withdrawals), none is stored yet, and the
  block numbers are integers of SQLite, then the commit succeeds and the tables gain one row per
  event, in order. Otherwise it fails with the violated UNIQUE constraint or the number that does
  not convert, and the rows of the events before the first offending one have been written.
\<close>

theorem bridge_commit_iff:
  "if insertable B (decode_chain_into_events B chain) db
   then commit_bridge_chain B chain db = (Inr (), with_rows B (decode_chain_into_events B chain) db)
   else \<exists>before ev after. \<exists>e \<in> insert_errors. decode_chain_into_events B chain = before @ ev # after \<and>
     insertable B before db \<and> \<not> insertable B (before @ [ev]) db \<and>
     commit_bridge_chain B chain db = (Inl e, with_rows B before db)"
  using commit_events_ok [of B "decode_chain_into_events B chain" db]
    commit_events_fails [of B "decode_chain_into_events B chain" db]
  by (simp add: commit_bridge_chain_def)

text \<open>
  Property C29. Reverting a committed chain restores the deposits and withdrawals exactly, row by
  row and in their order.
\<close>

theorem bridge_commit_revert:
  assumes "commit_bridge_chain B chain db = (Inr (), db1)"
  shows "revert_bridge_chain B chain db1 = db"
proof -
  let ?evs = "decode_chain_into_events B chain"
  have ok: "insertable B ?evs db"
    using commit_events_fails [of B ?evs db] assms by (auto simp: commit_bridge_chain_def)
  with commit_events_ok [OF ok] assms have db1: "db1 = with_rows B ?evs db"
    by (simp add: commit_bridge_chain_def)
  from ok have "fresh_rows (deposit_rows B ?evs) (deposits db)" "fresh_rows (withdrawal_rows B ?evs) (withdrawals db)"
    by (simp_all add: insertable_def)
  then show ?thesis
    by (simp add: revert_bridge_chain_def revert_events_eq db1 with_rows_def delete_fresh_rows)
qed

text \<open>An API whose chain is its logs: the transaction of a log, and its event.\<close>

definition ref_bridge :: "((nat \<times> bridge_event) list, (nat \<times> bridge_event) list, nat, nat \<times> bridge_event, nat \<times> bridge_event) bridge_api" where
  "ref_bridge = \<lparr>blocks_and_receipts = (\<lambda>c. [(c, c)]), transactions_of = map fst, logs_of = (\<lambda>r. [r]),
     log_address = (\<lambda>_. 0x3154Cf16ccdb4C6d922629664174b904d80F2C35), decode_bridge_log = (\<lambda>l. Some (snd l)),
     block_number_of = (\<lambda>_. 1), tx_hash_text = dec_string, address_text = (\<lambda>_. ''0x''),
     amount_text = (\<lambda>n. dec_string (unat n))\<rparr>"

lemma ref_bridge_events: "decode_chain_into_events ref_bridge c = map (\<lambda>l. (c, fst l, l, snd l)) c"
proof -
  have "logs_from ref_bridge OP_BRIDGES c = map (\<lambda>l. (c, fst l, l)) c"
  proof -
    have "zip (map fst ls) ls = map (\<lambda>l. (fst l, l)) ls" for ls :: "(nat \<times> bridge_event) list"
      by (induction ls) auto
    then show ?thesis
      by (simp add: logs_from_def ref_bridge_def OP_BRIDGES_def comp_def)
  qed
  then show ?thesis by (simp add: decode_chain_into_events_def ref_bridge_def List.map_filter_def comp_def)
qed

lemma ref_bridge_number: "block_number_of ref_bridge b = 1"
  by (simp add: ref_bridge_def)

theorem bridge_commit_revert_witness:
  "\<exists>db1. commit_bridge_chain ref_bridge [(1, ETHBridgeInitiated 5 6 7), (1, ETHBridgeFinalized 5 6 7)]
      (create_bridge_tables None) = (Inr (), db1) \<and>
    revert_bridge_chain ref_bridge [(1, ETHBridgeInitiated 5 6 7), (1, ETHBridgeFinalized 5 6 7)] db1 =
      create_bridge_tables None"
proof -
  obtain db1 where "commit_bridge_chain ref_bridge [(1, ETHBridgeInitiated 5 6 7), (1, ETHBridgeFinalized 5 6 7)]
      (create_bridge_tables None) = (Inr (), db1)"
    by (simp add: commit_bridge_chain_def ref_bridge_events create_bridge_tables_def insert_bridge_row_def bind_u64_def
        insert_row_def bridge_row_of_def ref_bridge_number)
  with bridge_commit_revert[OF this] show ?thesis by blast
qed

text \<open>
  Two deposits of one transaction stop the bridge: the UNIQUE constraint is on the
  transaction hash, so the chain fails to commit, no height is reported, the rows before the
  failure stay written, and when the node delivers the same chain again it fails again at once,
  since the first of its rows is already there.
\<close>

lemma two_deposits_stop_the_bridge:
  assumes "exex_api_ok A"
    and events: "decode_chain_into_events B chain =
      (b1, tx, l1, ETHBridgeInitiated m1 f1 t1) # (b2, tx, l2, ETHBridgeInitiated m2 f2 t2) # evs"
    and new: "tx_hash_text B tx \<notin> fst ` set (deposits (ob_db s))"
    and numbers: "block_number_of B b1 < 2 ^ 63" "block_number_of B b2 < 2 ^ 63"
  shows "\<exists>s'. op_bridge_step A B (ChainCommitted chain) s = (Inl (UniqueViolation ''deposits''), s') \<and>
    ob_events s' = ob_events s \<and>
    deposits (ob_db s') = deposits (ob_db s) @ [(tx_hash_text B tx, bridge_row_of B b1 l1 m1 f1 t1)] \<and>
    op_bridge_step A B (ChainCommitted chain) s' = (Inl (UniqueViolation ''deposits''), s')"
  using assms
  by (simp add: op_bridge_step_def commit_bridge_chain_def events insert_bridge_row_def bind_u64_def bridge_row_of_def insert_row_def Let_def)

lemma two_deposits_stop_the_bridge_witness:
  "\<exists>s'. op_bridge_step (std_exex_api length) ref_bridge
      (ChainCommitted [(1, ETHBridgeInitiated 5 6 7), (1, ETHBridgeInitiated 8 6 7)])
      \<lparr>ob_db = create_bridge_tables None, ob_events = \<lparr>finished_heights = [], receiver_gone = False\<rparr>\<rparr> =
    (Inl (UniqueViolation ''deposits''), s')"
  using two_deposits_stop_the_bridge [OF std_exex_api_ok ref_bridge_events [of "[(1, ETHBridgeInitiated 5 6 7), (1, ETHBridgeInitiated 8 6 7)]",
      simplified], of "\<lparr>ob_db = create_bridge_tables None, ob_events = \<lparr>finished_heights = [], receiver_gone = False\<rparr>\<rparr>" length]
  by (auto simp: create_bridge_tables_def ref_bridge_number)

end
