(* ===== verification/Exex_Sessions.thy ===== *)
theory Exex_Sessions
  imports Rollup_Main_Props Op_Bridge
begin

text \<open>
  The two ExExes that keep their state in a SQLite file, the rollup and the OP bridge, from the
  opening of the file: \<open>Rollup::new\<close> with \<open>Database::new\<close>, \<open>init\<close> of the bridge, and the closures
  that the \<open>main\<close> functions install. A session is a run from the file as it is to the file as the
  run leaves it, with an event channel of its own. The locale \<open>persistent_exex\<close> is the contract of
  such an ExEx: a step depends on the file's content alone, so a restart between notifications
  changes nothing.
\<close>

section \<open>Sessions over a persistent store\<close>

locale persistent_exex = exex_handler A step heights
  for A :: "('c, 'h) exex_api" and step :: "'c exex_notification \<Rightarrow> 's \<Rightarrow> (err + unit) \<times> 's" and heights :: "'s \<Rightarrow> 'h list" +
  fixes session :: "'db \<Rightarrow> 's" \<comment> \<open>a new session on a store\<close>
    and store :: "'s \<Rightarrow> 'db"
    and ready :: "'s \<Rightarrow> bool" \<comment> \<open>tables are there, and the channel of the session is open\<close>
  assumes session_ready: "ready (session db)" and no_heights: "heights (session db) = []"
    and reopen: "ready s \<Longrightarrow> store (session (store s)) = store s"
    and step_ready: "ready s \<Longrightarrow> step n s = (r, s') \<Longrightarrow> ready s'"
    and step_store: "ready s \<Longrightarrow> ready t \<Longrightarrow> store s = store t \<Longrightarrow> step n s = (r, s') \<Longrightarrow>
      \<exists>t'. step n t = (r, t') \<and> store t' = store s'"
begin

lemma run_store:
  assumes "ready s" "ready t" "store s = store t" "run_exex step ns s = (r, s')"
  shows "\<exists>t' new. run_exex step ns t = (r, t') \<and> store t' = store s' \<and>
    heights s' = heights s @ new \<and> heights t' = heights t @ new"
  using assms
proof (induction ns arbitrary: s t)
  case Nil
  then show ?case by auto
next
  case (Cons m ns)
  show ?case
  proof (cases m)
    case (Inl e)
    with Cons.prems show ?thesis by auto
  next
    case (Inr n)
    obtain q s1 where st: "step n s = (q, s1)" by (cases "step n s")
    from step_store [OF Cons.prems(1-3) st] obtain t1 where t1: "step n t = (q, t1)" "store t1 = store s1" by blast
    show ?thesis
    proof (cases q)
      case (Inl e)
      with Inr st t1 Cons.prems step_err [of n s e s1] step_err [of n t e t1] show ?thesis by auto
    next
      case q: (Inr u)
      note ready = step_ready [OF Cons.prems(1) st] step_ready [OF Cons.prems(2) t1(1)]
      from Cons.prems(4) Inr st q have "run_exex step ns s1 = (r, s')" by simp
      from Cons.IH [OF ready t1(2) [symmetric] this] obtain t' new where
        "run_exex step ns t1 = (r, t')" "store t' = store s'" "heights s' = heights s1 @ new" "heights t' = heights t1 @ new"
        by blast
      with Inr q t1(1) step_ok [OF st [unfolded q]] step_ok [OF t1(1) [unfolded q]] show ?thesis
        by (intro exI [of _ t'] exI [of _ "owed_heights A n @ new"]) simp
    qed
  qed
qed

lemma run_exex_append:
  "run_exex step ns s = (Inr (), s1) \<Longrightarrow> run_exex step (ns @ ms) s = run_exex step ms s1"
proof (induction ns arbitrary: s)
  case (Cons m ns)
  then show ?case by (cases m) (auto split: prod.splits sum.splits)
qed simp

lemma run_ready: "ready s \<Longrightarrow> run_exex step ns s = (r, s') \<Longrightarrow> ready s'"
  by (rule run_exex_invariant [where I = ready, OF step_ready])

lemma resume:
  assumes "run_exex step ns (session db) = (Inr (), s1)" "run_exex step ms (session (store s1)) = (r, s2)"
  shows "\<exists>s. run_exex step (ns @ ms) (session db) = (r, s) \<and> store s = store s2 \<and> heights s = heights s1 @ heights s2"
proof -
  have ready: "ready s1" by (rule run_ready [OF session_ready assms(1)])
  from run_store [OF session_ready ready reopen [OF ready] assms(2)] obtain t' new where
    "run_exex step ms s1 = (r, t')" "store t' = store s2" "heights s2 = new" "heights t' = heights s1 @ new"
    by (auto simp: no_heights)
  then show ?thesis by (simp add: run_exex_append [OF assms(1)])
qed

end

section \<open>The rollup\<close>

text \<open>A database file: the tables that it has. \<open>CREATE TABLE IF NOT EXISTS\<close> keeps a table that exists.\<close>

record rollup_file =
  block_of :: "(string, string) table option"
  account_of :: "(string, string) table option"
  account_revert_of :: "(string \<times> string, string) table option"
  storage_of :: "(string \<times> string, string) table option"
  storage_revert_of :: "(string \<times> string \<times> string, string) table option"
  bytecode_of :: "(string, string) table option"

definition create_if_absent :: "('k, 'v) table option \<Rightarrow> ('k, 'v) table" where
  "create_if_absent t = (case t of None \<Rightarrow> [] | Some rows \<Rightarrow> rows)"

definition new_database :: "rollup_file \<Rightarrow> rollup_db" where
  "new_database f = \<lparr>block_tbl = create_if_absent (block_of f), account_tbl = create_if_absent (account_of f),
     account_revert_tbl = create_if_absent (account_revert_of f), storage_tbl = create_if_absent (storage_of f),
     storage_revert_tbl = create_if_absent (storage_revert_of f), bytecode_tbl = create_if_absent (bytecode_of f)\<rparr>"

definition rollup_file_of :: "rollup_db \<Rightarrow> rollup_file" where
  "rollup_file_of db = \<lparr>block_of = Some (block_tbl db), account_of = Some (account_tbl db),
     account_revert_of = Some (account_revert_tbl db), storage_of = Some (storage_tbl db),
     storage_revert_of = Some (storage_revert_tbl db), bytecode_of = Some (bytecode_tbl db)\<rparr>"

definition no_rollup_file :: rollup_file where
  "no_rollup_file = \<lparr>block_of = None, account_of = None, account_revert_of = None, storage_of = None,
     storage_revert_of = None, bytecode_of = None\<rparr>"

lemma new_database_simps [simp]:
  "new_database (rollup_file_of db) = db" "new_database no_rollup_file = create_tables"
  by (simp_all add: new_database_def rollup_file_of_def no_rollup_file_def create_tables_def create_if_absent_def)

definition new_rollup :: "'h events \<Rightarrow> rollup_file \<Rightarrow> 'h rollup" where
  "new_rollup ctx connection = \<lparr>ro_db = new_database connection, ro_events = ctx\<rparr>"

text \<open>The closure installed by \<open>main\<close>: \<open>open_file\<close> is what \<open>Connection::open\<close> answers.\<close>

definition DATABASE_PATH :: string where
  "DATABASE_PATH = ''rollup.db''"

definition rollup_main ::
  "('c, 'h) exex_api \<Rightarrow> ('c, 'b, 'tx, 'rcpt, 'lg) chain_api \<Rightarrow>
   ('code, 'b, 'tx, 'e, 'res, 'st, 'bundle, 'blob, 'cmt, 'ty, 'log) exec_api \<Rightarrow>
   ('code, 'b) rollup_text \<Rightarrow> ('bundle \<Rightarrow> 'code plain_changeset \<times> 'code plain_reverts) \<Rightarrow>
   (string \<Rightarrow> err + rollup_file) \<Rightarrow> 'h events \<Rightarrow> err + ((err + 'c exex_notification) list \<Rightarrow> (err + unit) \<times> 'h rollup)" where
  "rollup_main A C X T to_plain open_file ctx =
     and_then (open_file DATABASE_PATH) (\<lambda>connection.
     Inr (\<lambda>ns. start_rollup A C X T to_plain ns (new_rollup ctx connection)))"

definition no_events :: "'h events" where
  "no_events = \<lparr>finished_heights = [], receiver_gone = False\<rparr>"

interpretation rollup_sessions: persistent_exex A "rollup_step A C X T to_plain" "\<lambda>s. finished_heights (ro_events s)"
  "\<lambda>db. new_rollup no_events (rollup_file_of db)" ro_db "\<lambda>s. \<not> receiver_gone (ro_events s)"
  for A :: "('c, 'h) exex_api" and C X T to_plain
proof unfold_locales
  fix n s r s' and t :: "'h rollup"
  assume step: "rollup_step A C X T to_plain n s = (r, s')" and "\<not> receiver_gone (ro_events s)"
  then show "\<not> receiver_gone (ro_events s')"
    by (auto simp: rollup_step_def send_event_def split: prod.splits sum.splits option.splits if_splits)
  assume "\<not> receiver_gone (ro_events s)" "\<not> receiver_gone (ro_events t)" "ro_db s = ro_db t"
  with step show "\<exists>t'. rollup_step A C X T to_plain n t = (r, t') \<and> ro_db t' = ro_db s'"
    by (auto simp: rollup_step_def send_event_def split: prod.splits sum.splits option.splits if_splits)
qed (simp_all add: new_rollup_def no_events_def)

section \<open>The OP bridge\<close>

text \<open>\<open>init\<close>, and the closure of \<open>main\<close>; the content of the file is \<open>None\<close> when it is new.\<close>

definition init_bridge :: "'h events \<Rightarrow> bridge_db option \<Rightarrow> 'h op_bridge" where
  "init_bridge ctx connection = \<lparr>ob_db = create_bridge_tables connection, ob_events = ctx\<rparr>"

definition op_bridge_main ::
  "('c, 'h) exex_api \<Rightarrow> ('c, 'b, 'tx, 'rcpt, 'lg) bridge_api \<Rightarrow> (string \<Rightarrow> err + bridge_db option) \<Rightarrow> 'h events \<Rightarrow>
   err + ((err + 'c exex_notification) list \<Rightarrow> (err + unit) \<times> 'h op_bridge)" where
  "op_bridge_main A B open_file ctx =
     and_then (open_file ''op_bridge.db'') (\<lambda>connection.
     Inr (\<lambda>ns. op_bridge_exex A B ns (init_bridge ctx connection)))"

text \<open>The known contracts are inserted on every start, and stay as they are when they are there.\<close>

lemma keys_insert_or_ignore: "fst ` set (insert_or_ignore k v t) = insert k (fst ` set t)"
  by (auto simp: insert_or_ignore_def image_iff)

lemma keys_insert_all: "fst ` set (fold (\<lambda>(k, v). insert_or_ignore k v) kvs t) = fst ` set t \<union> fst ` set kvs"
  by (induction kvs arbitrary: t) (simp_all add: keys_insert_or_ignore split_beta)

lemma insert_all_again: "fst ` set kvs \<subseteq> fst ` set t \<Longrightarrow> fold (\<lambda>(k, v). insert_or_ignore k v) kvs t = t"
  by (induction kvs) (simp_all add: insert_or_ignore_def split_beta)

abbreviation knows_contracts :: "bridge_db \<Rightarrow> bool" where
  "knows_contracts db \<equiv> fst ` set known_contracts \<subseteq> fst ` set (contracts db)"

lemma create_bridge_tables_again:
  "knows_contracts (create_bridge_tables f)" "knows_contracts db \<Longrightarrow> create_bridge_tables (Some db) = db"
  by (auto simp: create_bridge_tables_def Let_def keys_insert_all insert_all_again split: option.splits)

lemma bridge_contracts:
  "contracts (revert_bridge_chain B c db) = contracts db"
  "commit_bridge_chain B c db = (r, db') \<Longrightarrow> contracts db' = contracts db"
proof -
  have "contracts (fold (revert_bridge_event B) evs db) = contracts db" for evs db
  proof (induction evs arbitrary: db)
    case (Cons ev evs)
    have "contracts (revert_bridge_event B ev db) = contracts db" by (cases "(B, ev, db)" rule: revert_bridge_event.cases) auto
    with Cons show ?case by simp
  qed simp
  then show "contracts (revert_bridge_chain B c db) = contracts db" by (simp add: revert_bridge_chain_def)
  have "commit_bridge_events B evs db = (r, db') \<Longrightarrow> contracts db' = contracts db" for evs db
  proof (induction evs arbitrary: db)
    case (Cons ev evs)
    have "commit_bridge_event B ev db = Inr db1 \<Longrightarrow> contracts db1 = contracts db" for db1
      by (cases "(B, ev, db)" rule: commit_bridge_event.cases) (auto simp: res)
    with Cons show ?case by (auto split: sum.splits)
  qed simp
  then show "commit_bridge_chain B c db = (r, db') \<Longrightarrow> contracts db' = contracts db" by (simp add: commit_bridge_chain_def)
qed

interpretation bridge_sessions: persistent_exex A "op_bridge_step A B" "\<lambda>s. finished_heights (ob_events s)"
  "\<lambda>db. init_bridge no_events (Some db)" ob_db "\<lambda>s. \<not> receiver_gone (ob_events s) \<and> knows_contracts (ob_db s)"
  for A :: "('c, 'h) exex_api" and B
proof unfold_locales
  fix n s r s' and t :: "'h op_bridge"
  assume step: "op_bridge_step A B n s = (r, s')" and ready: "\<not> receiver_gone (ob_events s) \<and> knows_contracts (ob_db s)"
  have "contracts (ob_db s') = contracts (ob_db s)" "receiver_gone (ob_events s') = receiver_gone (ob_events s)"
    using step by (auto simp: op_bridge_step_def send_event_def bridge_contracts(1) Let_def
        split: prod.splits sum.splits option.splits if_splits dest!: bridge_contracts(2))
  with ready show "\<not> receiver_gone (ob_events s') \<and> knows_contracts (ob_db s')" by simp
  assume "\<not> receiver_gone (ob_events t) \<and> knows_contracts (ob_db t)" "ob_db s = ob_db t"
  with step ready show "\<exists>t'. op_bridge_step A B n t = (r, t') \<and> ob_db t' = ob_db s'"
    by (auto simp: op_bridge_step_def send_event_def Let_def split: prod.splits sum.splits option.splits if_splits)
qed (simp_all add: init_bridge_def no_events_def create_bridge_tables_again)

section \<open>Restarts\<close>

text \<open>A session from a file: the result, the heights reported in it, and the file it leaves.\<close>

definition rollup_session ::
  "('c, 'h) exex_api \<Rightarrow> ('c, 'b, 'tx, 'rcpt, 'lg) chain_api \<Rightarrow>
   ('code, 'b, 'tx, 'e, 'res, 'st, 'bundle, 'blob, 'cmt, 'ty, 'log) exec_api \<Rightarrow>
   ('code, 'b) rollup_text \<Rightarrow> ('bundle \<Rightarrow> 'code plain_changeset \<times> 'code plain_reverts) \<Rightarrow>
   (err + 'c exex_notification) list \<Rightarrow> rollup_file \<Rightarrow> (err + unit) \<times> 'h list \<times> rollup_file" where
  "rollup_session A C X T to_plain ns f =
     (case start_rollup A C X T to_plain ns (new_rollup no_events f) of
        (r, s) \<Rightarrow> (r, finished_heights (ro_events s), rollup_file_of (ro_db s)))"

definition op_bridge_session ::
  "('c, 'h) exex_api \<Rightarrow> ('c, 'b, 'tx, 'rcpt, 'lg) bridge_api \<Rightarrow>
   (err + 'c exex_notification) list \<Rightarrow> bridge_db option \<Rightarrow> (err + unit) \<times> 'h list \<times> bridge_db option" where
  "op_bridge_session A B ns f =
     (case op_bridge_exex A B ns (init_bridge no_events f) of
        (r, s) \<Rightarrow> (r, finished_heights (ob_events s), Some (ob_db s)))"

lemma op_bridge_resumes:
  assumes "op_bridge_session A B ns f = (Inr (), hs, f1)" "op_bridge_session A B ms f1 = (r, hs', f2)"
  shows "op_bridge_session A B (ns @ ms) f = (r, hs @ hs', f2)"
proof -
  have f: "init_bridge no_events f = init_bridge no_events (Some (create_bridge_tables f))"
    by (simp add: init_bridge_def create_bridge_tables_again)
  from assms obtain s1 s2 where "op_bridge_exex A B ns (init_bridge no_events (Some (create_bridge_tables f))) = (Inr (), s1)"
    "op_bridge_exex A B ms (init_bridge no_events (Some (ob_db s1))) = (r, s2)"
    and files: "hs = finished_heights (ob_events s1)" "hs' = finished_heights (ob_events s2)" "f2 = Some (ob_db s2)"
    by (auto simp: op_bridge_session_def f [symmetric] split: prod.splits)
  from bridge_sessions.resume [OF this(1,2) [unfolded op_bridge_exex_def]] show ?thesis
    by (auto simp: op_bridge_session_def op_bridge_exex_def f files)
qed

text \<open>
  Property C14. A restart of the rollup between two notifications is invisible. Let it process some
  notifications from a database file (new, complete or with some of its tables) until its stream
  ends, and then be started again on the file that is left, with a new event channel: the result,
  the reported heights taken together and the file are those of one run over all notifications.
\<close>

theorem rollup_resumes:
  assumes "rollup_session A C X T to_plain ns f = (Inr (), hs, f1)" "rollup_session A C X T to_plain ms f1 = (r, hs', f2)"
  shows "rollup_session A C X T to_plain (ns @ ms) f = (r, hs @ hs', f2)"
proof -
  have f: "new_rollup no_events f = new_rollup no_events (rollup_file_of (new_database f))"
    by (simp add: new_rollup_def)
  from assms obtain s1 s2 where
    "start_rollup A C X T to_plain ns (new_rollup no_events (rollup_file_of (new_database f))) = (Inr (), s1)"
    "start_rollup A C X T to_plain ms (new_rollup no_events (rollup_file_of (ro_db s1))) = (r, s2)"
    and files: "hs = finished_heights (ro_events s1)" "hs' = finished_heights (ro_events s2)" "f2 = rollup_file_of (ro_db s2)"
    by (auto simp: rollup_session_def f [symmetric] split: prod.splits)
  from rollup_sessions.resume [OF this(1,2) [unfolded start_rollup_def]] show ?thesis
    by (auto simp: rollup_session_def start_rollup_def f files)
qed

text \<open>A deposit in a first session on a new file, an ignored event in a second one that ends with an error.\<close>

theorem rollup_resumes_witness:
  "\<exists>f. rollup_session (std_exex_api length) (ref_chain 5) ref_exec ref_text (\<lambda>b. b)
     [Inr (ChainCommitted [Enter 17001 0 1 8]), Inr (ChainCommitted [OtherEvent]), Inl (External ''stream'')] no_rollup_file =
       (Inl (External ''stream''), [1, 1], f)"
proof -
  let ?run = "rollup_session (std_exex_api length) (ref_chain 5) ref_exec ref_text (\<lambda>b. b)"
  have ev: "decode_chain_into_rollup_events (ref_chain 5) [e] = [(0, 1, e)]" for e
    by (simp add: decode_chain_into_rollup_events_def logs_from_def ref_chain_def List.map_filter_def)
  obtain db where "upsert_account ref_text create_tables 1 (credit ref_text 8) = Inr db"
    using ref.upsert_credit [OF create_tables_ok, of 1 8] by metis
  then have "?run [Inr (ChainCommitted [Enter 17001 0 1 8])] no_rollup_file = (Inr (), [1], rollup_file_of db)"
    by (simp add: rollup_session_def start_rollup_def rollup_step_def commit_chain_def ev commit_event_def CHAIN_ID_def
        send_event_def new_rollup_def no_events_def)
  moreover have "?run [Inr (ChainCommitted [OtherEvent]), Inl (External ''stream'')] (rollup_file_of db) =
      (Inl (External ''stream''), [1], rollup_file_of db)"
    by (simp add: rollup_session_def start_rollup_def rollup_step_def commit_chain_def ev commit_event_def
        send_event_def new_rollup_def no_events_def)
  ultimately have "?run ([Inr (ChainCommitted [Enter 17001 0 1 8])] @ [Inr (ChainCommitted [OtherEvent]), Inl (External ''stream'')])
      no_rollup_file = (Inl (External ''stream''), [1] @ [1], rollup_file_of db)" by (rule rollup_resumes)
  then show ?thesis by simp
qed

end
