(* ===== verification/Codec_Types.thy ===== *)
theory Codec_Types
  imports Exex_Types
begin

text \<open>
  The data that the codec of the remote ExEx converts (remote/src/codec.rs): the native types of
  reth, alloy and revm, with the fields the codec reads or writes, and the protobuf messages of
  remote/proto/exex.proto as prost generates them (a message field is an option, a oneof an option
  of a datatype, an enum an \<open>i32\<close>). A hash map is an association list with distinct keys. Native
  fields that do not travel are kept, so that the theorems can say that they are lost. \<open>usize\<close> is
  the 64-bit word of the platforms reth supports.
\<close>

section \<open>Native types\<close>

record eth_header =
  eh_parent_hash :: b256
  eh_ommers_hash :: b256
  eh_beneficiary :: address
  eh_state_root :: b256
  eh_transactions_root :: b256
  eh_receipts_root :: b256
  eh_withdrawals_root :: "b256 option"
  eh_logs_bloom :: bloom
  eh_difficulty :: u256
  eh_number :: u64
  eh_gas_limit :: u64
  eh_gas_used :: u64
  eh_timestamp :: u64
  eh_mix_hash :: b256
  eh_nonce :: b64
  eh_base_fee_per_gas :: "u64 option"
  eh_blob_gas_used :: "u64 option"
  eh_excess_blob_gas :: "u64 option"
  eh_parent_beacon_block_root :: "b256 option"
  eh_requests_hash :: "b256 option"
  eh_extra_data :: bytes

datatype tx_kind = TxCreate | TxCall address

record access_list_item =
  al_address :: address
  al_storage_keys :: "b256 list"

record signed_authorization =
  au_chain_id :: u256
  au_address :: address
  au_nonce :: u64
  au_y_parity :: u8
  au_r :: u256
  au_s :: u256

record tx_legacy =
  tl_chain_id :: "u64 option"
  tl_nonce :: u64
  tl_gas_price :: u128
  tl_gas_limit :: u64
  tl_to :: tx_kind
  tl_value :: u256
  tl_input :: bytes

record tx_eip2930 =
  ta_chain_id :: u64
  ta_nonce :: u64
  ta_gas_price :: u128
  ta_gas_limit :: u64
  ta_to :: tx_kind
  ta_value :: u256
  ta_access_list :: "access_list_item list"
  ta_input :: bytes

record tx_eip1559 =
  tf_chain_id :: u64
  tf_nonce :: u64
  tf_gas_limit :: u64
  tf_max_fee_per_gas :: u128
  tf_max_priority_fee_per_gas :: u128
  tf_to :: tx_kind
  tf_value :: u256
  tf_access_list :: "access_list_item list"
  tf_input :: bytes

record tx_eip4844 =
  tb_chain_id :: u64
  tb_nonce :: u64
  tb_gas_limit :: u64
  tb_max_fee_per_gas :: u128
  tb_max_priority_fee_per_gas :: u128
  tb_to :: address
  tb_value :: u256
  tb_access_list :: "access_list_item list"
  tb_blob_versioned_hashes :: "b256 list"
  tb_max_fee_per_blob_gas :: u128
  tb_input :: bytes

record tx_eip7702 =
  ts_chain_id :: u64
  ts_nonce :: u64
  ts_gas_limit :: u64
  ts_max_fee_per_gas :: u128
  ts_max_priority_fee_per_gas :: u128
  ts_to :: address
  ts_value :: u256
  ts_access_list :: "access_list_item list"
  ts_authorization_list :: "signed_authorization list"
  ts_input :: bytes

datatype typed_transaction =
    TxLegacy tx_legacy
  | TxEip2930 tx_eip2930
  | TxEip1559 tx_eip1559
  | TxEip4844 tx_eip4844
  | TxEip7702 tx_eip7702

record signature =
  sg_r :: u256
  sg_s :: u256
  sg_v :: bool

record transaction_signed =
  tr_transaction :: typed_transaction
  tr_signature :: signature
  tr_hash :: b256

datatype tx_type = LegacyType | Eip2930Type | Eip1559Type | Eip4844Type | Eip7702Type

record eth_log =
  lg_address :: address
  lg_topics :: "b256 list"
  lg_data :: bytes

record eth_receipt =
  er_tx_type :: tx_type
  er_success :: bool
  er_cumulative_gas_used :: u64
  er_logs :: "eth_log list"

datatype account_status =
    LoadedNotExisting | Loaded | LoadedEmptyEIP161 | InMemoryChange | Changed
  | Destroyed | DestroyedChanged | DestroyedAgain

record storage_slot =
  sl_previous_or_original_value :: u256
  sl_present_value :: u256

record 'bc bundle_account =
  ba_info :: "'bc account_info option"
  ba_original_info :: "'bc account_info option"
  ba_storage :: "(u256 \<times> storage_slot) list"
  ba_status :: account_status

datatype 'bc account_info_revert = DoNothing | DeleteIt | RevertTo "'bc account_info"

record 'bc account_revert =
  ar_account :: "'bc account_info_revert"
  ar_storage :: "(u256 \<times> revert_to_slot) list"
  ar_previous_status :: account_status
  ar_wipe_storage :: bool

record 'bc bundle_state =
  bs_state :: "(address \<times> 'bc bundle_account) list"
  bs_contracts :: "(b256 \<times> 'bc) list"
  bs_reverts :: "(address \<times> 'bc account_revert) list list"
  bs_state_size :: u64
  bs_reverts_size :: u64

record ('bc, 'rq) execution_outcome =
  eo_bundle :: "'bc bundle_state"
  eo_receipts :: "eth_receipt list list"
  eo_first_block :: u64
  eo_requests :: "'rq list"

record 'wd recovered_block =
  rb_hash :: b256
  rb_header :: eth_header
  rb_transactions :: "transaction_signed list"
  rb_ommers :: "eth_header list"
  rb_withdrawals :: "'wd option"
  rb_senders :: "address list"

section \<open>Messages\<close>

record p_header =
  ph_parent_hash :: bytes
  ph_ommers_hash :: bytes
  ph_beneficiary :: bytes
  ph_state_root :: bytes
  ph_transactions_root :: bytes
  ph_receipts_root :: bytes
  ph_withdrawals_root :: "bytes option"
  ph_logs_bloom :: bytes
  ph_difficulty :: bytes
  ph_number :: u64
  ph_gas_limit :: u64
  ph_gas_used :: u64
  ph_timestamp :: u64
  ph_mix_hash :: bytes
  ph_nonce :: bytes
  ph_base_fee_per_gas :: "u64 option"
  ph_blob_gas_used :: "u64 option"
  ph_excess_blob_gas :: "u64 option"
  ph_parent_beacon_block_root :: "bytes option"
  ph_extra_data :: bytes

record p_signature =
  ps_r :: bytes
  ps_s :: bytes
  ps_y_parity :: u32

datatype p_kind = PCreate | PCall bytes

record p_tx_kind =
  pk_kind :: "p_kind option"

record p_access_list_item =
  pa_address :: bytes
  pa_storage_keys :: "bytes list"

record p_authorization =
  pz_chain_id :: bytes
  pz_address :: bytes
  pz_nonce :: u64

record p_authorization_list_item =
  pi_authorization :: "p_authorization option"
  pi_signature :: "p_signature option"

record p_tx_legacy =
  pl_chain_id :: "u64 option"
  pl_nonce :: u64
  pl_gas_price :: bytes
  pl_gas_limit :: bytes
  pl_to :: "p_tx_kind option"
  pl_value :: bytes
  pl_input :: bytes

record p_tx_eip2930 =
  pta_chain_id :: u64
  pta_nonce :: u64
  pta_gas_price :: bytes
  pta_gas_limit :: bytes
  pta_to :: "p_tx_kind option"
  pta_value :: bytes
  pta_access_list :: "p_access_list_item list"
  pta_input :: bytes

record p_tx_eip1559 =
  ptf_chain_id :: u64
  ptf_nonce :: u64
  ptf_gas_limit :: bytes
  ptf_max_fee_per_gas :: bytes
  ptf_max_priority_fee_per_gas :: bytes
  ptf_to :: "p_tx_kind option"
  ptf_value :: bytes
  ptf_access_list :: "p_access_list_item list"
  ptf_input :: bytes

record p_tx_eip4844 =
  ptb_chain_id :: u64
  ptb_nonce :: u64
  ptb_gas_limit :: bytes
  ptb_max_fee_per_gas :: bytes
  ptb_max_priority_fee_per_gas :: bytes
  ptb_to :: bytes
  ptb_value :: bytes
  ptb_access_list :: "p_access_list_item list"
  ptb_blob_versioned_hashes :: "bytes list"
  ptb_max_fee_per_blob_gas :: bytes
  ptb_input :: bytes

record p_tx_eip7702 =
  pts_chain_id :: u64
  pts_nonce :: u64
  pts_gas_limit :: bytes
  pts_max_fee_per_gas :: bytes
  pts_max_priority_fee_per_gas :: bytes
  pts_to :: bytes
  pts_value :: bytes
  pts_access_list :: "p_access_list_item list"
  pts_authorization_list :: "p_authorization_list_item list"
  pts_input :: bytes

datatype p_transaction_oneof =
    PLegacy p_tx_legacy
  | PEip2930 p_tx_eip2930
  | PEip1559 p_tx_eip1559
  | PEip4844 p_tx_eip4844
  | PEip7702 p_tx_eip7702

record p_transaction =
  pt_hash :: bytes
  pt_signature :: "p_signature option"
  pt_transaction :: "p_transaction_oneof option"

record p_legacy_analyzed =
  py_bytecode :: bytes
  py_original_len :: u64
  py_jump_table :: bytes
  py_jump_table_len :: u64

record p_eip7702_bytecode =
  pe_delegated_address :: bytes
  pe_version :: u64
  pe_raw :: bytes

datatype p_bytecode_oneof = PLegacyAnalyzed p_legacy_analyzed | PEip7702Bytecode p_eip7702_bytecode

record p_bytecode =
  pb_bytecode :: "p_bytecode_oneof option"

record p_account_info =
  pn_balance :: bytes
  pn_nonce :: u64
  pn_code_hash :: bytes
  pn_code :: "p_bytecode option"

record p_storage_slot =
  pst_key :: bytes
  pst_previous_or_original_value :: bytes
  pst_present_value :: bytes

record p_bundle_account =
  pba_address :: bytes
  pba_info :: "p_account_info option"
  pba_original_info :: "p_account_info option"
  pba_storage :: "p_storage_slot list"
  pba_status :: i32

record p_contract_bytecode =
  pc_hash :: bytes
  pc_bytecode :: "p_bytecode option"

datatype p_account_revert_oneof = PDoNothing | PDeleteIt | PRevertTo p_account_info

record p_account_info_revert =
  pir_revert :: "p_account_revert_oneof option"

datatype p_slot_revert_oneof = PSome bytes | PDestroyed

record p_revert_to_slot =
  prs_key :: bytes
  prs_revert :: "p_slot_revert_oneof option"

record p_revert =
  pr_address :: bytes
  pr_account :: "p_account_info_revert option"
  pr_storage :: "p_revert_to_slot list"
  pr_previous_status :: i32
  pr_wipe_storage :: bool

record p_log_data =
  pd_topics :: "bytes list"
  pd_data :: bytes

record p_log =
  pg_address :: bytes
  pg_log_data :: "p_log_data option"

record p_non_empty_receipt =
  pne_tx_type :: i32
  pne_success :: bool
  pne_cumulative_gas_used :: u64
  pne_logs :: "p_log list"

datatype p_receipt_oneof = PEmpty | PNonEmpty p_non_empty_receipt

record p_receipt =
  prc_receipt :: "p_receipt_oneof option"

record p_sealed_header =
  psh_hash :: bytes
  psh_header :: "p_header option"

record p_block =
  pbl_header :: "p_sealed_header option"
  pbl_body :: "p_transaction list"
  pbl_ommers :: "p_header list"
  pbl_senders :: "bytes list"

record p_bundle_state =
  pbs_state :: "p_bundle_account list"
  pbs_contracts :: "p_contract_bytecode list"
  pbs_reverts :: "p_revert list list"
  pbs_state_size :: u64
  pbs_reverts_size :: u64

record p_execution_outcome =
  peo_bundle :: "p_bundle_state option"
  peo_receipts :: "p_receipt list list"
  peo_first_block :: u64

record p_chain =
  pch_blocks :: "p_block list"
  pch_execution_outcome :: "p_execution_outcome option"

datatype p_notification_oneof =
    PChainCommitted "p_chain option"
  | PChainReorged "p_chain option" "p_chain option"
  | PChainReverted "p_chain option"

record p_notification =
  pno_notification :: "p_notification_oneof option"

end
