(* ===== verification/Codec_Prims.thy ===== *)
theory Codec_Prims
  imports Codec_Types
begin

text \<open>
  The byte conversions of the codec. The little-endian bytes of \<open>u64\<close> and \<open>u128\<close> are the Rust
  standard library's and are defined here; those of alloy's fixed arrays and of \<open>U256\<close>, revm's
  bytecode and reth's \<open>Chain\<close> are the parameter \<open>codec_prims\<close>. The locale \<open>codec_prims_ok\<close> states
  their documented laws, \<open>std_prims\<close> is an instance, and the law of a fixed array is itself a
  locale (\<open>byte_codec\<close>), interpreted for every byte conversion the codec uses.
\<close>

named_theorems codec "round trips of the codec's conversions"

section \<open>Little-endian bytes\<close>

fun le_bytes :: "nat \<Rightarrow> nat \<Rightarrow> bytes" where
  "le_bytes 0 n = []"
| "le_bytes (Suc w) n = word_of_nat (n mod 256) # le_bytes w (n div 256)"

fun le_value :: "bytes \<Rightarrow> nat" where
  "le_value [] = 0"
| "le_value (b # bs) = unat b + 256 * le_value bs"

lemma length_le_bytes [simp]: "length (le_bytes w n) = w"
  by (induction w arbitrary: n) auto

lemma le_value_bytes: "n < 256 ^ w \<Longrightarrow> le_value (le_bytes w n) = n"
proof (induction w arbitrary: n)
  case (Suc w)
  then have "n div 256 < 256 ^ w" by (simp add: less_mult_imp_div_less)
  with Suc.IH have "le_value (le_bytes w (n div 256)) = n div 256" .
  then show ?case by (simp add: unat_of_nat)
qed simp

lemma le_value_less: "le_value bs < 256 ^ length bs"
proof (induction bs)
  case (Cons b bs)
  have "unat b < 256" using unsigned_less[of b, where 'a = nat] by simp
  with Cons show ?case by simp
qed simp

lemma le_bytes_value: "le_bytes (length bs) (le_value bs) = bs"
proof (induction bs)
  case (Cons b bs)
  have "unat b < 256" using unsigned_less[of b, where 'a = nat] by simp
  then have "(unat b + 256 * le_value bs) mod 256 = unat b" "(unat b + 256 * le_value bs) div 256 = le_value bs"
    by simp_all
  with Cons show ?case by simp
qed simp

text \<open>The bytes of a word, and a word from a slice of exactly \<open>w\<close> bytes.\<close>

definition word_le :: "nat \<Rightarrow> 'a::len word \<Rightarrow> bytes" where
  "word_le w x = le_bytes w (unat x)"

definition word_from_le :: "nat \<Rightarrow> bytes \<Rightarrow> err + 'a::len word" where
  "word_from_le w bs = (if length bs = w then Inr (word_of_nat (le_value bs)) else Inl SliceError)"

section \<open>The interface of a fixed-width byte encoding\<close>

locale byte_codec =
  fixes enc :: "'v \<Rightarrow> bytes" and dec :: "bytes \<Rightarrow> err + 'v" and width :: nat
  assumes dec_enc: "dec (enc x) = Inr x"
    and width: "length bs \<noteq> width \<Longrightarrow> dec bs = Inl SliceError"
begin

lemma length_enc: "length (enc x) = width"
  using dec_enc[of x] width[of "enc x"] by (metis Inl_Inr_False)

lemma enc_inject: "enc x = enc y \<longleftrightarrow> x = y"
  by (metis dec_enc Inr_inject)

lemma dec_all: "try_collect dec (map enc xs) = Inr xs"
  by (induction xs) (auto simp: dec_enc)

lemma dec_opt: "opt_try dec (map_option enc ox) = Inr ox"
  by (cases ox) (auto simp: dec_enc)

end

lemma word_le_codec:
  assumes "LENGTH('a) = 8 * w"
  shows "byte_codec (word_le w :: 'a::len word \<Rightarrow> bytes) (word_from_le w) w"
proof
  fix x :: "'a word"
  have "unat x < 2 ^ LENGTH('a)" by (rule unsigned_less)
  also have "(2::nat) ^ LENGTH('a) = 256 ^ w" by (simp add: assms power_mult)
  finally show "word_from_le w (word_le w x) = Inr x"
    by (simp add: word_from_le_def word_le_def le_value_bytes)
qed (simp add: word_from_le_def)

text \<open>\<open>u64::to_le_bytes\<close>, \<open>u64::from_le_bytes(slice.try_into()?)\<close>, and the same for \<open>u128\<close>.\<close>

abbreviation u64_to_le :: "u64 \<Rightarrow> bytes" where "u64_to_le \<equiv> word_le 8"
abbreviation u64_from_le :: "bytes \<Rightarrow> err + u64" where "u64_from_le \<equiv> word_from_le 8"
abbreviation u128_to_le :: "u128 \<Rightarrow> bytes" where "u128_to_le \<equiv> word_le 16"
abbreviation u128_from_le :: "bytes \<Rightarrow> err + u128" where "u128_from_le \<equiv> word_from_le 16"

interpretation u64_codec: byte_codec u64_to_le u64_from_le 8
  by (rule word_le_codec) simp

interpretation u128_codec: byte_codec u128_to_le u128_from_le 16
  by (rule word_le_codec) simp

lemmas u_codecs [simp, codec] = u64_codec.dec_enc u128_codec.dec_enc

section \<open>The conversions of the libraries\<close>

datatype bytecode_kind = LegacyAnalyzedKind | Eip7702Kind

record ('bc, 'jt, 'chain, 'wd, 'rq) codec_prims =
  address_to_vec :: "address \<Rightarrow> bytes"
  address_try_from :: "bytes \<Rightarrow> err + address"
  b256_to_vec :: "b256 \<Rightarrow> bytes"
  b256_try_from :: "bytes \<Rightarrow> err + b256"
  b64_to_vec :: "b64 \<Rightarrow> bytes"
  b64_try_from :: "bytes \<Rightarrow> err + b64"
  bloom_to_vec :: "bloom \<Rightarrow> bytes"
  bloom_try_from :: "bytes \<Rightarrow> err + bloom"
  u256_to_le_vec :: "u256 \<Rightarrow> bytes"
  u256_try_from_le :: "bytes \<Rightarrow> u256 option"
  u256_from_le_array :: "bytes \<Rightarrow> u256" \<comment> \<open>\<open>U256::from_le_bytes::<32>\<close>\<close>
  bc_kind :: "'bc \<Rightarrow> bytecode_kind"
  bc_bytecode :: "'bc \<Rightarrow> bytes"
  bc_original_bytes :: "'bc \<Rightarrow> bytes"
  bc_jump_table :: "'bc \<Rightarrow> 'jt option" \<comment> \<open>\<open>legacy_jump_table\<close>\<close>
  jt_as_slice :: "'jt \<Rightarrow> bytes"
  jt_len :: "'jt \<Rightarrow> u64"
  jt_from_slice :: "bytes \<Rightarrow> u64 \<Rightarrow> err + 'jt" \<comment> \<open>panics on a slice too short for the length\<close>
  bc_new_analyzed :: "bytes \<Rightarrow> u64 \<Rightarrow> 'jt \<Rightarrow> err + 'bc" \<comment> \<open>panics on inconsistent parts\<close>
  bc_eip7702_address :: "'bc \<Rightarrow> address option"
  bc_new_eip7702 :: "address \<Rightarrow> 'bc"
  chain_blocks :: "'chain \<Rightarrow> 'wd recovered_block list" \<comment> \<open>\<open>blocks_iter\<close>, by number\<close>
  chain_outcome :: "'chain \<Rightarrow> ('bc, 'rq) execution_outcome"
  chain_new :: "'wd recovered_block list \<Rightarrow> ('bc, 'rq) execution_outcome \<Rightarrow> 'chain" \<comment> \<open>without trie updates\<close>

text \<open>
  A chain holds its blocks in a map from their numbers, so their numbers ascend; building one
  from ascending blocks gives those blocks and the outcome back, from any blocks some of them.
  (The debug assertion that a chain is not empty is not part of a release build.)
\<close>

definition ascending :: "'wd recovered_block list \<Rightarrow> bool" where
  "ascending bs \<longleftrightarrow> sorted_wrt (<) (map (\<lambda>b. eh_number (rb_header b)) bs)"

locale codec_prims_ok =
  fixes P :: "('bc, 'jt, 'chain, 'wd, 'rq) codec_prims"
  assumes address_codec: "byte_codec (address_to_vec P) (address_try_from P) 20"
    and b256_codec: "byte_codec (b256_to_vec P) (b256_try_from P) 32"
    and b64_codec: "byte_codec (b64_to_vec P) (b64_try_from P) 8"
    and bloom_codec: "byte_codec (bloom_to_vec P) (bloom_try_from P) 256"
    and u256_length: "length (u256_to_le_vec P x) = 32"
    and u256_rt: "u256_try_from_le P (u256_to_le_vec P x) = Some x"
    and u256_array_rt: "u256_from_le_array P (u256_to_le_vec P x) = x"
    and legacy_rt: "bc_kind P c = LegacyAnalyzedKind \<Longrightarrow> \<exists>jt. bc_jump_table P c = Some jt \<and>
       and_then (jt_from_slice P (jt_as_slice P jt) (jt_len P jt))
         (bc_new_analyzed P (bc_bytecode P c) (word_of_nat (length (bc_original_bytes P c)))) = Inr c"
    and eip7702_rt: "bc_kind P c = Eip7702Kind \<Longrightarrow> \<exists>a. bc_eip7702_address P c = Some a \<and>
       bc_new_eip7702 P a = c \<and> 2 < length (bc_original_bytes P c)"
    and chain_ascending: "ascending (chain_blocks P ch)"
    and chain_new_blocks: "ascending bs \<Longrightarrow> chain_blocks P (chain_new P bs out) = bs"
    and chain_new_subset: "set (chain_blocks P (chain_new P bs out)) \<subseteq> set bs"
    and chain_new_outcome: "chain_outcome P (chain_new P bs out) = out"

sublocale codec_prims_ok \<subseteq> addr: byte_codec "address_to_vec P" "address_try_from P" 20
  by (rule address_codec)

sublocale codec_prims_ok \<subseteq> h256: byte_codec "b256_to_vec P" "b256_try_from P" 32
  by (rule b256_codec)

sublocale codec_prims_ok \<subseteq> h64: byte_codec "b64_to_vec P" "b64_try_from P" 8
  by (rule b64_codec)

sublocale codec_prims_ok \<subseteq> blm: byte_codec "bloom_to_vec P" "bloom_try_from P" 256
  by (rule bloom_codec)

context codec_prims_ok
begin

lemmas prims_rt [simp, codec] = addr.dec_enc h256.dec_enc h64.dec_enc blm.dec_enc u256_rt u256_array_rt
  u256_length h256.dec_all addr.dec_all h256.dec_opt

end

section \<open>An instance\<close>

text \<open>
  Fixed arrays as little-endian bytes of the number they spell, analyzed bytecode as its bytes with
  an empty jump table, delegated bytecode as its address, a chain as its parts with the blocks
  sorted by number.
\<close>

datatype std_bytecode = StdLegacy bytes | StdDelegated address

definition std_prims ::
  "(std_bytecode, unit, (unit recovered_block list \<times> (std_bytecode, unit) execution_outcome), unit, unit) codec_prims" where
  "std_prims = \<lparr>
     address_to_vec = word_le 20, address_try_from = word_from_le 20,
     b256_to_vec = word_le 32, b256_try_from = word_from_le 32,
     b64_to_vec = word_le 8, b64_try_from = word_from_le 8,
     bloom_to_vec = word_le 256, bloom_try_from = word_from_le 256,
     u256_to_le_vec = word_le 32,
     u256_try_from_le = (\<lambda>bs. if length bs \<le> 32 then Some (word_of_nat (le_value bs)) else None),
     u256_from_le_array = (\<lambda>bs. word_of_nat (le_value bs)),
     bc_kind = (\<lambda>c. case c of StdLegacy _ \<Rightarrow> LegacyAnalyzedKind | StdDelegated _ \<Rightarrow> Eip7702Kind),
     bc_bytecode = (\<lambda>c. case c of StdLegacy bs \<Rightarrow> bs | StdDelegated a \<Rightarrow> [0xef, 1, 0]),
     bc_original_bytes = (\<lambda>c. case c of StdLegacy bs \<Rightarrow> bs | StdDelegated a \<Rightarrow> [0xef, 1, 0]),
     bc_jump_table = (\<lambda>c. case c of StdLegacy _ \<Rightarrow> Some () | StdDelegated _ \<Rightarrow> None),
     jt_as_slice = (\<lambda>_. []), jt_len = (\<lambda>_. 0), jt_from_slice = (\<lambda>_ _. Inr ()),
     bc_new_analyzed = (\<lambda>bs _ _. Inr (StdLegacy bs)),
     bc_eip7702_address = (\<lambda>c. case c of StdLegacy _ \<Rightarrow> None | StdDelegated a \<Rightarrow> Some a),
     bc_new_eip7702 = StdDelegated,
     chain_blocks = (\<lambda>(bs, _). if ascending bs then bs else []),
     chain_outcome = snd,
     chain_new = (\<lambda>bs out. (bs, out))\<rparr>"

lemma std_u256_rt: "word_of_nat (le_value (le_bytes 32 (unat x))) = (x :: u256)"
proof -
  have "unat x < 2 ^ 256" using unsigned_less[of x, where 'a = nat] by simp
  then show ?thesis by (simp add: le_value_bytes)
qed

interpretation std: codec_prims_ok std_prims
proof (rule codec_prims_ok.intro)
  show "byte_codec (address_to_vec std_prims) (address_try_from std_prims) 20"
    by (simp add: std_prims_def word_le_codec)
  show "byte_codec (b256_to_vec std_prims) (b256_try_from std_prims) 32"
    by (simp add: std_prims_def word_le_codec)
  show "byte_codec (b64_to_vec std_prims) (b64_try_from std_prims) 8"
    by (simp add: std_prims_def word_le_codec)
  show "byte_codec (bloom_to_vec std_prims) (bloom_try_from std_prims) 256"
    by (simp add: std_prims_def word_le_codec)
qed (auto simp: std_prims_def std_u256_rt word_le_def ascending_def split: std_bytecode.splits)

end
