(* ===== verification/Codec_Encode.thy ===== *)
theory Codec_Encode
  imports Codec_Prims
begin

text \<open>
  The conversions of native values into messages (remote/src/codec.rs, the \<open>From\<close> and \<open>TryFrom\<close>
  implementations for \<open>proto::\<close> types). Those that can fail return a result; the failures are the
  \<open>unwrap\<close>s on the parts of a bytecode.
\<close>

definition encode_header :: "('bc, 'jt, 'chain, 'wd, 'rq) codec_prims \<Rightarrow> eth_header \<Rightarrow> p_header" where
  "encode_header P h =
     \<lparr>ph_parent_hash = b256_to_vec P (eh_parent_hash h),
      ph_ommers_hash = b256_to_vec P (eh_ommers_hash h),
      ph_beneficiary = address_to_vec P (eh_beneficiary h),
      ph_state_root = b256_to_vec P (eh_state_root h),
      ph_transactions_root = b256_to_vec P (eh_transactions_root h),
      ph_receipts_root = b256_to_vec P (eh_receipts_root h),
      ph_withdrawals_root = map_option (b256_to_vec P) (eh_withdrawals_root h),
      ph_logs_bloom = bloom_to_vec P (eh_logs_bloom h),
      ph_difficulty = u256_to_le_vec P (eh_difficulty h),
      ph_number = eh_number h,
      ph_gas_limit = eh_gas_limit h,
      ph_gas_used = eh_gas_used h,
      ph_timestamp = eh_timestamp h,
      ph_mix_hash = b256_to_vec P (eh_mix_hash h),
      ph_nonce = b64_to_vec P (eh_nonce h),
      ph_base_fee_per_gas = eh_base_fee_per_gas h,
      ph_blob_gas_used = eh_blob_gas_used h,
      ph_excess_blob_gas = eh_excess_blob_gas h,
      ph_parent_beacon_block_root = map_option (b256_to_vec P) (eh_parent_beacon_block_root h),
      ph_extra_data = eh_extra_data h\<rparr>"

definition encode_tx_kind :: "('bc, 'jt, 'chain, 'wd, 'rq) codec_prims \<Rightarrow> tx_kind \<Rightarrow> p_tx_kind" where
  "encode_tx_kind P kind = \<lparr>pk_kind = (case kind of
     TxCreate \<Rightarrow> Some PCreate
   | TxCall address \<Rightarrow> Some (PCall (address_to_vec P address)))\<rparr>"

definition encode_access_list_item ::
  "('bc, 'jt, 'chain, 'wd, 'rq) codec_prims \<Rightarrow> access_list_item \<Rightarrow> p_access_list_item" where
  "encode_access_list_item P item =
     \<lparr>pa_address = address_to_vec P (al_address item),
      pa_storage_keys = map (b256_to_vec P) (al_storage_keys item)\<rparr>"

section \<open>Transactions\<close>

text \<open>\<open>signature.v() as u8 as u32\<close>.\<close>

definition encode_signature :: "('bc, 'jt, 'chain, 'wd, 'rq) codec_prims \<Rightarrow> signature \<Rightarrow> p_signature" where
  "encode_signature P sg =
     \<lparr>ps_r = u256_to_le_vec P (sg_r sg), ps_s = u256_to_le_vec P (sg_s sg),
      ps_y_parity = (if sg_v sg then 1 else 0)\<rparr>"

definition encode_authorization ::
  "('bc, 'jt, 'chain, 'wd, 'rq) codec_prims \<Rightarrow> signed_authorization \<Rightarrow> p_authorization_list_item" where
  "encode_authorization P authorization =
     \<lparr>pi_authorization = Some
        \<lparr>pz_chain_id = u256_to_le_vec P (au_chain_id authorization),
         pz_address = address_to_vec P (au_address authorization),
         pz_nonce = au_nonce authorization\<rparr>,
      pi_signature = Some
        \<lparr>ps_r = u256_to_le_vec P (au_r authorization), ps_s = u256_to_le_vec P (au_s authorization),
         ps_y_parity = ucast (au_y_parity authorization)\<rparr>\<rparr>"

definition encode_tx_legacy :: "('bc, 'jt, 'chain, 'wd, 'rq) codec_prims \<Rightarrow> tx_legacy \<Rightarrow> p_tx_legacy" where
  "encode_tx_legacy P tx =
     \<lparr>pl_chain_id = tl_chain_id tx,
      pl_nonce = tl_nonce tx,
      pl_gas_price = u128_to_le (tl_gas_price tx),
      pl_gas_limit = u64_to_le (tl_gas_limit tx),
      pl_to = Some (encode_tx_kind P (tl_to tx)),
      pl_value = u256_to_le_vec P (tl_value tx),
      pl_input = tl_input tx\<rparr>"

definition encode_tx_eip2930 :: "('bc, 'jt, 'chain, 'wd, 'rq) codec_prims \<Rightarrow> tx_eip2930 \<Rightarrow> p_tx_eip2930" where
  "encode_tx_eip2930 P tx =
     \<lparr>pta_chain_id = ta_chain_id tx,
      pta_nonce = ta_nonce tx,
      pta_gas_price = u128_to_le (ta_gas_price tx),
      pta_gas_limit = u64_to_le (ta_gas_limit tx),
      pta_to = Some (encode_tx_kind P (ta_to tx)),
      pta_value = u256_to_le_vec P (ta_value tx),
      pta_access_list = map (encode_access_list_item P) (ta_access_list tx),
      pta_input = ta_input tx\<rparr>"

definition encode_tx_eip1559 :: "('bc, 'jt, 'chain, 'wd, 'rq) codec_prims \<Rightarrow> tx_eip1559 \<Rightarrow> p_tx_eip1559" where
  "encode_tx_eip1559 P tx =
     \<lparr>ptf_chain_id = tf_chain_id tx,
      ptf_nonce = tf_nonce tx,
      ptf_gas_limit = u64_to_le (tf_gas_limit tx),
      ptf_max_fee_per_gas = u128_to_le (tf_max_fee_per_gas tx),
      ptf_max_priority_fee_per_gas = u128_to_le (tf_max_priority_fee_per_gas tx),
      ptf_to = Some (encode_tx_kind P (tf_to tx)),
      ptf_value = u256_to_le_vec P (tf_value tx),
      ptf_access_list = map (encode_access_list_item P) (tf_access_list tx),
      ptf_input = tf_input tx\<rparr>"

definition encode_tx_eip4844 :: "('bc, 'jt, 'chain, 'wd, 'rq) codec_prims \<Rightarrow> tx_eip4844 \<Rightarrow> p_tx_eip4844" where
  "encode_tx_eip4844 P tx =
     \<lparr>ptb_chain_id = tb_chain_id tx,
      ptb_nonce = tb_nonce tx,
      ptb_gas_limit = u64_to_le (tb_gas_limit tx),
      ptb_max_fee_per_gas = u128_to_le (tb_max_fee_per_gas tx),
      ptb_max_priority_fee_per_gas = u128_to_le (tb_max_priority_fee_per_gas tx),
      ptb_to = address_to_vec P (tb_to tx),
      ptb_value = u256_to_le_vec P (tb_value tx),
      ptb_access_list = map (encode_access_list_item P) (tb_access_list tx),
      ptb_blob_versioned_hashes = map (b256_to_vec P) (tb_blob_versioned_hashes tx),
      ptb_max_fee_per_blob_gas = u128_to_le (tb_max_fee_per_blob_gas tx),
      ptb_input = tb_input tx\<rparr>"

definition encode_tx_eip7702 :: "('bc, 'jt, 'chain, 'wd, 'rq) codec_prims \<Rightarrow> tx_eip7702 \<Rightarrow> p_tx_eip7702" where
  "encode_tx_eip7702 P tx =
     \<lparr>pts_chain_id = ts_chain_id tx,
      pts_nonce = ts_nonce tx,
      pts_gas_limit = u64_to_le (ts_gas_limit tx),
      pts_max_fee_per_gas = u128_to_le (ts_max_fee_per_gas tx),
      pts_max_priority_fee_per_gas = u128_to_le (ts_max_priority_fee_per_gas tx),
      pts_to = address_to_vec P (ts_to tx),
      pts_value = u256_to_le_vec P (ts_value tx),
      pts_access_list = map (encode_access_list_item P) (ts_access_list tx),
      pts_authorization_list = map (encode_authorization P) (ts_authorization_list tx),
      pts_input = ts_input tx\<rparr>"

definition encode_transaction ::
  "('bc, 'jt, 'chain, 'wd, 'rq) codec_prims \<Rightarrow> transaction_signed \<Rightarrow> err + p_transaction" where
  "encode_transaction P transaction = Inr
     \<lparr>pt_hash = b256_to_vec P (tr_hash transaction),
      pt_signature = Some (encode_signature P (tr_signature transaction)),
      pt_transaction = Some (case tr_transaction transaction of
          TxLegacy tx \<Rightarrow> PLegacy (encode_tx_legacy P tx)
        | TxEip2930 tx \<Rightarrow> PEip2930 (encode_tx_eip2930 P tx)
        | TxEip1559 tx \<Rightarrow> PEip1559 (encode_tx_eip1559 P tx)
        | TxEip4844 tx \<Rightarrow> PEip4844 (encode_tx_eip4844 P tx)
        | TxEip7702 tx \<Rightarrow> PEip7702 (encode_tx_eip7702 P tx))\<rparr>"

section \<open>Accounts and their reverts\<close>

definition encode_bytecode :: "('bc, 'jt, 'chain, 'wd, 'rq) codec_prims \<Rightarrow> 'bc \<Rightarrow> err + p_bytecode" where
  "encode_bytecode P bytecode =
     and_then (case bc_kind P bytecode of
        LegacyAnalyzedKind \<Rightarrow>
          and_then (ok_or (Panic ''unwrap on legacy_jump_table'') (bc_jump_table P bytecode)) (\<lambda>jt.
          Inr (PLegacyAnalyzed
            \<lparr>py_bytecode = bc_bytecode P bytecode,
             py_original_len = word_of_nat (length (bc_original_bytes P bytecode)),
             py_jump_table = jt_as_slice P jt,
             py_jump_table_len = jt_len P jt\<rparr>))
      | Eip7702Kind \<Rightarrow>
          (let raw = bc_original_bytes P bytecode in
           and_then (ok_or (Panic ''unwrap on eip7702_address'') (bc_eip7702_address P bytecode)) (\<lambda>a.
           and_then (if 2 < length raw then Inr (raw ! 2) else Inl (Panic ''unwrap on raw.get(2)'')) (\<lambda>v.
           Inr (PEip7702Bytecode
             \<lparr>pe_delegated_address = address_to_vec P a, pe_version = ucast v, pe_raw = raw\<rparr>)))))
       (\<lambda>b. Inr \<lparr>pb_bytecode = Some b\<rparr>)"

definition encode_account_info ::
  "('bc, 'jt, 'chain, 'wd, 'rq) codec_prims \<Rightarrow> 'bc account_info \<Rightarrow> err + p_account_info" where
  "encode_account_info P account_info =
     and_then (opt_try (encode_bytecode P) (code account_info)) (\<lambda>c.
     Inr \<lparr>pn_balance = u256_to_le_vec P (balance account_info),
          pn_nonce = nonce account_info,
          pn_code_hash = b256_to_vec P (code_hash account_info),
          pn_code = c\<rparr>)"

text \<open>\<open>proto::AccountStatus::from(status) as i32\<close>.\<close>

fun status_to_i32 :: "account_status \<Rightarrow> i32" where
  "status_to_i32 LoadedNotExisting = 0"
| "status_to_i32 Loaded = 1"
| "status_to_i32 LoadedEmptyEIP161 = 2"
| "status_to_i32 InMemoryChange = 3"
| "status_to_i32 Changed = 4"
| "status_to_i32 Destroyed = 5"
| "status_to_i32 DestroyedChanged = 6"
| "status_to_i32 DestroyedAgain = 7"

definition encode_storage_slot ::
  "('bc, 'jt, 'chain, 'wd, 'rq) codec_prims \<Rightarrow> u256 \<times> storage_slot \<Rightarrow> p_storage_slot" where
  "encode_storage_slot P entry = (case entry of (key, slot) \<Rightarrow>
     \<lparr>pst_key = u256_to_le_vec P key,
      pst_previous_or_original_value = u256_to_le_vec P (sl_previous_or_original_value slot),
      pst_present_value = u256_to_le_vec P (sl_present_value slot)\<rparr>)"

definition encode_bundle_account ::
  "('bc, 'jt, 'chain, 'wd, 'rq) codec_prims \<Rightarrow> address \<times> 'bc bundle_account \<Rightarrow> err + p_bundle_account" where
  "encode_bundle_account P entry = (case entry of (address, account) \<Rightarrow>
     and_then (opt_try (encode_account_info P) (ba_info account)) (\<lambda>info.
     and_then (opt_try (encode_account_info P) (ba_original_info account)) (\<lambda>original_info.
     Inr \<lparr>pba_address = address_to_vec P address,
          pba_info = info,
          pba_original_info = original_info,
          pba_storage = map (encode_storage_slot P) (ba_storage account),
          pba_status = status_to_i32 (ba_status account)\<rparr>)))"

definition encode_revert_slot ::
  "('bc, 'jt, 'chain, 'wd, 'rq) codec_prims \<Rightarrow> u256 \<times> revert_to_slot \<Rightarrow> err + p_revert_to_slot" where
  "encode_revert_slot P entry = (case entry of (key, slot) \<Rightarrow>
     Inr \<lparr>prs_key = u256_to_le_vec P key,
          prs_revert = Some (case slot of
              SlotSome value \<Rightarrow> PSome (u256_to_le_vec P value)
            | SlotDestroyed \<Rightarrow> PDestroyed)\<rparr>)"

definition encode_revert ::
  "('bc, 'jt, 'chain, 'wd, 'rq) codec_prims \<Rightarrow> address \<times> 'bc account_revert \<Rightarrow> err + p_revert" where
  "encode_revert P entry = (case entry of (address, revert) \<Rightarrow>
     and_then (case ar_account revert of
         DoNothing \<Rightarrow> Inr PDoNothing
       | DeleteIt \<Rightarrow> Inr PDeleteIt
       | RevertTo account_info \<Rightarrow> and_then (encode_account_info P account_info) (\<lambda>i. Inr (PRevertTo i)))
       (\<lambda>account.
     and_then (try_collect (encode_revert_slot P) (ar_storage revert)) (\<lambda>storage.
     Inr \<lparr>pr_address = address_to_vec P address,
          pr_account = Some \<lparr>pir_revert = Some account\<rparr>,
          pr_storage = storage,
          pr_previous_status = status_to_i32 (ar_previous_status revert),
          pr_wipe_storage = ar_wipe_storage revert\<rparr>)))"

section \<open>Receipts\<close>

fun tx_type_to_i32 :: "tx_type \<Rightarrow> i32" where
  "tx_type_to_i32 LegacyType = 0"
| "tx_type_to_i32 Eip2930Type = 1"
| "tx_type_to_i32 Eip1559Type = 2"
| "tx_type_to_i32 Eip4844Type = 3"
| "tx_type_to_i32 Eip7702Type = 4"

definition encode_log :: "('bc, 'jt, 'chain, 'wd, 'rq) codec_prims \<Rightarrow> eth_log \<Rightarrow> p_log" where
  "encode_log P l =
     \<lparr>pg_address = address_to_vec P (lg_address l),
      pg_log_data = Some \<lparr>pd_topics = map (b256_to_vec P) (lg_topics l), pd_data = lg_data l\<rparr>\<rparr>"

definition encode_non_empty_receipt ::
  "('bc, 'jt, 'chain, 'wd, 'rq) codec_prims \<Rightarrow> eth_receipt \<Rightarrow> err + p_non_empty_receipt" where
  "encode_non_empty_receipt P receipt = Inr
     \<lparr>pne_tx_type = tx_type_to_i32 (er_tx_type receipt),
      pne_success = er_success receipt,
      pne_cumulative_gas_used = er_cumulative_gas_used receipt,
      pne_logs = map (encode_log P) (er_logs receipt)\<rparr>"

definition encode_receipt ::
  "('bc, 'jt, 'chain, 'wd, 'rq) codec_prims \<Rightarrow> eth_receipt \<Rightarrow> err + p_receipt" where
  "encode_receipt P receipt =
     and_then (encode_non_empty_receipt P receipt) (\<lambda>r. Inr \<lparr>prc_receipt = Some (PNonEmpty r)\<rparr>)"

section \<open>Blocks, chains and notifications\<close>

definition encode_block ::
  "('bc, 'jt, 'chain, 'wd, 'rq) codec_prims \<Rightarrow> 'wd recovered_block \<Rightarrow> err + p_block" where
  "encode_block P block =
     and_then (try_collect (encode_transaction P) (rb_transactions block)) (\<lambda>body.
     Inr \<lparr>pbl_header = Some
            \<lparr>psh_hash = b256_to_vec P (rb_hash block),
             psh_header = Some (encode_header P (rb_header block))\<rparr>,
          pbl_body = body,
          pbl_ommers = map (encode_header P) (rb_ommers block),
          pbl_senders = map (address_to_vec P) (rb_senders block)\<rparr>)"

definition encode_contract ::
  "('bc, 'jt, 'chain, 'wd, 'rq) codec_prims \<Rightarrow> b256 \<times> 'bc \<Rightarrow> err + p_contract_bytecode" where
  "encode_contract P entry = (case entry of (hash, bytecode) \<Rightarrow>
     and_then (encode_bytecode P bytecode) (\<lambda>b.
     Inr \<lparr>pc_hash = b256_to_vec P hash, pc_bytecode = Some b\<rparr>))"

definition encode_bundle_state ::
  "('bc, 'jt, 'chain, 'wd, 'rq) codec_prims \<Rightarrow> 'bc bundle_state \<Rightarrow> err + p_bundle_state" where
  "encode_bundle_state P bundle_state =
     and_then (try_collect (encode_bundle_account P) (bs_state bundle_state)) (\<lambda>state.
     and_then (try_collect (encode_contract P) (bs_contracts bundle_state)) (\<lambda>contracts.
     and_then (try_collect (try_collect (encode_revert P)) (bs_reverts bundle_state)) (\<lambda>reverts.
     Inr \<lparr>pbs_state = state, pbs_contracts = contracts, pbs_reverts = reverts,
          pbs_state_size = bs_state_size bundle_state,
          pbs_reverts_size = bs_reverts_size bundle_state\<rparr>)))"

definition encode_chain ::
  "('bc, 'jt, 'chain, 'wd, 'rq) codec_prims \<Rightarrow> 'chain \<Rightarrow> err + p_chain" where
  "encode_chain P chain =
     and_then (try_collect (encode_block P) (chain_blocks P chain)) (\<lambda>blocks.
     and_then (encode_bundle_state P (eo_bundle (chain_outcome P chain))) (\<lambda>bundle.
     and_then (try_collect (try_collect (encode_receipt P)) (eo_receipts (chain_outcome P chain))) (\<lambda>receipts.
     Inr \<lparr>pch_blocks = blocks,
          pch_execution_outcome = Some
            \<lparr>peo_bundle = Some bundle, peo_receipts = receipts,
             peo_first_block = eo_first_block (chain_outcome P chain)\<rparr>\<rparr>)))"

definition encode_notification ::
  "('bc, 'jt, 'chain, 'wd, 'rq) codec_prims \<Rightarrow> 'chain exex_notification \<Rightarrow> err + p_notification" where
  "encode_notification P notification =
     and_then (case notification of
         ChainCommitted new \<Rightarrow> and_then (encode_chain P new) (\<lambda>c. Inr (PChainCommitted (Some c)))
       | ChainReorged old new \<Rightarrow>
           and_then (encode_chain P old) (\<lambda>c. and_then (encode_chain P new) (\<lambda>d.
           Inr (PChainReorged (Some c) (Some d))))
       | ChainReverted old \<Rightarrow> and_then (encode_chain P old) (\<lambda>c. Inr (PChainReverted (Some c))))
       (\<lambda>n. Inr \<lparr>pno_notification = Some n\<rparr>)"

end
