(* ===== verification/Codec_Decode.thy ===== *)
theory Codec_Decode
  imports Codec_Encode
begin

text \<open>
  The conversions of messages into native values (remote/src/codec.rs, the \<open>TryFrom\<close>
  implementations from \<open>proto::\<close> types), with every error the code reports, in the order in which
  the fields are converted.
\<close>

text \<open>\<open>U256::try_from_le_slice(..).ok_or_eyre(msg)\<close>.\<close>

definition decode_u256 ::
  "('bc, 'jt, 'chain, 'wd, 'rq) codec_prims \<Rightarrow> string \<Rightarrow> bytes \<Rightarrow> err + u256" where
  "decode_u256 P msg bs = ok_or (Eyre msg) (u256_try_from_le P bs)"

definition decode_header :: "('bc, 'jt, 'chain, 'wd, 'rq) codec_prims \<Rightarrow> p_header \<Rightarrow> err + eth_header" where
  "decode_header P h =
     and_then (b256_try_from P (ph_parent_hash h)) (\<lambda>parent_hash.
     and_then (b256_try_from P (ph_ommers_hash h)) (\<lambda>ommers_hash.
     and_then (address_try_from P (ph_beneficiary h)) (\<lambda>beneficiary.
     and_then (b256_try_from P (ph_state_root h)) (\<lambda>state_root.
     and_then (b256_try_from P (ph_transactions_root h)) (\<lambda>transactions_root.
     and_then (b256_try_from P (ph_receipts_root h)) (\<lambda>receipts_root.
     and_then (opt_try (b256_try_from P) (ph_withdrawals_root h)) (\<lambda>withdrawals_root.
     and_then (bloom_try_from P (ph_logs_bloom h)) (\<lambda>logs_bloom.
     and_then (decode_u256 P ''failed to parse difficulty'' (ph_difficulty h)) (\<lambda>difficulty.
     and_then (b256_try_from P (ph_mix_hash h)) (\<lambda>mix_hash.
     and_then (b64_try_from P (ph_nonce h)) (\<lambda>hnonce.
     and_then (opt_try (b256_try_from P) (ph_parent_beacon_block_root h)) (\<lambda>parent_beacon_block_root.
     Inr \<lparr>eh_parent_hash = parent_hash, eh_ommers_hash = ommers_hash, eh_beneficiary = beneficiary,
          eh_state_root = state_root, eh_transactions_root = transactions_root,
          eh_receipts_root = receipts_root, eh_withdrawals_root = withdrawals_root,
          eh_logs_bloom = logs_bloom, eh_difficulty = difficulty, eh_number = ph_number h,
          eh_gas_limit = ph_gas_limit h, eh_gas_used = ph_gas_used h, eh_timestamp = ph_timestamp h,
          eh_mix_hash = mix_hash, eh_nonce = hnonce, eh_base_fee_per_gas = ph_base_fee_per_gas h,
          eh_blob_gas_used = ph_blob_gas_used h, eh_excess_blob_gas = ph_excess_blob_gas h,
          eh_parent_beacon_block_root = parent_beacon_block_root, eh_requests_hash = None,
          eh_extra_data = ph_extra_data h\<rparr>))))))))))))"

definition decode_tx_kind :: "('bc, 'jt, 'chain, 'wd, 'rq) codec_prims \<Rightarrow> p_tx_kind \<Rightarrow> err + tx_kind" where
  "decode_tx_kind P k =
     and_then (ok_or (Eyre ''no kind'') (pk_kind k)) (\<lambda>kind.
     case kind of
       PCreate \<Rightarrow> Inr TxCreate
     | PCall address \<Rightarrow> and_then (address_try_from P address) (\<lambda>a. Inr (TxCall a)))"

definition decode_access_list_item ::
  "('bc, 'jt, 'chain, 'wd, 'rq) codec_prims \<Rightarrow> p_access_list_item \<Rightarrow> err + access_list_item" where
  "decode_access_list_item P item =
     and_then (address_try_from P (pa_address item)) (\<lambda>address.
     and_then (try_collect (b256_try_from P) (pa_storage_keys item)) (\<lambda>storage_keys.
     Inr \<lparr>al_address = address, al_storage_keys = storage_keys\<rparr>))"

section \<open>Transactions\<close>

definition decode_to :: "('bc, 'jt, 'chain, 'wd, 'rq) codec_prims \<Rightarrow> p_tx_kind option \<Rightarrow> err + tx_kind" where
  "decode_to P to = and_then (ok_or (Eyre ''no to'') to) (decode_tx_kind P)"

definition decode_tx_legacy :: "('bc, 'jt, 'chain, 'wd, 'rq) codec_prims \<Rightarrow> p_tx_legacy \<Rightarrow> err + tx_legacy" where
  "decode_tx_legacy P tx =
     and_then (u128_from_le (pl_gas_price tx)) (\<lambda>gas_price.
     and_then (u64_from_le (pl_gas_limit tx)) (\<lambda>gas_limit.
     and_then (decode_to P (pl_to tx)) (\<lambda>to.
     and_then (decode_u256 P ''failed to parse value'' (pl_value tx)) (\<lambda>value.
     Inr \<lparr>tl_chain_id = pl_chain_id tx, tl_nonce = pl_nonce tx, tl_gas_price = gas_price,
          tl_gas_limit = gas_limit, tl_to = to, tl_value = value, tl_input = pl_input tx\<rparr>))))"

definition decode_tx_eip2930 ::
  "('bc, 'jt, 'chain, 'wd, 'rq) codec_prims \<Rightarrow> p_tx_eip2930 \<Rightarrow> err + tx_eip2930" where
  "decode_tx_eip2930 P tx =
     and_then (u128_from_le (pta_gas_price tx)) (\<lambda>gas_price.
     and_then (u64_from_le (pta_gas_limit tx)) (\<lambda>gas_limit.
     and_then (decode_to P (pta_to tx)) (\<lambda>to.
     and_then (decode_u256 P ''failed to parse value'' (pta_value tx)) (\<lambda>value.
     and_then (try_collect (decode_access_list_item P) (pta_access_list tx)) (\<lambda>access_list.
     Inr \<lparr>ta_chain_id = pta_chain_id tx, ta_nonce = pta_nonce tx, ta_gas_price = gas_price,
          ta_gas_limit = gas_limit, ta_to = to, ta_value = value, ta_access_list = access_list,
          ta_input = pta_input tx\<rparr>)))))"

definition decode_tx_eip1559 ::
  "('bc, 'jt, 'chain, 'wd, 'rq) codec_prims \<Rightarrow> p_tx_eip1559 \<Rightarrow> err + tx_eip1559" where
  "decode_tx_eip1559 P tx =
     and_then (u64_from_le (ptf_gas_limit tx)) (\<lambda>gas_limit.
     and_then (u128_from_le (ptf_max_fee_per_gas tx)) (\<lambda>max_fee_per_gas.
     and_then (u128_from_le (ptf_max_priority_fee_per_gas tx)) (\<lambda>max_priority_fee_per_gas.
     and_then (decode_to P (ptf_to tx)) (\<lambda>to.
     and_then (decode_u256 P ''failed to parse value'' (ptf_value tx)) (\<lambda>value.
     and_then (try_collect (decode_access_list_item P) (ptf_access_list tx)) (\<lambda>access_list.
     Inr \<lparr>tf_chain_id = ptf_chain_id tx, tf_nonce = ptf_nonce tx, tf_gas_limit = gas_limit,
          tf_max_fee_per_gas = max_fee_per_gas, tf_max_priority_fee_per_gas = max_priority_fee_per_gas,
          tf_to = to, tf_value = value, tf_access_list = access_list, tf_input = ptf_input tx\<rparr>))))))"

definition decode_tx_eip4844 ::
  "('bc, 'jt, 'chain, 'wd, 'rq) codec_prims \<Rightarrow> p_tx_eip4844 \<Rightarrow> err + tx_eip4844" where
  "decode_tx_eip4844 P tx =
     and_then (u64_from_le (ptb_gas_limit tx)) (\<lambda>gas_limit.
     and_then (u128_from_le (ptb_max_fee_per_gas tx)) (\<lambda>max_fee_per_gas.
     and_then (u128_from_le (ptb_max_priority_fee_per_gas tx)) (\<lambda>max_priority_fee_per_gas.
     and_then (address_try_from P (ptb_to tx)) (\<lambda>to.
     and_then (decode_u256 P ''failed to parse value'' (ptb_value tx)) (\<lambda>value.
     and_then (try_collect (decode_access_list_item P) (ptb_access_list tx)) (\<lambda>access_list.
     and_then (try_collect (b256_try_from P) (ptb_blob_versioned_hashes tx)) (\<lambda>blob_versioned_hashes.
     and_then (u128_from_le (ptb_max_fee_per_blob_gas tx)) (\<lambda>max_fee_per_blob_gas.
     Inr \<lparr>tb_chain_id = ptb_chain_id tx, tb_nonce = ptb_nonce tx, tb_gas_limit = gas_limit,
          tb_max_fee_per_gas = max_fee_per_gas, tb_max_priority_fee_per_gas = max_priority_fee_per_gas,
          tb_to = to, tb_value = value, tb_access_list = access_list,
          tb_blob_versioned_hashes = blob_versioned_hashes,
          tb_max_fee_per_blob_gas = max_fee_per_blob_gas, tb_input = ptb_input tx\<rparr>))))))))"

text \<open>
  One authorization: \<open>y_parity as u8\<close> keeps the low byte, and the chain id must be a full \<open>U256\<close>
  array although the message of its error says 8 bytes.
\<close>

definition decode_authorization ::
  "('bc, 'jt, 'chain, 'wd, 'rq) codec_prims \<Rightarrow> p_authorization_list_item \<Rightarrow> err + signed_authorization" where
  "decode_authorization P item =
     and_then (ok_or (Eyre ''no signature'') (pi_signature item)) (\<lambda>sg.
     and_then (decode_u256 P ''failed to parse r'' (ps_r sg)) (\<lambda>r.
     and_then (decode_u256 P ''failed to parse s'' (ps_s sg)) (\<lambda>s.
     let y_parity = ucast (ps_y_parity sg) in
     and_then (ok_or (Eyre ''no authorization'') (pi_authorization item)) (\<lambda>authorization.
     and_then (if length (pz_chain_id authorization) = 32
        then Inr (u256_from_le_array P (pz_chain_id authorization))
        else Inl (Eyre ''chain_id must be exactly 8 bytes'')) (\<lambda>chain_id.
     and_then (address_try_from P (pz_address authorization)) (\<lambda>address.
     Inr \<lparr>au_chain_id = chain_id, au_address = address, au_nonce = pz_nonce authorization,
          au_y_parity = y_parity, au_r = r, au_s = s\<rparr>))))))"

definition decode_tx_eip7702 ::
  "('bc, 'jt, 'chain, 'wd, 'rq) codec_prims \<Rightarrow> p_tx_eip7702 \<Rightarrow> err + tx_eip7702" where
  "decode_tx_eip7702 P tx =
     and_then (u64_from_le (pts_gas_limit tx)) (\<lambda>gas_limit.
     and_then (u128_from_le (pts_max_fee_per_gas tx)) (\<lambda>max_fee_per_gas.
     and_then (u128_from_le (pts_max_priority_fee_per_gas tx)) (\<lambda>max_priority_fee_per_gas.
     and_then (address_try_from P (pts_to tx)) (\<lambda>to.
     and_then (decode_u256 P ''failed to parse value'' (pts_value tx)) (\<lambda>value.
     and_then (try_collect (decode_access_list_item P) (pts_access_list tx)) (\<lambda>access_list.
     and_then (try_collect (decode_authorization P) (pts_authorization_list tx)) (\<lambda>authorization_list.
     Inr \<lparr>ts_chain_id = pts_chain_id tx, ts_nonce = pts_nonce tx, ts_gas_limit = gas_limit,
          ts_max_fee_per_gas = max_fee_per_gas, ts_max_priority_fee_per_gas = max_priority_fee_per_gas,
          ts_to = to, ts_value = value, ts_access_list = access_list,
          ts_authorization_list = authorization_list, ts_input = pts_input tx\<rparr>)))))))"

definition decode_transaction ::
  "('bc, 'jt, 'chain, 'wd, 'rq) codec_prims \<Rightarrow> p_transaction \<Rightarrow> err + transaction_signed" where
  "decode_transaction P transaction =
     and_then (b256_try_from P (pt_hash transaction)) (\<lambda>hash.
     and_then (ok_or (Eyre ''no signature'') (pt_signature transaction)) (\<lambda>sg.
     if 1 < ps_y_parity sg then Inl (InvalidParity (ucast (ps_y_parity sg))) else
     and_then (decode_u256 P ''failed to parse r'' (ps_r sg)) (\<lambda>r.
     and_then (decode_u256 P ''failed to parse s'' (ps_s sg)) (\<lambda>s.
     let sign = \<lparr>sg_r = r, sg_s = s, sg_v = (ps_y_parity sg = 1)\<rparr> in
     and_then (ok_or (Eyre ''no transaction'') (pt_transaction transaction)) (\<lambda>oneof.
     and_then (case oneof of
         PLegacy tx \<Rightarrow> and_then (decode_tx_legacy P tx) (\<lambda>t. Inr (TxLegacy t))
       | PEip2930 tx \<Rightarrow> and_then (decode_tx_eip2930 P tx) (\<lambda>t. Inr (TxEip2930 t))
       | PEip1559 tx \<Rightarrow> and_then (decode_tx_eip1559 P tx) (\<lambda>t. Inr (TxEip1559 t))
       | PEip4844 tx \<Rightarrow> and_then (decode_tx_eip4844 P tx) (\<lambda>t. Inr (TxEip4844 t))
       | PEip7702 tx \<Rightarrow> and_then (decode_tx_eip7702 P tx) (\<lambda>t. Inr (TxEip7702 t))) (\<lambda>tx.
     Inr \<lparr>tr_transaction = tx, tr_signature = sign, tr_hash = hash\<rparr>))))))"

section \<open>Accounts and their reverts\<close>

definition decode_bytecode :: "('bc, 'jt, 'chain, 'wd, 'rq) codec_prims \<Rightarrow> p_bytecode \<Rightarrow> err + 'bc" where
  "decode_bytecode P bytecode =
     and_then (ok_or (Eyre ''no bytecode'') (pb_bytecode bytecode)) (\<lambda>oneof.
     case oneof of
       PLegacyAnalyzed legacy \<Rightarrow>
         and_then (jt_from_slice P (py_jump_table legacy) (py_jump_table_len legacy))
           (bc_new_analyzed P (py_bytecode legacy) (py_original_len legacy))
     | PEip7702Bytecode eip7702 \<Rightarrow>
         and_then (address_try_from P (pe_delegated_address eip7702)) (\<lambda>a. Inr (bc_new_eip7702 P a)))"

definition decode_account_info ::
  "('bc, 'jt, 'chain, 'wd, 'rq) codec_prims \<Rightarrow> p_account_info \<Rightarrow> err + 'bc account_info" where
  "decode_account_info P i =
     and_then (decode_u256 P ''failed to parse balance'' (pn_balance i)) (\<lambda>bal.
     and_then (b256_try_from P (pn_code_hash i)) (\<lambda>hash.
     and_then (opt_try (decode_bytecode P) (pn_code i)) (\<lambda>c.
     Inr \<lparr>balance = bal, nonce = pn_nonce i, code_hash = hash, code = c, account_id = None\<rparr>)))"

text \<open>\<open>proto::AccountStatus::try_from(i32)?.into()\<close>.\<close>

definition status_from_i32 :: "i32 \<Rightarrow> err + account_status" where
  "status_from_i32 n =
     (if n = 0 then Inr LoadedNotExisting
      else if n = 1 then Inr Loaded
      else if n = 2 then Inr LoadedEmptyEIP161
      else if n = 3 then Inr InMemoryChange
      else if n = 4 then Inr Changed
      else if n = 5 then Inr Destroyed
      else if n = 6 then Inr DestroyedChanged
      else if n = 7 then Inr DestroyedAgain
      else Inl (UnknownEnumValue n))"

definition decode_storage_slot ::
  "('bc, 'jt, 'chain, 'wd, 'rq) codec_prims \<Rightarrow> p_storage_slot \<Rightarrow> err + u256 \<times> storage_slot" where
  "decode_storage_slot P slot =
     and_then (decode_u256 P ''failed to parse key'' (pst_key slot)) (\<lambda>key.
     and_then (decode_u256 P ''failed to parse previous or original value''
        (pst_previous_or_original_value slot)) (\<lambda>previous.
     and_then (decode_u256 P ''failed to parse present value'' (pst_present_value slot)) (\<lambda>present.
     Inr (key, \<lparr>sl_previous_or_original_value = previous, sl_present_value = present\<rparr>))))"

definition decode_bundle_account ::
  "('bc, 'jt, 'chain, 'wd, 'rq) codec_prims \<Rightarrow> p_bundle_account \<Rightarrow> err + address \<times> 'bc bundle_account" where
  "decode_bundle_account P account =
     and_then (address_try_from P (pba_address account)) (\<lambda>address.
     and_then (opt_try (decode_account_info P) (pba_info account)) (\<lambda>info.
     and_then (opt_try (decode_account_info P) (pba_original_info account)) (\<lambda>original_info.
     and_then (try_collect (decode_storage_slot P) (pba_storage account)) (\<lambda>storage.
     and_then (status_from_i32 (pba_status account)) (\<lambda>status.
     Inr (address, \<lparr>ba_info = info, ba_original_info = original_info,
       ba_storage = collect_map storage, ba_status = status\<rparr>))))))"

definition decode_revert_slot ::
  "('bc, 'jt, 'chain, 'wd, 'rq) codec_prims \<Rightarrow> p_revert_to_slot \<Rightarrow> err + u256 \<times> revert_to_slot" where
  "decode_revert_slot P slot =
     and_then (decode_u256 P ''failed to parse slot key'' (prs_key slot)) (\<lambda>key.
     and_then (ok_or (Eyre ''no slot revert'') (prs_revert slot)) (\<lambda>oneof.
     and_then (case oneof of
         PSome value \<Rightarrow> and_then (decode_u256 P ''failed to parse slot revert'' value) (\<lambda>v. Inr (SlotSome v))
       | PDestroyed \<Rightarrow> Inr SlotDestroyed) (\<lambda>r.
     Inr (key, r))))"

definition decode_revert ::
  "('bc, 'jt, 'chain, 'wd, 'rq) codec_prims \<Rightarrow> p_revert \<Rightarrow> err + address \<times> 'bc account_revert" where
  "decode_revert P revert =
     and_then (address_try_from P (pr_address revert)) (\<lambda>address.
     and_then (ok_or (Eyre ''no revert account'') (pr_account revert)) (\<lambda>account.
     and_then (ok_or (Eyre ''no revert account revert'') (pir_revert account)) (\<lambda>oneof.
     and_then (case oneof of
         PDoNothing \<Rightarrow> Inr DoNothing
       | PDeleteIt \<Rightarrow> Inr DeleteIt
       | PRevertTo i \<Rightarrow> and_then (decode_account_info P i) (\<lambda>a. Inr (RevertTo a))) (\<lambda>account.
     and_then (try_collect (decode_revert_slot P) (pr_storage revert)) (\<lambda>storage.
     and_then (status_from_i32 (pr_previous_status revert)) (\<lambda>status.
     Inr (address, \<lparr>ar_account = account, ar_storage = collect_map storage,
       ar_previous_status = status, ar_wipe_storage = pr_wipe_storage revert\<rparr>)))))))"

section \<open>Receipts\<close>

definition tx_type_from_i32 :: "i32 \<Rightarrow> err + tx_type" where
  "tx_type_from_i32 n =
     (if n = 0 then Inr LegacyType
      else if n = 1 then Inr Eip2930Type
      else if n = 2 then Inr Eip1559Type
      else if n = 3 then Inr Eip4844Type
      else if n = 4 then Inr Eip7702Type
      else Inl (UnknownEnumValue n))"

definition decode_log :: "('bc, 'jt, 'chain, 'wd, 'rq) codec_prims \<Rightarrow> p_log \<Rightarrow> err + eth_log" where
  "decode_log P l =
     and_then (ok_or (Eyre ''no log data'') (pg_log_data l)) (\<lambda>d.
     and_then (address_try_from P (pg_address l)) (\<lambda>address.
     and_then (try_collect (b256_try_from P) (pd_topics d)) (\<lambda>topics.
     Inr \<lparr>lg_address = address, lg_topics = topics, lg_data = pd_data d\<rparr>)))"

definition decode_non_empty_receipt ::
  "('bc, 'jt, 'chain, 'wd, 'rq) codec_prims \<Rightarrow> p_non_empty_receipt \<Rightarrow> err + eth_receipt" where
  "decode_non_empty_receipt P receipt =
     and_then (tx_type_from_i32 (pne_tx_type receipt)) (\<lambda>ty.
     and_then (try_collect (decode_log P) (pne_logs receipt)) (\<lambda>logs.
     Inr \<lparr>er_tx_type = ty, er_success = pne_success receipt,
          er_cumulative_gas_used = pne_cumulative_gas_used receipt, er_logs = logs\<rparr>))"

definition decode_receipt ::
  "('bc, 'jt, 'chain, 'wd, 'rq) codec_prims \<Rightarrow> p_receipt \<Rightarrow> err + eth_receipt" where
  "decode_receipt P receipt =
     and_then (ok_or (Eyre ''no receipt'') (prc_receipt receipt)) (\<lambda>oneof.
     case oneof of
       PEmpty \<Rightarrow> Inl (Eyre ''empty'')
     | PNonEmpty r \<Rightarrow> decode_non_empty_receipt P r)"

section \<open>Blocks, chains and notifications\<close>

definition decode_block ::
  "('bc, 'jt, 'chain, 'wd, 'rq) codec_prims \<Rightarrow> p_block \<Rightarrow> err + 'wd recovered_block" where
  "decode_block P block =
     and_then (ok_or (Eyre ''no sealed header'') (pbl_header block)) (\<lambda>sealed.
     and_then (ok_or (Eyre ''no header'') (psh_header sealed)) (\<lambda>h.
     and_then (decode_header P h) (\<lambda>header.
     and_then (b256_try_from P (psh_hash sealed)) (\<lambda>hash.
     and_then (try_collect (decode_transaction P) (pbl_body block)) (\<lambda>transactions.
     and_then (try_collect (decode_header P) (pbl_ommers block)) (\<lambda>ommers.
     and_then (try_collect (address_try_from P) (pbl_senders block)) (\<lambda>senders.
     Inr \<lparr>rb_hash = hash, rb_header = header, rb_transactions = transactions, rb_ommers = ommers,
          rb_withdrawals = None, rb_senders = senders\<rparr>)))))))"

definition decode_contract ::
  "('bc, 'jt, 'chain, 'wd, 'rq) codec_prims \<Rightarrow> p_contract_bytecode \<Rightarrow> err + b256 \<times> 'bc" where
  "decode_contract P contract =
     and_then (b256_try_from P (pc_hash contract)) (\<lambda>hash.
     and_then (ok_or (Eyre ''no bytecode'') (pc_bytecode contract)) (\<lambda>b.
     and_then (decode_bytecode P b) (\<lambda>bytecode. Inr (hash, bytecode))))"

definition decode_bundle_state ::
  "('bc, 'jt, 'chain, 'wd, 'rq) codec_prims \<Rightarrow> p_bundle_state \<Rightarrow> err + 'bc bundle_state" where
  "decode_bundle_state P b =
     and_then (try_collect (decode_bundle_account P) (pbs_state b)) (\<lambda>state.
     and_then (try_collect (decode_contract P) (pbs_contracts b)) (\<lambda>contracts.
     and_then (try_collect (try_collect (decode_revert P)) (pbs_reverts b)) (\<lambda>reverts.
     Inr \<lparr>bs_state = collect_map state, bs_contracts = collect_map contracts, bs_reverts = reverts,
          bs_state_size = pbs_state_size b, bs_reverts_size = pbs_reverts_size b\<rparr>)))"

definition decode_chain :: "('bc, 'jt, 'chain, 'wd, 'rq) codec_prims \<Rightarrow> p_chain \<Rightarrow> err + 'chain" where
  "decode_chain P chain =
     and_then (ok_or (Eyre ''no execution outcome'') (pch_execution_outcome chain)) (\<lambda>outcome.
     and_then (ok_or (Eyre ''no bundle'') (peo_bundle outcome)) (\<lambda>b.
     and_then (try_collect (decode_block P) (pch_blocks chain)) (\<lambda>blocks.
     and_then (decode_bundle_state P b) (\<lambda>bundle_state.
     and_then (try_collect (try_collect (decode_receipt P)) (peo_receipts outcome)) (\<lambda>receipts.
     Inr (chain_new P blocks
       \<lparr>eo_bundle = bundle_state, eo_receipts = receipts, eo_first_block = peo_first_block outcome,
        eo_requests = []\<rparr>))))))"

definition decode_notification ::
  "('bc, 'jt, 'chain, 'wd, 'rq) codec_prims \<Rightarrow> p_notification \<Rightarrow> err + 'chain exex_notification" where
  "decode_notification P n =
     and_then (ok_or (Eyre ''no notification'') (pno_notification n)) (\<lambda>oneof.
     case oneof of
       PChainCommitted new \<Rightarrow>
         and_then (ok_or (Eyre ''no new chain'') new) (\<lambda>new.
         and_then (decode_chain P new) (\<lambda>c. Inr (ChainCommitted c)))
     | PChainReorged old new \<Rightarrow>
         and_then (ok_or (Eyre ''no old chain'') old) (\<lambda>old.
         and_then (decode_chain P old) (\<lambda>c.
         and_then (ok_or (Eyre ''no new chain'') new) (\<lambda>new.
         and_then (decode_chain P new) (\<lambda>d. Inr (ChainReorged c d)))))
     | PChainReverted old \<Rightarrow>
         and_then (ok_or (Eyre ''no old chain'') old) (\<lambda>old.
         and_then (decode_chain P old) (\<lambda>c. Inr (ChainReverted c))))"

end
