(* ===== verification/Codec_Props.thy ===== *)
theory Codec_Props
  imports Codec_Decode
begin

text \<open>
  The codec's properties: what survives the trip from a native value to a message and back, type
  by type up to notifications, what does not, and which messages are refused. \<open>travels\<close> is the
  round trip of a fallible conversion; its lemmas lift it over options and lists.
\<close>

section \<open>Round trips of fallible conversions\<close>

definition travels :: "('a \<Rightarrow> err + 'm) \<Rightarrow> ('m \<Rightarrow> err + 'b) \<Rightarrow> 'a \<Rightarrow> 'b \<Rightarrow> bool" where
  "travels enc dec x y \<longleftrightarrow> and_then (enc x) dec = Inr y"

lemma travelsI: "enc x = Inr m \<Longrightarrow> dec m = Inr y \<Longrightarrow> travels enc dec x y"
  by (simp add: travels_def)

lemma travelsE:
  assumes "travels enc dec x y"
  obtains m where "enc x = Inr m" "dec m = Inr y"
  using assms by (auto simp: travels_def and_then_Inr_iff)

lemma travels_list:
  assumes "\<And>x. x \<in> set xs \<Longrightarrow> travels enc dec x (n x)"
  shows "travels (try_collect enc) (try_collect dec) xs (map n xs)"
  using assms
proof (induction xs)
  case (Cons x xs)
  have "travels enc dec x (n x)" "travels (try_collect enc) (try_collect dec) xs (map n xs)"
    using Cons by auto
  then show ?case by (auto elim!: travelsE intro!: travelsI)
qed (simp add: travels_def)

lemma travels_option:
  assumes "\<And>x. ox = Some x \<Longrightarrow> travels enc dec x (n x)"
  shows "travels (opt_try enc) (opt_try dec) ox (map_option n ox)"
  using assms by (cases ox) (auto elim!: travelsE intro!: travelsI)

lemma travels_list_length: "travels (try_collect enc) (try_collect dec) xs ys \<Longrightarrow> length ys = length xs"
  by (elim travelsE) (metis try_collect_length)

section \<open>What is kept of each value\<close>

text \<open>
  A header loses its requests hash, an account its id, a block its withdrawals and an outcome its
  requests; everything else is kept.
\<close>

definition sent_header :: "eth_header \<Rightarrow> eth_header" where
  "sent_header h = h\<lparr>eh_requests_hash := None\<rparr>"

definition sent_info :: "'bc account_info \<Rightarrow> 'bc account_info" where
  "sent_info i = i\<lparr>account_id := None\<rparr>"

definition sent_account :: "'bc bundle_account \<Rightarrow> 'bc bundle_account" where
  "sent_account a = a\<lparr>ba_info := map_option sent_info (ba_info a),
     ba_original_info := map_option sent_info (ba_original_info a)\<rparr>"

definition sent_revert :: "'bc account_revert \<Rightarrow> 'bc account_revert" where
  "sent_revert r = r\<lparr>ar_account := (case ar_account r of RevertTo i \<Rightarrow> RevertTo (sent_info i) | x \<Rightarrow> x)\<rparr>"

definition sent_bundle :: "'bc bundle_state \<Rightarrow> 'bc bundle_state" where
  "sent_bundle b = b\<lparr>bs_state := map (map_prod id sent_account) (bs_state b),
     bs_reverts := map (map (map_prod id sent_revert)) (bs_reverts b)\<rparr>"

definition sent_block :: "'wd recovered_block \<Rightarrow> 'wd recovered_block" where
  "sent_block b = b\<lparr>rb_header := sent_header (rb_header b), rb_ommers := map sent_header (rb_ommers b),
     rb_withdrawals := None\<rparr>"

definition sent_outcome :: "('bc, 'rq) execution_outcome \<Rightarrow> ('bc, 'rq) execution_outcome" where
  "sent_outcome e = e\<lparr>eo_bundle := sent_bundle (eo_bundle e), eo_requests := []\<rparr>"

lemma sent_outcome_eta: "sent_outcome e = \<lparr>eo_bundle = sent_bundle (eo_bundle e),
    eo_receipts = eo_receipts e, eo_first_block = eo_first_block e, eo_requests = []\<rparr>"
  by (cases e) (simp add: sent_outcome_def)

text \<open>The hash maps have one entry per key.\<close>

definition keyed :: "('k \<times> 'v) list \<Rightarrow> bool" where
  "keyed kvs \<longleftrightarrow> distinct (map fst kvs)"

definition bundle_ok :: "'bc bundle_state \<Rightarrow> bool" where
  "bundle_ok b \<longleftrightarrow> keyed (bs_state b) \<and> (\<forall>(_, a) \<in> set (bs_state b). keyed (ba_storage a)) \<and>
     keyed (bs_contracts b) \<and> (\<forall>rs \<in> set (bs_reverts b). \<forall>(_, r) \<in> set rs. keyed (ar_storage r))"

section \<open>Round trips of the parts\<close>

lemma status_rt [simp, codec]: "status_from_i32 (status_to_i32 s) = Inr s"
  by (cases s) (simp_all add: status_from_i32_def)

lemma tx_type_rt [simp, codec]: "tx_type_from_i32 (tx_type_to_i32 t) = Inr t"
  by (cases t) (simp_all add: tx_type_from_i32_def)

lemma parity_rt: "(ucast (ucast (b :: u8) :: u32) :: u8) = b"
  by (rule bit_word_eqI) (auto simp: bit_simps)

context codec_prims_ok
begin

lemma decode_u256_rt [simp, codec]: "decode_u256 P msg (u256_to_le_vec P x) = Inr x"
  by (simp add: decode_u256_def)

lemma header_rt [simp, codec]: "decode_header P (encode_header P h) = Inr (sent_header h)"
  by (simp add: decode_header_def encode_header_def sent_header_def)

lemma tx_kind_rt [simp, codec]: "decode_tx_kind P (encode_tx_kind P k) = Inr k"
  by (cases k) (simp_all add: decode_tx_kind_def encode_tx_kind_def)

lemma access_list_item_rt [simp, codec]: "decode_access_list_item P (encode_access_list_item P i) = Inr i"
  by (simp add: decode_access_list_item_def encode_access_list_item_def)

lemma authorization_rt [simp, codec]: "decode_authorization P (encode_authorization P a) = Inr a"
  by (simp add: decode_authorization_def encode_authorization_def Let_def parity_rt)

lemma map_rts [simp, codec]:
  "try_collect (decode_access_list_item P) (map (encode_access_list_item P) xs) = Inr xs"
  "try_collect (decode_authorization P) (map (encode_authorization P) as) = Inr as"
  "try_collect (decode_header P) (map (encode_header P) hs) = Inr (map sent_header hs)"
  by (simp_all add: try_collect_map try_collect_Inr [where g = "\<lambda>x. x"] try_collect_Inr [where g = sent_header])

lemma tx_rts [simp, codec]:
  "decode_tx_legacy P (encode_tx_legacy P t1) = Inr t1"
  "decode_tx_eip2930 P (encode_tx_eip2930 P t2) = Inr t2"
  "decode_tx_eip1559 P (encode_tx_eip1559 P t3) = Inr t3"
  "decode_tx_eip4844 P (encode_tx_eip4844 P t4) = Inr t4"
  "decode_tx_eip7702 P (encode_tx_eip7702 P t5) = Inr t5"
  by (simp_all add: decode_tx_legacy_def encode_tx_legacy_def decode_tx_eip2930_def encode_tx_eip2930_def
      decode_tx_eip1559_def encode_tx_eip1559_def decode_tx_eip4844_def encode_tx_eip4844_def
      decode_tx_eip7702_def encode_tx_eip7702_def decode_to_def)

lemma transaction_travels: "travels (encode_transaction P) (decode_transaction P) t t"
proof (rule travelsI)
  show "encode_transaction P t = Inr (case encode_transaction P t of Inr m \<Rightarrow> m)"
    by (simp add: encode_transaction_def)
  show "decode_transaction P (case encode_transaction P t of Inr m \<Rightarrow> m) = Inr t"
    by (cases "tr_transaction t")
      (auto simp: encode_transaction_def decode_transaction_def encode_signature_def Let_def)
qed

lemma bytecode_travels: "travels (encode_bytecode P) (decode_bytecode P) c c"
proof (cases "bc_kind P c")
  case LegacyAnalyzedKind
  from legacy_rt[OF this] obtain jt where "bc_jump_table P c = Some jt"
    "and_then (jt_from_slice P (jt_as_slice P jt) (jt_len P jt))
       (bc_new_analyzed P (bc_bytecode P c) (word_of_nat (length (bc_original_bytes P c)))) = Inr c" by blast
  with LegacyAnalyzedKind show ?thesis
    by (simp add: travels_def encode_bytecode_def decode_bytecode_def)
next
  case Eip7702Kind
  from eip7702_rt[OF this] Eip7702Kind show ?thesis
    by (auto simp: travels_def encode_bytecode_def decode_bytecode_def Let_def)
qed

lemma info_travels: "travels (encode_account_info P) (decode_account_info P) i (sent_info i)"
proof -
  have "travels (opt_try (encode_bytecode P)) (opt_try (decode_bytecode P)) (code i) (map_option (\<lambda>c. c) (code i))"
    by (rule travels_option) (rule bytecode_travels)
  then show ?thesis
    by (elim travelsE, auto simp: travels_def encode_account_info_def decode_account_info_def sent_info_def
        option.map_ident)
qed

lemma slots_rt: "keyed kvs \<Longrightarrow>
    and_then (try_collect (decode_storage_slot P) (map (encode_storage_slot P) kvs)) (\<lambda>s. Inr (collect_map s)) = Inr kvs"
proof -
  have "try_collect (decode_storage_slot P) (map (encode_storage_slot P) kvs) = Inr (map (\<lambda>x. x) kvs)"
    unfolding try_collect_map
    by (rule try_collect_Inr) (auto simp: encode_storage_slot_def decode_storage_slot_def)
  moreover assume "keyed kvs"
  ultimately show ?thesis by (simp add: keyed_def)
qed

lemma account_travels:
  assumes "keyed (ba_storage a)"
  shows "travels (encode_bundle_account P) (decode_bundle_account P) (addr, a) (addr, sent_account a)"
proof -
  have o: "travels (opt_try (encode_account_info P)) (opt_try (decode_account_info P)) oi (map_option sent_info oi)" for oi
    by (rule travels_option) (rule info_travels)
  obtain s where "try_collect (decode_storage_slot P) (map (encode_storage_slot P) (ba_storage a)) = Inr s"
    "collect_map s = ba_storage a"
    using slots_rt[OF assms] by (auto simp: and_then_Inr_iff)
  with o[of "ba_info a"] o[of "ba_original_info a"] show ?thesis
    by (elim travelsE, auto simp: travels_def encode_bundle_account_def decode_bundle_account_def sent_account_def)
qed

lemma revert_slot_travels: "travels (encode_revert_slot P) (decode_revert_slot P) e e"
  by (cases e; cases "snd e") (auto simp: travels_def encode_revert_slot_def decode_revert_slot_def)

lemma revert_travels:
  assumes "keyed (ar_storage r)"
  shows "travels (encode_revert P) (decode_revert P) (addr, r) (addr, sent_revert r)"
proof -
  have "travels (try_collect (encode_revert_slot P)) (try_collect (decode_revert_slot P)) (ar_storage r) (map (\<lambda>e. e) (ar_storage r))"
    by (rule travels_list) (rule revert_slot_travels)
  then obtain ss where ss: "try_collect (encode_revert_slot P) (ar_storage r) = Inr ss"
    "try_collect (decode_revert_slot P) ss = Inr (ar_storage r)"
    by (auto elim: travelsE)
  have "travels (\<lambda>x. case x of DoNothing \<Rightarrow> Inr PDoNothing | DeleteIt \<Rightarrow> Inr PDeleteIt
        | RevertTo i \<Rightarrow> and_then (encode_account_info P i) (\<lambda>i. Inr (PRevertTo i)))
      (\<lambda>m. case m of PDoNothing \<Rightarrow> Inr DoNothing | PDeleteIt \<Rightarrow> Inr DeleteIt
        | PRevertTo i \<Rightarrow> and_then (decode_account_info P i) (\<lambda>a. Inr (RevertTo a)))
      (ar_account r) (ar_account (sent_revert r))"
  proof (cases "ar_account r")
    case (RevertTo i)
    from info_travels[of i] RevertTo show ?thesis
      by (elim travelsE) (auto simp: sent_revert_def travels_def)
  qed (simp_all add: sent_revert_def travels_def)
  then show ?thesis
    using assms ss by (elim travelsE) (auto simp: travels_def encode_revert_def decode_revert_def keyed_def sent_revert_def)
qed

lemma log_rt [simp, codec]: "decode_log P (encode_log P l) = Inr l"
  by (simp add: decode_log_def encode_log_def)

lemma receipt_travels: "travels (encode_receipt P) (decode_receipt P) r r"
proof -
  have "try_collect (decode_log P) (map (encode_log P) ls) = Inr (map (\<lambda>l. l) ls)" for ls
    unfolding try_collect_map by (rule try_collect_Inr) simp
  then show ?thesis
    by (simp add: travels_def encode_receipt_def decode_receipt_def encode_non_empty_receipt_def
        decode_non_empty_receipt_def)
qed

lemma block_travels: "travels (encode_block P) (decode_block P) b (sent_block b)"
proof -
  have "travels (try_collect (encode_transaction P)) (try_collect (decode_transaction P))
      (rb_transactions b) (map (\<lambda>t. t) (rb_transactions b))"
    by (rule travels_list) (rule transaction_travels)
  then show ?thesis
    by (elim travelsE, auto simp: travels_def encode_block_def decode_block_def sent_block_def)
qed

lemma contract_travels: "travels (encode_contract P) (decode_contract P) e e"
  using bytecode_travels[of "snd e"]
  by (cases e) (elim travelsE, auto simp: travels_def encode_contract_def decode_contract_def)

lemma bundle_travels:
  assumes "bundle_ok b"
  shows "travels (encode_bundle_state P) (decode_bundle_state P) b (sent_bundle b)"
proof -
  have "travels (try_collect (encode_bundle_account P)) (try_collect (decode_bundle_account P))
      (bs_state b) (map (map_prod id sent_account) (bs_state b))"
    using assms by (intro travels_list) (force simp: bundle_ok_def intro: account_travels)
  moreover have "travels (try_collect (encode_contract P)) (try_collect (decode_contract P))
      (bs_contracts b) (map (\<lambda>e. e) (bs_contracts b))"
    by (intro travels_list contract_travels)
  moreover have "travels (try_collect (try_collect (encode_revert P))) (try_collect (try_collect (decode_revert P)))
      (bs_reverts b) (map (map (map_prod id sent_revert)) (bs_reverts b))"
    using assms by (intro travels_list) (force simp: bundle_ok_def intro: revert_travels)
  moreover have "keyed (map (map_prod id sent_account) (bs_state b))" "keyed (bs_contracts b)"
    using assms by (simp_all add: bundle_ok_def keyed_def comp_def)
  ultimately show ?thesis
    by (elim travelsE, auto simp: travels_def encode_bundle_state_def decode_bundle_state_def sent_bundle_def keyed_def)
qed

lemma ascending_sent: "ascending bs \<Longrightarrow> ascending (map sent_block bs)"
  by (simp add: ascending_def sent_block_def sent_header_def comp_def)

lemma chain_travels:
  assumes "bundle_ok (eo_bundle (chain_outcome P c))"
  shows "\<exists>c'. travels (encode_chain P) (decode_chain P) c c' \<and>
    chain_blocks P c' = map sent_block (chain_blocks P c) \<and> chain_outcome P c' = sent_outcome (chain_outcome P c)"
proof -
  let ?o = "chain_outcome P c"
  have "travels (try_collect (encode_block P)) (try_collect (decode_block P))
      (chain_blocks P c) (map sent_block (chain_blocks P c))"
    by (intro travels_list block_travels)
  moreover have "travels (try_collect (try_collect (encode_receipt P))) (try_collect (try_collect (decode_receipt P)))
      (eo_receipts ?o) (map (map (\<lambda>r. r)) (eo_receipts ?o))"
    by (intro travels_list receipt_travels)
  moreover note bundle_travels[OF assms]
  ultimately have "travels (encode_chain P) (decode_chain P) c
      (chain_new P (map sent_block (chain_blocks P c)) (sent_outcome ?o))"
    by (elim travelsE, auto simp: travels_def encode_chain_def decode_chain_def sent_outcome_eta)
  then show ?thesis
    using chain_new_blocks[OF ascending_sent[OF chain_ascending]] chain_new_outcome by blast
qed

end

section \<open>Properties\<close>

text \<open>The chain a receiver gets for a chain that was sent.\<close>

definition same_chain :: "('bc, 'jt, 'chain, 'wd, 'rq) codec_prims \<Rightarrow> 'chain \<Rightarrow> 'chain \<Rightarrow> bool" where
  "same_chain P c c' \<longleftrightarrow> chain_blocks P c' = map sent_block (chain_blocks P c) \<and>
     chain_outcome P c' = sent_outcome (chain_outcome P c)"

lemma notification_travels:
  assumes "codec_prims_ok P" "\<forall>c \<in> set_exex_notification n. bundle_ok (eo_bundle (chain_outcome P c))"
  shows "\<exists>n'. travels (encode_notification P) (decode_notification P) n n' \<and>
    rel_exex_notification (same_chain P) n n'"
proof (cases n)
  case (ChainCommitted c)
  with codec_prims_ok.chain_travels [OF assms(1), of c] assms(2) obtain c' m where
    "encode_chain P c = Inr m" "decode_chain P m = Inr c'" "same_chain P c c'"
    by (auto simp: same_chain_def elim: travelsE)
  with ChainCommitted show ?thesis
    by (auto simp: travels_def encode_notification_def decode_notification_def)
next
  case (ChainReorged c d)
  with codec_prims_ok.chain_travels [OF assms(1), of c] assms(2) obtain c' m where c:
    "encode_chain P c = Inr m" "decode_chain P m = Inr c'" "same_chain P c c'"
    by (auto simp: same_chain_def elim: travelsE)
  from ChainReorged codec_prims_ok.chain_travels [OF assms(1), of d] assms(2) obtain d' m' where
    "encode_chain P d = Inr m'" "decode_chain P m' = Inr d'" "same_chain P d d'"
    by (auto simp: same_chain_def elim: travelsE)
  with ChainReorged c show ?thesis
    by (auto simp: travels_def encode_notification_def decode_notification_def)
next
  case (ChainReverted c)
  with codec_prims_ok.chain_travels [OF assms(1), of c] assms(2) obtain c' m where
    "encode_chain P c = Inr m" "decode_chain P m = Inr c'" "same_chain P c c'"
    by (auto simp: same_chain_def elim: travelsE)
  with ChainReverted show ?thesis
    by (auto simp: travels_def encode_notification_def decode_notification_def)
qed

text \<open>
  Property C4. A notification survives the wire: encoding it succeeds, decoding the message
  succeeds, and the result is the same kind of notification with the same chains: every block, in
  order, with its header, transactions, ommers and senders, and the whole execution outcome, up to
  the requests hash of the headers, the withdrawals, the account ids and the requests.
\<close>

theorem notification_roundtrip:
  assumes "codec_prims_ok P" "\<forall>c \<in> set_exex_notification n. bundle_ok (eo_bundle (chain_outcome P c))"
  shows "\<exists>m n'. encode_notification P n = Inr m \<and> decode_notification P m = Inr n' \<and>
    rel_exex_notification (same_chain P) n n'"
  using notification_travels [OF assms] by (auto elim: travelsE)

text \<open>A reorg of one block to two, of the Prague fork, each with a transaction.\<close>

definition demo_tx :: "u64 \<Rightarrow> transaction_signed" where
  "demo_tx n = \<lparr>tr_transaction = TxLegacy \<lparr>tl_chain_id = Some 1, tl_nonce = n, tl_gas_price = 7, tl_gas_limit = 21000,
     tl_to = TxCreate, tl_value = 0, tl_input = []\<rparr>,
   tr_signature = \<lparr>sg_r = 1, sg_s = 2, sg_v = True\<rparr>, tr_hash = 3\<rparr>"

definition prague_header :: eth_header where
  "prague_header = \<lparr>eh_parent_hash = 1, eh_ommers_hash = 2, eh_beneficiary = 3, eh_state_root = 4,
     eh_transactions_root = 5, eh_receipts_root = 6, eh_withdrawals_root = Some 7, eh_logs_bloom = 0,
     eh_difficulty = 0, eh_number = 22431084, eh_gas_limit = 36000000, eh_gas_used = 0, eh_timestamp = 1746612311,
     eh_mix_hash = 8, eh_nonce = 0, eh_base_fee_per_gas = Some 9, eh_blob_gas_used = Some 0,
     eh_excess_blob_gas = Some 0, eh_parent_beacon_block_root = Some 10, eh_requests_hash = Some 11,
     eh_extra_data = []\<rparr>"

definition demo_info :: "std_bytecode account_info" where
  "demo_info = \<lparr>balance = 5, nonce = 1, code_hash = 2, code = Some (StdLegacy [0x60, 0]), account_id = Some 3\<rparr>"

definition demo_outcome :: "(std_bytecode, unit) execution_outcome" where
  "demo_outcome = \<lparr>eo_bundle =
     \<lparr>bs_state = [(7, \<lparr>ba_info = Some demo_info, ba_original_info = None,
        ba_storage = [(1, \<lparr>sl_previous_or_original_value = 0, sl_present_value = 9\<rparr>)], ba_status = Changed\<rparr>)],
      bs_contracts = [(2, StdDelegated 4)],
      bs_reverts = [[(7, \<lparr>ar_account = RevertTo demo_info, ar_storage = [(1, SlotDestroyed)],
        ar_previous_status = Loaded, ar_wipe_storage = False\<rparr>)]],
      bs_state_size = 1, bs_reverts_size = 1\<rparr>,
     eo_receipts = [[\<lparr>er_tx_type = Eip7702Type, er_success = True, er_cumulative_gas_used = 21000, er_logs = []\<rparr>]],
     eo_first_block = 1, eo_requests = [()]\<rparr>"

definition demo_block :: "u64 \<Rightarrow> u64 \<Rightarrow> unit recovered_block" where
  "demo_block n k = \<lparr>rb_hash = 100, rb_header = prague_header\<lparr>eh_number := n\<rparr>, rb_transactions = [demo_tx k],
     rb_ommers = [], rb_withdrawals = Some (), rb_senders = [5]\<rparr>"

type_synonym demo_chain = "unit recovered_block list \<times> (std_bytecode, unit) execution_outcome"

definition demo_notification :: "demo_chain exex_notification" where
  "demo_notification = ChainReorged ([demo_block 1 1], demo_outcome) ([demo_block 1 2, demo_block 2 3], demo_outcome)"

lemma demo_notification_ok:
  "\<forall>c \<in> set_exex_notification demo_notification. bundle_ok (eo_bundle (chain_outcome std_prims c))"
  by (simp add: demo_notification_def std_prims_def demo_outcome_def bundle_ok_def keyed_def)

theorem notification_roundtrip_witness:
  "\<exists>m c c'. encode_notification std_prims demo_notification = Inr m \<and>
    decode_notification std_prims m = Inr (ChainReorged c c') \<and>
    map (\<lambda>b. eh_number (rb_header b)) (chain_blocks std_prims c') = [1, 2]"
proof -
  obtain m n' where m: "encode_notification std_prims demo_notification = Inr m"
    "decode_notification std_prims m = Inr n'"
    "rel_exex_notification (same_chain std_prims) demo_notification n'"
    using notification_roundtrip [OF std.codec_prims_ok_axioms demo_notification_ok] by blast
  from m(3) obtain c c' where n': "n' = ChainReorged c c'"
    "same_chain std_prims ([demo_block 1 2, demo_block 2 3], demo_outcome) c'"
    by (cases n') (auto simp: demo_notification_def)
  from n'(2) have "map (\<lambda>b. eh_number (rb_header b)) (chain_blocks std_prims c') = [1, 2]"
    by (simp add: same_chain_def std_prims_def ascending_def demo_block_def sent_block_def sent_header_def)
  with m n' show ?thesis by (intro exI [of _ m] exI [of _ c] exI [of _ c']) simp
qed

text \<open>
  The message of a transaction determines it: two signed transactions, of any of the
  five types, with the same message are equal, signature and hash included.
\<close>

lemma transaction_message_injective:
  assumes "codec_prims_ok P"
  shows "encode_transaction P t = encode_transaction P t' \<longleftrightarrow> t = t'"
  using codec_prims_ok.transaction_travels [OF assms, of t] codec_prims_ok.transaction_travels [OF assms, of t']
  by (auto elim!: travelsE)

lemma transaction_message_injective_witness:
  "encode_transaction std_prims (demo_tx 1) \<noteq> encode_transaction std_prims (demo_tx 2)"
  by (subst transaction_message_injective [OF std.codec_prims_ok_axioms]) (simp add: demo_tx_def)

lemma word_from_le_Inr [simp]:
  "word_from_le w bs = Inr x \<longleftrightarrow> length bs = w \<and> x = word_of_nat (le_value bs)"
  by (auto simp: word_from_le_def)

text \<open>
  The parity of an authorization is not checked but cut to its low byte: adding 256
  to the parity of any authorization message does not change what it decodes to, whereas the
  parity of a transaction's signature is refused above one.
\<close>

lemma authorization_parity_truncated:
  "decode_authorization P (item\<lparr>pi_signature := Some (sg\<lparr>ps_y_parity := ps_y_parity sg + 256\<rparr>)\<rparr>) =
   decode_authorization P (item\<lparr>pi_signature := Some sg\<rparr>) \<and>
   (1 < ps_y_parity sg \<and> b256_try_from P (pt_hash m) = Inr h \<and> pt_signature m = Some sg \<longrightarrow>
    decode_transaction P m = Inl (InvalidParity (ucast (ps_y_parity sg))))"
proof -
  have "(ucast (p + 256) :: u8) = ucast p" for p :: u32
  proof -
    have "((unat p + 256) mod 2 ^ 32) mod 256 = (unat p + 256) mod (256 :: nat)"
      by (rule mod_mod_cancel) simp
    then show ?thesis
      by (simp add: word_unat_eq_iff unsigned_ucast_eq unat_word_ariths take_bit_eq_mod)
  qed
  then show ?thesis by (simp add: decode_authorization_def decode_transaction_def)
qed

lemma authorization_parity_truncated_witness:
  "decode_authorization std_prims (encode_authorization std_prims
     \<lparr>au_chain_id = 1, au_address = 2, au_nonce = 3, au_y_parity = 1, au_r = 4, au_s = 5\<rparr>
     \<lparr>pi_signature := Some (\<lparr>ps_r = u256_to_le_vec std_prims 4, ps_s = u256_to_le_vec std_prims 5, ps_y_parity = 1\<rparr>
        \<lparr>ps_y_parity := 1 + 256\<rparr>)\<rparr>) =
   Inr \<lparr>au_chain_id = 1, au_address = 2, au_nonce = 3, au_y_parity = 1, au_r = 4, au_s = 5\<rparr>"
  using authorization_parity_truncated [where P = std_prims and item = "encode_authorization std_prims
      \<lparr>au_chain_id = 1, au_address = 2, au_nonce = 3, au_y_parity = 1, au_r = 4, au_s = 5\<rparr>"
      and sg = "\<lparr>ps_r = u256_to_le_vec std_prims 4, ps_s = u256_to_le_vec std_prims 5, ps_y_parity = 1\<rparr>"]
    std.authorization_rt[of "\<lparr>au_chain_id = 1, au_address = 2, au_nonce = 3, au_y_parity = 1, au_r = 4, au_s = 5\<rparr>"]
  by (simp add: encode_authorization_def)

text \<open>
  A header comes back unchanged exactly when it has no requests hash: a header of the
  Prague fork, which has one, arrives without it.
\<close>

lemma header_roundtrip_iff:
  assumes "codec_prims_ok P"
  shows "decode_header P (encode_header P h) = Inr h \<longleftrightarrow> eh_requests_hash h = None"
  by (cases h) (auto simp: codec_prims_ok.header_rt [OF assms] sent_header_def)

lemma header_roundtrip_iff_witness:
  "decode_header std_prims (encode_header std_prims prague_header) \<noteq> Inr prague_header"
  by (subst header_roundtrip_iff [OF std.codec_prims_ok_axioms]) (simp add: prague_header_def)

text \<open>
  The enum codes are a bijection with the native values, and a code outside the enum is reported
  as unknown rather than mapped to a default.
\<close>

lemma enum_codes:
  "(status_from_i32 n = Inr s \<longleftrightarrow> n = status_to_i32 s) \<and>
   (tx_type_from_i32 n = Inr t \<longleftrightarrow> n = tx_type_to_i32 t) \<and>
   (7 < n \<longrightarrow> status_from_i32 n = Inl (UnknownEnumValue n)) \<and>
   (4 < n \<longrightarrow> tx_type_from_i32 n = Inl (UnknownEnumValue n))"
  by (cases s; cases t) (auto simp: status_from_i32_def tx_type_from_i32_def)

text \<open>The error of a chain id names 8 bytes, but only 32 are accepted.\<close>

lemma authorization_chain_id_width:
  assumes "decode_authorization P item = Inr a" "pi_authorization item = Some z"
  shows "length (pz_chain_id z) = 32"
  using assms by (auto simp: decode_authorization_def and_then_Inr_iff Let_def split: if_splits)

end
