(* ===== verification/Codec_Accept.thy ===== *)
theory Codec_Accept
  imports Codec_Props
begin

text \<open>
  Exactly which messages decode. For every message of remote/proto/exex.proto a predicate
  \<open>typed_..\<close> says, without running the decoder, that it is complete and that its fields have their
  widths and known values; the decoder of remote/src/codec.rs succeeds on the message exactly then.
  A field that is a \<open>U256\<close> is accepted when alloy's \<open>try_from_le_slice\<close> accepts it, and a bytecode
  when revm's constructors accept its parts: both are parameters.
\<close>

section \<open>When a conversion succeeds\<close>

definition succeeds :: "'e + 'a \<Rightarrow> bool" where
  "succeeds r \<longleftrightarrow> \<not> isl r"

named_theorems succeeds "when the conversions succeed"

lemma succeeds_iff: "succeeds r \<longleftrightarrow> (\<exists>x. r = Inr x)"
  by (cases r) (auto simp: succeeds_def)

lemma succeeds_Inr [succeeds]: "succeeds (Inr x)" "\<not> succeeds (Inl e)"
  by (simp_all add: succeeds_def)

lemma succeeds_and_then [succeeds]: "succeeds (and_then m f) \<longleftrightarrow> succeeds m \<and> succeeds (f (projr m))"
  by (cases m) (simp_all add: succeeds)

lemma succeeds_ok_or [succeeds]: "succeeds (ok_or e ox) \<longleftrightarrow> ox \<noteq> None" "ox \<noteq> None \<Longrightarrow> projr (ok_or e ox) = the ox"
  by (cases ox; simp add: succeeds)+

lemma succeeds_opt_try [succeeds]: "succeeds (opt_try g oy) \<longleftrightarrow> pred_option (\<lambda>y. succeeds (g y)) oy"
  by (cases oy) (simp_all add: succeeds)

lemma succeeds_try_collect [succeeds]: "succeeds (try_collect f xs) \<longleftrightarrow> list_all (\<lambda>x. succeeds (f x)) xs"
  by (induction xs) (simp_all add: succeeds)

lemma succeeds_if [succeeds]: "succeeds (if b then r else r') \<longleftrightarrow> (if b then succeeds r else succeeds r')"
  by simp

lemma succeeds_word [succeeds]: "succeeds (word_from_le w bs :: err + 'a::len word) \<longleftrightarrow> length bs = w"
  by (simp add: succeeds_def word_from_le_def)

section \<open>Total conversions\<close>

text \<open>
  \<open>TryFrom<&[u8]>\<close> of the fixed arrays succeeds on every slice of the width of the array, as the
  standard library and alloy document it; \<open>codec_prims_ok\<close> only has that other widths fail.
\<close>

locale codec_prims_total = codec_prims_ok P for P :: "('bc, 'jt, 'chain, 'wd, 'rq) codec_prims" +
  assumes address_total: "length bs = 20 \<Longrightarrow> \<exists>a. address_try_from P bs = Inr a"
    and b256_total: "length bs = 32 \<Longrightarrow> \<exists>a. b256_try_from P bs = Inr a"
    and b64_total: "length bs = 8 \<Longrightarrow> \<exists>a. b64_try_from P bs = Inr a"
    and bloom_total: "length bs = 256 \<Longrightarrow> \<exists>a. bloom_try_from P bs = Inr a"

interpretation std_total: codec_prims_total std_prims
  by unfold_locales (simp_all add: std_prims_def word_from_le_def)

abbreviation fits_u256 :: "('bc, 'jt, 'chain, 'wd, 'rq) codec_prims \<Rightarrow> bytes \<Rightarrow> bool" where
  "fits_u256 P bs \<equiv> u256_try_from_le P bs \<noteq> None"

lemma succeeds_u256 [succeeds]: "succeeds (decode_u256 P e bs) \<longleftrightarrow> fits_u256 P bs"
  by (simp add: decode_u256_def succeeds)

section \<open>Headers and transactions\<close>

definition typed_header :: "('bc, 'jt, 'chain, 'wd, 'rq) codec_prims \<Rightarrow> p_header \<Rightarrow> bool" where
  "typed_header P h \<longleftrightarrow>
     length (ph_parent_hash h) = 32 \<and> length (ph_ommers_hash h) = 32 \<and> length (ph_beneficiary h) = 20 \<and>
     length (ph_state_root h) = 32 \<and> length (ph_transactions_root h) = 32 \<and> length (ph_receipts_root h) = 32 \<and>
     pred_option (\<lambda>bs. length bs = 32) (ph_withdrawals_root h) \<and> length (ph_logs_bloom h) = 256 \<and>
     fits_u256 P (ph_difficulty h) \<and> length (ph_mix_hash h) = 32 \<and> length (ph_nonce h) = 8 \<and>
     pred_option (\<lambda>bs. length bs = 32) (ph_parent_beacon_block_root h)"

text \<open>A recipient is there, and either a creation or an address.\<close>

definition typed_to :: "p_tx_kind option \<Rightarrow> bool" where
  "typed_to to \<longleftrightarrow>
     (case to of
        None \<Rightarrow> False
      | Some k \<Rightarrow> (case pk_kind k of None \<Rightarrow> False | Some PCreate \<Rightarrow> True | Some (PCall address) \<Rightarrow> length address = 20))"

definition typed_access_list :: "p_access_list_item list \<Rightarrow> bool" where
  "typed_access_list = list_all (\<lambda>item. length (pa_address item) = 20 \<and> list_all (\<lambda>k. length k = 32) (pa_storage_keys item))"

text \<open>The parity of an authorization may be anything.\<close>

definition typed_authorization :: "('bc, 'jt, 'chain, 'wd, 'rq) codec_prims \<Rightarrow> p_authorization_list_item \<Rightarrow> bool" where
  "typed_authorization P item \<longleftrightarrow>
     (case (pi_signature item, pi_authorization item) of
        (Some sg, Some authorization) \<Rightarrow>
          fits_u256 P (ps_r sg) \<and> fits_u256 P (ps_s sg) \<and> length (pz_chain_id authorization) = 32 \<and>
          length (pz_address authorization) = 20
      | _ \<Rightarrow> False)"

fun typed_tx :: "('bc, 'jt, 'chain, 'wd, 'rq) codec_prims \<Rightarrow> p_transaction_oneof \<Rightarrow> bool" where
  "typed_tx P (PLegacy t) \<longleftrightarrow> length (pl_gas_price t) = 16 \<and> length (pl_gas_limit t) = 8 \<and> typed_to (pl_to t) \<and>
     fits_u256 P (pl_value t)"
| "typed_tx P (PEip2930 t) \<longleftrightarrow> length (pta_gas_price t) = 16 \<and> length (pta_gas_limit t) = 8 \<and> typed_to (pta_to t) \<and>
     fits_u256 P (pta_value t) \<and> typed_access_list (pta_access_list t)"
| "typed_tx P (PEip1559 t) \<longleftrightarrow> length (ptf_gas_limit t) = 8 \<and> length (ptf_max_fee_per_gas t) = 16 \<and>
     length (ptf_max_priority_fee_per_gas t) = 16 \<and> typed_to (ptf_to t) \<and> fits_u256 P (ptf_value t) \<and>
     typed_access_list (ptf_access_list t)"
| "typed_tx P (PEip4844 t) \<longleftrightarrow> length (ptb_gas_limit t) = 8 \<and> length (ptb_max_fee_per_gas t) = 16 \<and>
     length (ptb_max_priority_fee_per_gas t) = 16 \<and> length (ptb_to t) = 20 \<and> fits_u256 P (ptb_value t) \<and>
     typed_access_list (ptb_access_list t) \<and> list_all (\<lambda>h. length h = 32) (ptb_blob_versioned_hashes t) \<and>
     length (ptb_max_fee_per_blob_gas t) = 16"
| "typed_tx P (PEip7702 t) \<longleftrightarrow> length (pts_gas_limit t) = 8 \<and> length (pts_max_fee_per_gas t) = 16 \<and>
     length (pts_max_priority_fee_per_gas t) = 16 \<and> length (pts_to t) = 20 \<and> fits_u256 P (pts_value t) \<and>
     typed_access_list (pts_access_list t) \<and> list_all (typed_authorization P) (pts_authorization_list t)"

text \<open>A hash, a signature with parity 0 or 1 and numbers that fit, and one of the five transactions.\<close>

definition typed_transaction :: "('bc, 'jt, 'chain, 'wd, 'rq) codec_prims \<Rightarrow> p_transaction \<Rightarrow> bool" where
  "typed_transaction P m \<longleftrightarrow>
     (case (pt_signature m, pt_transaction m) of
        (Some sg, Some t) \<Rightarrow> length (pt_hash m) = 32 \<and> ps_y_parity sg \<le> 1 \<and> fits_u256 P (ps_r sg) \<and>
          fits_u256 P (ps_s sg) \<and> typed_tx P t
      | _ \<Rightarrow> False)"

section \<open>Accounts and their reverts\<close>

text \<open>The parts of an analyzed bytecode are those that revm accepts.\<close>

definition typed_bytecode :: "('bc, 'jt, 'chain, 'wd, 'rq) codec_prims \<Rightarrow> p_bytecode \<Rightarrow> bool" where
  "typed_bytecode P bytecode \<longleftrightarrow>
     (case pb_bytecode bytecode of
        None \<Rightarrow> False
      | Some (PLegacyAnalyzed l) \<Rightarrow>
          (case jt_from_slice P (py_jump_table l) (py_jump_table_len l) of
             Inl _ \<Rightarrow> False | Inr jt \<Rightarrow> succeeds (bc_new_analyzed P (py_bytecode l) (py_original_len l) jt))
      | Some (PEip7702Bytecode e) \<Rightarrow> length (pe_delegated_address e) = 20)"

definition typed_account_info :: "('bc, 'jt, 'chain, 'wd, 'rq) codec_prims \<Rightarrow> p_account_info \<Rightarrow> bool" where
  "typed_account_info P i \<longleftrightarrow> fits_u256 P (pn_balance i) \<and> length (pn_code_hash i) = 32 \<and> pred_option (typed_bytecode P) (pn_code i)"

definition typed_status :: "i32 \<Rightarrow> bool" where
  "typed_status n \<longleftrightarrow> n \<in> {0, 1, 2, 3, 4, 5, 6, 7}"

definition typed_storage_slot :: "('bc, 'jt, 'chain, 'wd, 'rq) codec_prims \<Rightarrow> p_storage_slot \<Rightarrow> bool" where
  "typed_storage_slot P slot \<longleftrightarrow> fits_u256 P (pst_key slot) \<and> fits_u256 P (pst_previous_or_original_value slot) \<and>
     fits_u256 P (pst_present_value slot)"

definition typed_bundle_account :: "('bc, 'jt, 'chain, 'wd, 'rq) codec_prims \<Rightarrow> p_bundle_account \<Rightarrow> bool" where
  "typed_bundle_account P account \<longleftrightarrow> length (pba_address account) = 20 \<and>
     pred_option (typed_account_info P) (pba_info account) \<and> pred_option (typed_account_info P) (pba_original_info account) \<and>
     list_all (typed_storage_slot P) (pba_storage account) \<and> typed_status (pba_status account)"

definition typed_revert_slot :: "('bc, 'jt, 'chain, 'wd, 'rq) codec_prims \<Rightarrow> p_revert_to_slot \<Rightarrow> bool" where
  "typed_revert_slot P slot \<longleftrightarrow> fits_u256 P (prs_key slot) \<and>
     (case prs_revert slot of None \<Rightarrow> False | Some PDestroyed \<Rightarrow> True | Some (PSome v) \<Rightarrow> fits_u256 P v)"

definition typed_revert :: "('bc, 'jt, 'chain, 'wd, 'rq) codec_prims \<Rightarrow> p_revert \<Rightarrow> bool" where
  "typed_revert P revert \<longleftrightarrow> length (pr_address revert) = 20 \<and>
     (case pr_account revert of
        None \<Rightarrow> False
      | Some account \<Rightarrow>
          (case pir_revert account of None \<Rightarrow> False | Some (PRevertTo i) \<Rightarrow> typed_account_info P i | Some _ \<Rightarrow> True)) \<and>
     list_all (typed_revert_slot P) (pr_storage revert) \<and> typed_status (pr_previous_status revert)"

section \<open>Receipts, blocks, chains and notifications\<close>

definition typed_log :: "p_log \<Rightarrow> bool" where
  "typed_log l \<longleftrightarrow> length (pg_address l) = 20 \<and>
     (case pg_log_data l of None \<Rightarrow> False | Some d \<Rightarrow> list_all (\<lambda>t. length t = 32) (pd_topics d))"

text \<open>A receipt is not the empty one, and its type is one of the five.\<close>

definition typed_receipt :: "p_receipt \<Rightarrow> bool" where
  "typed_receipt receipt \<longleftrightarrow>
     (case prc_receipt receipt of
        Some (PNonEmpty r) \<Rightarrow> pne_tx_type r \<in> {0, 1, 2, 3, 4} \<and> list_all typed_log (pne_logs r)
      | _ \<Rightarrow> False)"

definition typed_block :: "('bc, 'jt, 'chain, 'wd, 'rq) codec_prims \<Rightarrow> p_block \<Rightarrow> bool" where
  "typed_block P block \<longleftrightarrow>
     (case pbl_header block of
        None \<Rightarrow> False
      | Some sealed \<Rightarrow> length (psh_hash sealed) = 32 \<and> (case psh_header sealed of None \<Rightarrow> False | Some h \<Rightarrow> typed_header P h)) \<and>
     list_all (typed_transaction P) (pbl_body block) \<and> list_all (typed_header P) (pbl_ommers block) \<and>
     list_all (\<lambda>a. length a = 20) (pbl_senders block)"

definition typed_contract :: "('bc, 'jt, 'chain, 'wd, 'rq) codec_prims \<Rightarrow> p_contract_bytecode \<Rightarrow> bool" where
  "typed_contract P contract \<longleftrightarrow> length (pc_hash contract) = 32 \<and>
     (case pc_bytecode contract of None \<Rightarrow> False | Some b \<Rightarrow> typed_bytecode P b)"

definition typed_bundle_state :: "('bc, 'jt, 'chain, 'wd, 'rq) codec_prims \<Rightarrow> p_bundle_state \<Rightarrow> bool" where
  "typed_bundle_state P b \<longleftrightarrow> list_all (typed_bundle_account P) (pbs_state b) \<and> list_all (typed_contract P) (pbs_contracts b) \<and>
     list_all (list_all (typed_revert P)) (pbs_reverts b)"

definition typed_chain :: "('bc, 'jt, 'chain, 'wd, 'rq) codec_prims \<Rightarrow> p_chain \<Rightarrow> bool" where
  "typed_chain P chain \<longleftrightarrow>
     list_all (typed_block P) (pch_blocks chain) \<and>
     (case pch_execution_outcome chain of
        None \<Rightarrow> False
      | Some outcome \<Rightarrow> (case peo_bundle outcome of None \<Rightarrow> False | Some b \<Rightarrow> typed_bundle_state P b) \<and>
          list_all (list_all typed_receipt) (peo_receipts outcome))"

text \<open>The chains of a notification: the new one, both, or the old one.\<close>

definition typed_notification :: "('bc, 'jt, 'chain, 'wd, 'rq) codec_prims \<Rightarrow> p_notification \<Rightarrow> bool" where
  "typed_notification P n \<longleftrightarrow>
     (case pno_notification n of
        Some (PChainCommitted (Some new)) \<Rightarrow> typed_chain P new
      | Some (PChainReorged (Some old) (Some new)) \<Rightarrow> typed_chain P old \<and> typed_chain P new
      | Some (PChainReverted (Some old)) \<Rightarrow> typed_chain P old
      | _ \<Rightarrow> False)"

section \<open>The decoders accept what is typed\<close>

context codec_prims_total
begin

lemma succeeds_arrays [succeeds]:
  "succeeds (address_try_from P bs) \<longleftrightarrow> length bs = 20"
  "succeeds (b256_try_from P bs) \<longleftrightarrow> length bs = 32"
  "succeeds (b64_try_from P bs) \<longleftrightarrow> length bs = 8"
  "succeeds (bloom_try_from P bs) \<longleftrightarrow> length bs = 256"
proof -
  show "succeeds (address_try_from P bs) \<longleftrightarrow> length bs = 20"
    using address_total addr.width [of bs] by (fastforce simp: succeeds_iff)
  show "succeeds (b256_try_from P bs) \<longleftrightarrow> length bs = 32"
    using b256_total h256.width [of bs] by (fastforce simp: succeeds_iff)
  show "succeeds (b64_try_from P bs) \<longleftrightarrow> length bs = 8"
    using b64_total h64.width [of bs] by (fastforce simp: succeeds_iff)
  show "succeeds (bloom_try_from P bs) \<longleftrightarrow> length bs = 256"
    using bloom_total blm.width [of bs] by (fastforce simp: succeeds_iff)
qed

lemma succeeds_header [succeeds]: "succeeds (decode_header P h) \<longleftrightarrow> typed_header P h"
  by (simp add: decode_header_def typed_header_def succeeds)

lemma succeeds_to [succeeds]: "succeeds (decode_to P to) \<longleftrightarrow> typed_to to"
  by (auto simp: decode_to_def decode_tx_kind_def typed_to_def succeeds split: option.split p_kind.split)

lemma succeeds_access_list [succeeds]:
  "list_all (\<lambda>item. succeeds (decode_access_list_item P item)) items \<longleftrightarrow> typed_access_list items"
  by (simp add: decode_access_list_item_def typed_access_list_def succeeds)

lemma succeeds_authorization [succeeds]: "succeeds (decode_authorization P item) \<longleftrightarrow> typed_authorization P item"
  by (auto simp: decode_authorization_def typed_authorization_def succeeds Let_def split: option.split)

lemma succeeds_tx [succeeds]:
  "succeeds (decode_tx_legacy P t1) \<longleftrightarrow> typed_tx P (PLegacy t1)"
  "succeeds (decode_tx_eip2930 P t2) \<longleftrightarrow> typed_tx P (PEip2930 t2)"
  "succeeds (decode_tx_eip1559 P t3) \<longleftrightarrow> typed_tx P (PEip1559 t3)"
  "succeeds (decode_tx_eip4844 P t4) \<longleftrightarrow> typed_tx P (PEip4844 t4)"
  "succeeds (decode_tx_eip7702 P t5) \<longleftrightarrow> typed_tx P (PEip7702 t5)"
  by (simp_all add: decode_tx_legacy_def decode_tx_eip2930_def decode_tx_eip1559_def decode_tx_eip4844_def
      decode_tx_eip7702_def succeeds)

lemma succeeds_transaction [succeeds]: "succeeds (decode_transaction P m) \<longleftrightarrow> typed_transaction P m"
  by (auto simp: decode_transaction_def typed_transaction_def succeeds Let_def not_less simp del: typed_tx.simps
      split: option.split p_transaction_oneof.split)

lemma succeeds_bytecode [succeeds]: "succeeds (decode_bytecode P b) \<longleftrightarrow> typed_bytecode P b"
proof -
  have "succeeds (and_then m f) \<longleftrightarrow> (case m of Inl _ \<Rightarrow> False | Inr x \<Rightarrow> succeeds (f x))" for m :: "err + 'c" and f :: "'c \<Rightarrow> err + 'd"
    by (cases m) (simp_all add: succeeds)
  then show ?thesis
    by (auto simp: decode_bytecode_def typed_bytecode_def succeeds split: option.split p_bytecode_oneof.split sum.split)
qed

lemma succeeds_account_info [succeeds]: "succeeds (decode_account_info P i) \<longleftrightarrow> typed_account_info P i"
  by (simp add: decode_account_info_def typed_account_info_def succeeds)

lemma succeeds_status [succeeds]: "succeeds (status_from_i32 n) \<longleftrightarrow> typed_status n"
  by (simp add: status_from_i32_def typed_status_def succeeds)

lemma succeeds_storage_slot [succeeds]: "succeeds (decode_storage_slot P slot) \<longleftrightarrow> typed_storage_slot P slot"
  by (simp add: decode_storage_slot_def typed_storage_slot_def succeeds)

lemma succeeds_bundle_account [succeeds]: "succeeds (decode_bundle_account P a) \<longleftrightarrow> typed_bundle_account P a"
  by (simp add: decode_bundle_account_def typed_bundle_account_def succeeds)

lemma succeeds_revert_slot [succeeds]: "succeeds (decode_revert_slot P slot) \<longleftrightarrow> typed_revert_slot P slot"
  by (auto simp: decode_revert_slot_def typed_revert_slot_def succeeds split: option.split p_slot_revert_oneof.split)

lemma succeeds_revert [succeeds]: "succeeds (decode_revert P r) \<longleftrightarrow> typed_revert P r"
  by (auto simp: decode_revert_def typed_revert_def succeeds split: option.split p_account_revert_oneof.split)

lemma succeeds_log [succeeds]: "succeeds (decode_log P l) \<longleftrightarrow> typed_log l"
  by (auto simp: decode_log_def typed_log_def succeeds split: option.split)

lemma succeeds_receipt [succeeds]: "succeeds (decode_receipt P r) \<longleftrightarrow> typed_receipt r"
  by (auto simp: decode_receipt_def typed_receipt_def decode_non_empty_receipt_def tx_type_from_i32_def
      succeeds split: option.split p_receipt_oneof.split)

lemma succeeds_block [succeeds]: "succeeds (decode_block P b) \<longleftrightarrow> typed_block P b"
  by (auto simp: decode_block_def typed_block_def succeeds split: option.split)

lemma succeeds_contract [succeeds]: "succeeds (decode_contract P c) \<longleftrightarrow> typed_contract P c"
  by (auto simp: decode_contract_def typed_contract_def succeeds split: option.split)

lemma succeeds_bundle_state [succeeds]: "succeeds (decode_bundle_state P b) \<longleftrightarrow> typed_bundle_state P b"
  by (simp add: decode_bundle_state_def typed_bundle_state_def succeeds)

lemma succeeds_chain [succeeds]: "succeeds (decode_chain P c) \<longleftrightarrow> typed_chain P c"
  by (auto simp: decode_chain_def typed_chain_def succeeds split: option.split)

lemma succeeds_notification: "succeeds (decode_notification P n) \<longleftrightarrow> typed_notification P n"
  by (auto simp: decode_notification_def typed_notification_def succeeds split: option.split p_notification_oneof.split)

end

section \<open>Property\<close>

text \<open>
  Property C31. Exactly which transaction messages decode: those with a hash of 32 bytes, a signature
  whose parity is 0 or 1 and whose numbers fit, and one of the five transactions with all of its
  fields in order (fees of 16 bytes, gas limits of 8, a recipient that is there and is a creation
  or an address of 20 bytes, a value that fits, access lists and blob hashes of their widths, and
  complete authorizations). Every other message is an error. The signature of the result is that
  of the message.
\<close>

theorem decode_transaction_accepts:
  assumes "codec_prims_total P"
  shows "case decode_transaction P m of
      Inl _ \<Rightarrow> \<not> typed_transaction P m
    | Inr t \<Rightarrow> typed_transaction P m \<and> b256_try_from P (pt_hash m) = Inr (tr_hash t) \<and>
        (\<exists>sg. pt_signature m = Some sg \<and> u256_try_from_le P (ps_r sg) = Some (sg_r (tr_signature t)) \<and>
           u256_try_from_le P (ps_s sg) = Some (sg_s (tr_signature t)) \<and> sg_v (tr_signature t) = (ps_y_parity sg = 1))"
proof (cases "decode_transaction P m")
  case (Inl e)
  with codec_prims_total.succeeds_transaction [OF assms, of m] show ?thesis by (simp add: succeeds)
next
  case (Inr t)
  with codec_prims_total.succeeds_transaction [OF assms, of m] have "typed_transaction P m" by (simp add: succeeds)
  with Inr show ?thesis
    by (auto simp: decode_transaction_def decode_u256_def and_then_Inr_iff Let_def split: if_splits)
qed

text \<open>An encoded transaction is accepted; without its signature, or with a short hash, it is not.\<close>

theorem decode_transaction_accepts_witness:
  "\<exists>m. encode_transaction std_prims (demo_tx 1) = Inr m \<and> typed_transaction std_prims m \<and>
    \<not> succeeds (decode_transaction std_prims (m\<lparr>pt_signature := None\<rparr>)) \<and>
    \<not> succeeds (decode_transaction std_prims (m\<lparr>pt_hash := []\<rparr>))"
proof -
  obtain m where m: "encode_transaction std_prims (demo_tx 1) = Inr m" "decode_transaction std_prims m = Inr (demo_tx 1)"
    using std.transaction_travels by (rule travelsE)
  note accepts = decode_transaction_accepts [OF std_total.codec_prims_total_axioms]
  have no: "\<not> succeeds (decode_transaction std_prims m')" if "\<not> typed_transaction std_prims m'" for m'
    using accepts [of m'] that by (auto simp: succeeds split: sum.splits)
  have "\<not> typed_transaction std_prims (m\<lparr>pt_signature := None\<rparr>)" "\<not> typed_transaction std_prims (m\<lparr>pt_hash := []\<rparr>)"
    by (simp_all add: typed_transaction_def split: option.split)
  with no accepts [of m] m show ?thesis by auto
qed

end
