(* ===== verification/Codec_Received.thy ===== *)
theory Codec_Received
  imports Codec_Accept
begin

text \<open>
  What the decoders produce, whoever sent the message: the values a consumer can rely on without
  looking at the sender, and, with \<open>Codec_Accept\<close>, from which messages. Every chain of a decoded notification is well formed (one entry per key
  in its hash maps, blocks by ascending number) and has the defaults of what does not travel, so it
  is a fixed point of encoding and decoding.
\<close>

section \<open>The parts\<close>

text \<open>Nothing is lost when the value is sent on.\<close>

definition settled_block :: "'wd recovered_block \<Rightarrow> bool" where
  "settled_block b \<longleftrightarrow> sent_block b = b"

definition settled_outcome :: "('bc, 'rq) execution_outcome \<Rightarrow> bool" where
  "settled_outcome ou \<longleftrightarrow> bundle_ok (eo_bundle ou) \<and> sent_outcome ou = ou"

lemma keyed_collect_map [simp]: "keyed (collect_map kvs)"
  by (simp add: keyed_def distinct_collect_map)

text \<open>The elements of a collected hash map are among the collected pairs.\<close>

lemma set_collect_map: "set (collect_map kvs) \<subseteq> set kvs"
proof -
  have "set (fold (\<lambda>(k, v). AList.update k v) kvs al) \<subseteq> set al \<union> set kvs" for al :: "('a \<times> 'b) list"
  proof (induction kvs arbitrary: al)
    case (Cons kv kvs)
    have "set (AList.update k v al) \<subseteq> insert (k, v) (set al)" for k v by (induction al) auto
    with Cons[of "AList.update (fst kv) (snd kv) al"] show ?case by (cases kv) fastforce
  qed simp
  from this[of "[]"] show ?thesis by (simp add: collect_map_def)
qed

lemma try_collect_all:
  assumes "try_collect f xs = Inr ys" "\<And>x y. f x = Inr y \<Longrightarrow> Q y"
  shows "\<forall>y \<in> set ys. Q y"
  using assms(1) by (induction xs arbitrary: ys) (auto simp: and_then_Inr_iff intro: assms(2))

lemma opt_try_fixed:
  assumes "opt_try f ox = Inr oy" "\<And>x y. f x = Inr y \<Longrightarrow> g y = y"
  shows "map_option g oy = oy"
  using assms by (cases ox) (auto simp: and_then_Inr_iff)

lemma decoded_header: "decode_header P m = Inr h \<Longrightarrow> sent_header h = h"
  by (auto simp: decode_header_def sent_header_def and_then_Inr_iff)

lemma decoded_info: "decode_account_info P m = Inr i \<Longrightarrow> sent_info i = i"
  by (auto simp: decode_account_info_def sent_info_def and_then_Inr_iff)

lemma decoded_account: "decode_bundle_account P m = Inr (a, acc) \<Longrightarrow> keyed (ba_storage acc) \<and> sent_account acc = acc"
  by (auto simp: decode_bundle_account_def sent_account_def and_then_Inr_iff dest: opt_try_fixed [OF _ decoded_info])

lemma decoded_revert: "decode_revert P m = Inr (a, r) \<Longrightarrow> keyed (ar_storage r) \<and> sent_revert r = r"
  by (cases "pr_account m"; cases "pir_revert (the (pr_account m))"; cases "the (pir_revert (the (pr_account m)))")
    (auto simp: decode_revert_def sent_revert_def and_then_Inr_iff dest: decoded_info)

lemma decoded_block: "decode_block P m = Inr b \<Longrightarrow> settled_block b"
  by (auto simp: decode_block_def settled_block_def sent_block_def and_then_Inr_iff decoded_header
      intro!: map_idI dest!: try_collect_all [where Q = "\<lambda>h. sent_header h = h" and f = "decode_header P", OF _ decoded_header])

lemma decoded_bundle:
  assumes "decode_bundle_state P m = Inr b"
  shows "bundle_ok b \<and> sent_bundle b = b"
proof -
  from assms obtain st cs rv where b: "b = \<lparr>bs_state = collect_map st, bs_contracts = collect_map cs,
      bs_reverts = rv, bs_state_size = pbs_state_size m, bs_reverts_size = pbs_reverts_size m\<rparr>"
    and st: "try_collect (decode_bundle_account P) (pbs_state m) = Inr st"
    and rv: "try_collect (try_collect (decode_revert P)) (pbs_reverts m) = Inr rv"
    by (auto simp: decode_bundle_state_def and_then_Inr_iff)
  let ?A = "\<lambda>(a, acc). keyed (ba_storage acc) \<and> sent_account acc = acc"
  let ?R = "\<lambda>(a, r). keyed (ar_storage r) \<and> sent_revert r = r"
  have "\<forall>e \<in> set st. ?A e"
    by (rule try_collect_all [OF st]) (use decoded_account in blast)
  then have A: "\<forall>e \<in> set (collect_map st). ?A e" using set_collect_map [of st] by blast
  have rs: "\<forall>e \<in> set rs. ?R e" if "try_collect (decode_revert P) ms = Inr rs" for ms rs
    by (rule try_collect_all [OF that]) (use decoded_revert in blast)
  have R: "\<forall>rs \<in> set rv. \<forall>e \<in> set rs. ?R e"
    by (rule try_collect_all [OF rv]) (rule rs)
  have "map (map_prod id sent_account) (collect_map st) = collect_map st"
    using A by (auto intro!: map_idI)
  moreover have "map (map (map_prod id sent_revert)) rv = rv"
    using R by (fastforce intro!: map_idI)
  ultimately show ?thesis using A R by (auto simp: b bundle_ok_def sent_bundle_def)
qed

context codec_prims_ok
begin

lemma decoded_chain:
  assumes "decode_chain P m = Inr c"
  shows "(\<forall>b \<in> set (chain_blocks P c). settled_block b) \<and> settled_outcome (chain_outcome P c)"
proof -
  from assms obtain mo mb bs bu rs where "pch_execution_outcome m = Some mo" "peo_bundle mo = Some mb"
    and bs: "try_collect (decode_block P) (pch_blocks m) = Inr bs"
    and bu: "decode_bundle_state P mb = Inr bu"
    and "try_collect (try_collect (decode_receipt P)) (peo_receipts mo) = Inr rs"
    and c: "chain_new P bs \<lparr>eo_bundle = bu, eo_receipts = rs, eo_first_block = peo_first_block mo, eo_requests = []\<rparr> = c"
    by (auto simp: decode_chain_def and_then_Inr_iff)
  have "\<forall>b \<in> set bs. settled_block b"
    by (rule try_collect_all [OF bs]) (rule decoded_block)
  with chain_new_subset bu show ?thesis
    by (auto simp: c [symmetric] chain_new_outcome settled_outcome_def sent_outcome_def dest: decoded_bundle)
qed

end

section \<open>Notifications\<close>

lemma decoded_notification_chains:
  assumes "codec_prims_ok P" "decode_notification P m = Inr n" "c \<in> set_exex_notification n"
  shows "\<exists>mc. decode_chain P mc = Inr c"
  using assms(2,3)
  by (cases "pno_notification m"; cases "the (pno_notification m)")
    (auto simp: decode_notification_def and_then_Inr_iff)

lemma decoded_notification_settled:
  assumes "codec_prims_ok P" "decode_notification P m = Inr n"
  shows "\<forall>c \<in> set_exex_notification n. ascending (chain_blocks P c) \<and>
    (\<forall>b \<in> set (chain_blocks P c). settled_block b) \<and> settled_outcome (chain_outcome P c)"
  using decoded_notification_chains [OF assms] codec_prims_ok.decoded_chain [OF assms(1)]
    codec_prims_ok.chain_ascending [OF assms(1)] by blast

lemma decoded_notification_again:
  assumes "codec_prims_ok P" "decode_notification P m = Inr n"
  shows "\<exists>m' n'. encode_notification P n = Inr m' \<and> decode_notification P m' = Inr n' \<and>
    rel_exex_notification (\<lambda>c c'. chain_blocks P c' = chain_blocks P c \<and> chain_outcome P c' = chain_outcome P c) n n'"
proof -
  note settled = decoded_notification_settled [OF assms]
  then obtain n' where n': "travels (encode_notification P) (decode_notification P) n n'"
    "rel_exex_notification (same_chain P) n n'"
    using notification_travels [OF assms(1), of n] by (auto simp: settled_outcome_def)
  have "rel_exex_notification (\<lambda>c c'. chain_blocks P c' = chain_blocks P c \<and> chain_outcome P c' = chain_outcome P c) n n'"
    using n'(2) by (rule exex_notification.rel_mono_strong)
      (use settled in \<open>auto simp: same_chain_def settled_block_def settled_outcome_def intro!: map_idI\<close>)
  with n'(1) show ?thesis by (auto elim: travelsE)
qed

section \<open>Property\<close>

text \<open>
  Property C24. The types of the messages and of what they decode to. A notification message decodes
  exactly when it is well typed: its chains are there, with outcome and bundle; every header,
  transaction, account, revert, log and sender has its fields in their widths and its numbers
  fitting; no receipt is the empty one; every status and transaction type is a known number.
  Every chain of the result has its blocks by ascending number, hash maps with one entry per
  key, and the defaults in the fields that do not travel (no requests hash, withdrawals, account
  ids, requests); so encoding it succeeds, and decoding that gives a notification of the same kind
  with exactly the same blocks and outcomes.
\<close>

theorem decoded_notification_typed:
  assumes "codec_prims_total P"
  shows "case decode_notification P m of
      Inl _ \<Rightarrow> \<not> typed_notification P m
    | Inr n \<Rightarrow> typed_notification P m \<and>
        (\<forall>c \<in> set_exex_notification n. ascending (chain_blocks P c) \<and>
          (\<forall>b \<in> set (chain_blocks P c). settled_block b) \<and> settled_outcome (chain_outcome P c)) \<and>
        (\<exists>m' n'. encode_notification P n = Inr m' \<and> decode_notification P m' = Inr n' \<and>
          rel_exex_notification (\<lambda>c c'. chain_blocks P c' = chain_blocks P c \<and> chain_outcome P c' = chain_outcome P c) n n')"
proof -
  have ok: "codec_prims_ok P" using assms by (rule codec_prims_total.axioms(1))
  note typed = codec_prims_total.succeeds_notification [OF assms, of m]
  show ?thesis
  proof (cases "decode_notification P m")
    case (Inl e)
    with typed show ?thesis by (simp add: succeeds)
  next
    case (Inr n)
    with typed decoded_notification_settled [OF ok Inr] decoded_notification_again [OF ok Inr]
    show ?thesis by (simp add: succeeds)
  qed
qed

text \<open>A message that was sent is typed, and decodes to something else than was sent.\<close>

theorem decoded_notification_typed_witness:
  "\<exists>m n m'. encode_notification std_prims demo_notification = Inr m \<and> decode_notification std_prims m = Inr n \<and>
     typed_notification std_prims m \<and> n \<noteq> demo_notification \<and> encode_notification std_prims n = Inr m'"
proof -
  obtain m n where m: "encode_notification std_prims demo_notification = Inr m" "decode_notification std_prims m = Inr n"
    using notification_travels [OF std.codec_prims_ok_axioms demo_notification_ok] by (auto elim: travelsE)
  from decoded_notification_typed [OF std_total.codec_prims_total_axioms, of m] m(2) have
    typed: "typed_notification std_prims m" "\<forall>c \<in> set_exex_notification n. settled_outcome (chain_outcome std_prims c)"
    and m': "\<exists>m'. encode_notification std_prims n = Inr m'" by auto
  have "\<not> settled_outcome demo_outcome"
    by (simp add: settled_outcome_def demo_outcome_def sent_outcome_def)
  with typed have "n \<noteq> demo_notification" by (auto simp: demo_notification_def std_prims_def)
  with m m' typed show ?thesis by blast
qed

end
