(* ===== verification/Small_Exex.thy ===== *)
theory Small_Exex
  imports Exex_Types
begin

text \<open>
  The execution extensions whose whole state is the event channel or one value: the minimal ExEx
  (minimal/src/main.rs), and the ExEx that keeps the execution outcome of the chain in memory
  (in-memory-state/src/main.rs), which the oracle's ExEx (oracle/src/exex.rs) repeats. Reth's
  \<open>ExecutionOutcome\<close> is a parameter; block numbers are 64-bit words, and the subtraction wraps as
  it does in a release build.
\<close>

section \<open>Reporting a committed chain\<close>

text \<open>\<open>if let Some(committed_chain) = notification.committed_chain() { .. send(FinishedHeight(..))? }\<close>\<close>

definition report_committed :: "('c, 'h, 'z) exex_api_scheme \<Rightarrow> 'c exex_notification \<Rightarrow> 'h events \<Rightarrow> err + 'h events" where
  "report_committed A notification ev =
     (case committed_chain A notification of
        None \<Rightarrow> Inr ev
      | Some chain \<Rightarrow> send_event (tip_num_hash A chain) ev)"

lemma report_committed_Inr:
  "report_committed A n ev = Inr ev' \<Longrightarrow>
     ev' = ev\<lparr>finished_heights := finished_heights ev @ owed_heights A n\<rparr>"
  by (auto simp: report_committed_def owed_heights_def res split: option.splits)

lemma report_committed_open:
  "\<not> receiver_gone ev \<Longrightarrow>
     report_committed A n ev = Inr (ev\<lparr>finished_heights := finished_heights ev @ owed_heights A n\<rparr>)"
  by (auto simp: report_committed_def owed_heights_def send_event_def split: option.splits)

lemma report_committed_Inl:
  "report_committed A n ev = Inl e \<longleftrightarrow>
     receiver_gone ev \<and> owed_heights A n \<noteq> [] \<and> e = External ''channel closed''"
  by (auto simp: report_committed_def owed_heights_def send_event_def split: option.splits)

definition minimal_step :: "('c, 'h) exex_api \<Rightarrow> 'c exex_notification \<Rightarrow> 'h events \<Rightarrow> (err + unit) \<times> 'h events" where
  "minimal_step A notification ev =
     (case report_committed A notification ev of Inl e \<Rightarrow> (Inl e, ev) | Inr ev \<Rightarrow> (Inr (), ev))"

text \<open>The future of \<open>exex\<close> in minimal/src/main.rs, over the stream of notifications.\<close>

definition minimal_exex ::
  "('c, 'h) exex_api \<Rightarrow> (err + 'c exex_notification) list \<Rightarrow> 'h events \<Rightarrow> (err + unit) \<times> 'h events" where
  "minimal_exex A = run_exex (minimal_step A)"

interpretation minimal: exex_handler A "minimal_step A" finished_heights for A
  by unfold_locales
    (auto simp: minimal_step_def dest: report_committed_Inr split: sum.splits)

section \<open>The execution outcome in memory\<close>

text \<open>
  \<open>chain.first().number()\<close>, \<open>chain.execution_outcome()\<close>, \<open>extend\<close> and \<open>revert_to\<close> of reth, which
  returns whether the block was found. The code ignores that.
\<close>

record ('c, 'h, 'o) state_api = "('c, 'h) exex_api" +
  first_number :: "'c \<Rightarrow> u64"
  outcome_of :: "'c \<Rightarrow> 'o"
  extend_outcome :: "'o \<Rightarrow> 'o \<Rightarrow> 'o"
  revert_outcome_to :: "u64 \<Rightarrow> 'o \<Rightarrow> bool \<times> 'o"

record ('o, 'h) state_exex = "'h events" +
  execution_outcome :: 'o

definition new_state_exex :: "'o \<Rightarrow> ('o, 'h) state_exex" where
  "new_state_exex default_outcome =
     \<lparr>finished_heights = [], receiver_gone = False, execution_outcome = default_outcome\<rparr>"

text \<open>The new chain of a reorg, or the old chain of a revert, names the block to revert to.\<close>

definition revert_before :: "('c, 'h, 'o) state_api \<Rightarrow> 'c \<Rightarrow> 'o \<Rightarrow> 'o" where
  "revert_before A chain ou = snd (revert_outcome_to A (first_number A chain - 1) ou)"

fun undo_outcome :: "('c, 'h, 'o) state_api \<Rightarrow> 'c exex_notification \<Rightarrow> 'o \<Rightarrow> 'o" where
  "undo_outcome A (ChainCommitted new) ou = ou"
| "undo_outcome A (ChainReorged old new) ou = revert_before A new ou"
| "undo_outcome A (ChainReverted old) ou = revert_before A old ou"

definition state_step ::
  "('c, 'h, 'o) state_api \<Rightarrow> 'c exex_notification \<Rightarrow> ('o, 'h) state_exex \<Rightarrow> (err + unit) \<times> ('o, 'h) state_exex" where
  "state_step A notification s =
     (let s = s\<lparr>execution_outcome := undo_outcome A notification (execution_outcome s)\<rparr> in
      case committed_chain A notification of
        None \<Rightarrow> (Inr (), s)
      | Some chain \<Rightarrow>
          (let s = s\<lparr>execution_outcome := extend_outcome A (execution_outcome s) (outcome_of A chain)\<rparr> in
           if receiver_gone s then (Inl (External ''channel closed''), s)
           else (Inr (), s\<lparr>finished_heights := finished_heights s @ [tip_num_hash A chain]\<rparr>)))"

text \<open>
  \<open>InMemoryStateExEx::poll\<close>, over the items of the notification stream that are ready: the future
  is ready once the stream has ended, or failed.
\<close>

definition in_memory_exex ::
  "('c, 'h, 'o) state_api \<Rightarrow> (err + 'c exex_notification) list \<Rightarrow> ('o, 'h) state_exex \<Rightarrow> (err + unit) \<times> ('o, 'h) state_exex" where
  "in_memory_exex A = run_exex (state_step A)"

interpretation in_memory: exex_handler "exex_api.truncate A" "state_step A" finished_heights for A
  by unfold_locales
    (auto simp: state_step_def Let_def owed_heights_def exex_api.defs split: option.splits if_splits)

text \<open>
  Reth's outcome holds the blocks from \<open>first_block\<close> on, \<open>contents\<close> (what each of them did). As
  documented, \<open>extend\<close> appends the blocks of an outcome built on top; \<open>revert_to\<close> drops the blocks
  after the given one, which stays inside, and returns false, changing nothing, for a block that
  is not in the outcome. In particular the blocks before \<open>first_block\<close> are not.
\<close>

locale outcome_history =
  fixes A :: "('c, 'h, 'o) state_api" and first_block :: "'o \<Rightarrow> u64" and contents :: "'o \<Rightarrow> 'x list"
  assumes first_extended: "first_block (extend_outcome A ou ou') = first_block ou"
    and contents_extended: "contents (extend_outcome A ou ou') = contents ou @ contents ou'"
    and revert_inside: "first_block ou \<le> n \<Longrightarrow> unat n < unat (first_block ou) + length (contents ou) \<Longrightarrow>
      \<exists>ou'. revert_outcome_to A n ou = (True, ou') \<and> first_block ou' = first_block ou \<and>
        contents ou' = take (Suc (unat n - unat (first_block ou))) (contents ou)"
    and revert_outside: "n < first_block ou \<or> unat (first_block ou) + length (contents ou) \<le> unat n \<Longrightarrow>
      revert_outcome_to A n ou = (False, ou)"
begin

abbreviation blocks_of :: "'c \<Rightarrow> 'x list" where
  "blocks_of c \<equiv> contents (outcome_of A c)"

text \<open>Reverting to before a chain on the tip keeps what is below it.\<close>

lemma revert_before_tip:
  assumes "contents ou = kept @ blocks" "kept \<noteq> []" "unat (first_number A c) = unat (first_block ou) + length kept"
  shows "contents (revert_before A c ou) = kept" "first_block (revert_before A c ou) = first_block ou"
proof -
  let ?n = "first_number A c - 1"
  have "first_number A c \<noteq> 0" using assms(2,3) by (auto simp: unat_eq_0)
  then have n: "unat ?n = unat (first_block ou) + length kept - 1" using assms(3) by (simp add: unat_minus_one)
  with assms(2) have "first_block ou \<le> ?n" by (cases kept) (simp_all add: word_le_nat_alt)
  moreover have "unat ?n < unat (first_block ou) + length (contents ou)" using n assms(1,2) by (cases kept) simp_all
  ultimately obtain ou' where "revert_outcome_to A ?n ou = (True, ou')" "first_block ou' = first_block ou"
    "contents ou' = take (Suc (unat ?n - unat (first_block ou))) (contents ou)"
    using revert_inside by blast
  moreover have "Suc (unat ?n - unat (first_block ou)) = length kept" using n assms(2) by (cases kept) simp_all
  ultimately show "contents (revert_before A c ou) = kept" "first_block (revert_before A c ou) = first_block ou"
    using assms(1) by (simp_all add: revert_before_def)
qed

text \<open>From the first block on, or below it, nothing is reverted; \<open>0 - 1\<close> is no block either.\<close>

lemma revert_before_first:
  assumes "first_number A c \<le> first_block ou" "unat (first_block ou) + length (contents ou) < 2 ^ 64"
  shows "revert_before A c ou = ou"
proof -
  let ?n = "first_number A c - 1"
  have "?n < first_block ou \<or> unat (first_block ou) + length (contents ou) \<le> unat ?n"
  proof (cases "first_number A c = 0")
    case True
    then have "unat ?n = 2 ^ 64 - 1" by (simp add: unsigned_minus_1_eq_mask mask_eq_exp_minus_1)
    with assms(2) show ?thesis by simp
  next
    case False
    then have "?n < first_number A c" by (simp add: word_less_nat_alt unat_minus_one unat_gt_0)
    then have "?n < first_block ou" using assms(1) by (rule less_le_trans)
    then show ?thesis ..
  qed
  then show ?thesis by (simp add: revert_before_def revert_outside)
qed

end

text \<open>
  The canonical chain, as the blocks from the first one kept: a chain is committed on its tip, and
  what is reverted or reorged is its tip, down to some block after the first.
\<close>

inductive canonical ::
  "('c, 'h, 'o) state_api \<Rightarrow> ('o \<Rightarrow> 'x list) \<Rightarrow> u64 \<Rightarrow> 'x list \<Rightarrow> 'c exex_notification list \<Rightarrow> 'x list \<Rightarrow> bool"
  for A contents first where
  unchanged: "canonical A contents first bs [] bs"
| committed: "unat (first_number A new) = unat first + length bs \<Longrightarrow>
    canonical A contents first (bs @ contents (outcome_of A new)) ns bs' \<Longrightarrow>
    canonical A contents first bs (ChainCommitted new # ns) bs'"
| reorged: "bs = kept @ contents (outcome_of A old) \<Longrightarrow> kept \<noteq> [] \<Longrightarrow> unat (first_number A new) = unat first + length kept \<Longrightarrow>
    first_number A old = first_number A new \<Longrightarrow> canonical A contents first (kept @ contents (outcome_of A new)) ns bs' \<Longrightarrow>
    canonical A contents first bs (ChainReorged old new # ns) bs'"
| reverted: "bs = kept @ contents (outcome_of A old) \<Longrightarrow> kept \<noteq> [] \<Longrightarrow> unat (first_number A old) = unat first + length kept \<Longrightarrow>
    canonical A contents first kept ns bs' \<Longrightarrow>
    canonical A contents first bs (ChainReverted old # ns) bs'"

text \<open>One notification, while somebody receives the events.\<close>

lemma state_step_open:
  assumes "exex_api_ok A" "\<not> receiver_gone s"
  shows "state_step A (ChainCommitted new) s = (Inr (), s\<lparr>
      execution_outcome := extend_outcome A (execution_outcome s) (outcome_of A new),
      finished_heights := finished_heights s @ [tip_num_hash A new]\<rparr>)"
    and "state_step A (ChainReorged old new) s = (Inr (), s\<lparr>
      execution_outcome := extend_outcome A (revert_before A new (execution_outcome s)) (outcome_of A new),
      finished_heights := finished_heights s @ [tip_num_hash A new]\<rparr>)"
    and "state_step A (ChainReverted old) s = (Inr (), s\<lparr>execution_outcome := revert_before A old (execution_outcome s)\<rparr>)"
  using assms by (simp_all add: state_step_def Let_def)

lemma state_exex_fields [simp]:
  fixes s :: "('o, 'h) state_exex"
  shows "receiver_gone (s\<lparr>execution_outcome := ou\<rparr>) = receiver_gone s"
  by (cases s) simp

context outcome_history
begin

lemma follows_canonical:
  assumes "exex_api_ok A" "canonical A contents first bs ns bs'"
    "first_block (execution_outcome s) = first" "contents (execution_outcome s) = bs" "\<not> receiver_gone s"
  shows "\<exists>ou. in_memory_exex A (map Inr ns) s = (Inr (), s\<lparr>execution_outcome := ou,
      finished_heights := finished_heights s @ concat (map (owed_heights A) ns)\<rparr>) \<and>
    contents ou = bs' \<and> first_block ou = first"
  using assms(2-)
proof (induction arbitrary: s rule: canonical.induct)
  case (unchanged bs)
  then show ?case by (intro exI [of _ "execution_outcome s"]) (simp add: in_memory_exex_def)
next
  case (committed new bs ns bs')
  let ?s = "s\<lparr>execution_outcome := extend_outcome A (execution_outcome s) (outcome_of A new),
    finished_heights := finished_heights s @ [tip_num_hash A new]\<rparr>"
  have "first_block (execution_outcome ?s) = first" "contents (execution_outcome ?s) = bs @ blocks_of new" "\<not> receiver_gone ?s"
    using committed.prems by (simp_all add: first_extended contents_extended)
  from committed.IH [OF this] state_step_open(1) [OF assms(1) committed.prems(3), of new] show ?case
    by (auto simp: in_memory_exex_def owed_heights_def assms(1))
next
  case (reorged bs kept old new ns bs')
  let ?s = "s\<lparr>execution_outcome := extend_outcome A (revert_before A new (execution_outcome s)) (outcome_of A new),
    finished_heights := finished_heights s @ [tip_num_hash A new]\<rparr>"
  note tip = revert_before_tip [of "execution_outcome s" kept "blocks_of old" new]
  have "first_block (execution_outcome ?s) = first" "contents (execution_outcome ?s) = kept @ blocks_of new" "\<not> receiver_gone ?s"
    using reorged.prems reorged.hyps tip by (simp_all add: first_extended contents_extended)
  from reorged.IH [OF this] state_step_open(2) [OF assms(1) reorged.prems(3), of old new] show ?case
    by (auto simp: in_memory_exex_def owed_heights_def assms(1))
next
  case (reverted bs kept old ns bs')
  let ?s = "s\<lparr>execution_outcome := revert_before A old (execution_outcome s)\<rparr>"
  note tip = revert_before_tip [of "execution_outcome s" kept "blocks_of old" old]
  have "first_block (execution_outcome ?s) = first" "contents (execution_outcome ?s) = kept" "\<not> receiver_gone ?s"
    using reverted.prems reverted.hyps tip by simp_all
  from reverted.IH [OF this] state_step_open(3) [OF assms(1) reverted.prems(3), of old] show ?case
    by (auto simp: in_memory_exex_def owed_heights_def assms(1))
qed

text \<open>
  An outcome without blocks, whose first block is 0, as the code starts with: a chain that starts
  at a later block \<open>f\<close> takes the positions from 0 on, and reverting it keeps its first \<open>f\<close> blocks.
\<close>

lemma revert_from_default:
  assumes "contents ou = []" "first_block ou = 0" "0 < first_number A c"
  shows "contents (revert_before A c (extend_outcome A ou (outcome_of A c))) = take (unat (first_number A c)) (blocks_of c)"
proof -
  let ?n = "first_number A c - 1" and ?ou = "extend_outcome A ou (outcome_of A c)"
  from assms(3) have n: "Suc (unat ?n) = unat (first_number A c)" by (simp add: unat_minus_one unat_gt_0 flip: word_neq_0_conv)
  have ou: "first_block ?ou = 0" "contents ?ou = blocks_of c" using assms by (simp_all add: first_extended contents_extended)
  show ?thesis
  proof (cases "unat ?n < length (blocks_of c)")
    case True
    with revert_inside [of ?ou ?n] ou n show ?thesis by (auto simp: revert_before_def)
  next
    case False
    with revert_outside [of ?n ?ou] ou n show ?thesis by (simp add: revert_before_def)
  qed
qed

end

section \<open>Properties\<close>

text \<open>
  Property C32. The ExEx that keeps the state in memory follows the canonical chain. For every
  sequence of notifications of a canonical chain (a chain is committed on the tip, what is
  reverted or reorged is the tip, and the first block of the outcome stays) it succeeds, its
  outcome then holds exactly the blocks of that chain, from the same first block, and it has
  reported the heights of the committed chains in order. The outcome the code starts with has first
  block 0, so for the code itself these are the chains that start at genesis; what happens on others is
  \<open>default_outcome_not_undone\<close>.
\<close>

theorem in_memory_follows_chain:
  assumes "exex_api_ok A" "outcome_history A first_block contents" "\<not> receiver_gone s"
    and "canonical A contents (first_block (execution_outcome s)) (contents (execution_outcome s)) ns bs"
  shows "\<exists>ou. in_memory_exex A (map Inr ns) s = (Inr (), s\<lparr>execution_outcome := ou,
      finished_heights := finished_heights s @ concat (map (owed_heights A) ns)\<rparr>) \<and>
    contents ou = bs \<and> first_block ou = first_block (execution_outcome s)"
  using outcome_history.follows_canonical [OF assms(2,1,4) refl refl assms(3)] .

text \<open>
  Outside that: a revert down to the first block of the outcome, or below it, undoes nothing; and
  the outcome the code starts with has first block 0 and no blocks, so that committing a chain from a
  later block \<open>f\<close> and reverting it leaves the first \<open>f\<close> of its blocks, that is some.
\<close>

lemma revert_to_first_block_ignored:
  assumes "exex_api_ok A" "outcome_history A first_block contents" "\<not> receiver_gone s"
    and "first_number A old \<le> first_block (execution_outcome s)"
    and "unat (first_block (execution_outcome s)) + length (contents (execution_outcome s)) < 2 ^ 64"
  shows "in_memory_exex A [Inr (ChainReverted old)] s = (Inr (), s)"
  using state_step_open(3) [OF assms(1,3), of old] outcome_history.revert_before_first [OF assms(2,4,5)]
  by (simp add: in_memory_exex_def)

lemma default_outcome_not_undone:
  assumes "exex_api_ok A" "outcome_history A first_block contents"
    and "contents default_outcome = []" "first_block default_outcome = 0" "0 < first_number A c"
  shows "\<exists>s. in_memory_exex A [Inr (ChainCommitted c), Inr (ChainReverted c)] (new_state_exex default_outcome) = (Inr (), s) \<and>
    contents (execution_outcome s) = take (unat (first_number A c)) (contents (outcome_of A c))"
  using outcome_history.revert_from_default [OF assms(2-5)]
  by (simp add: in_memory_exex_def new_state_exex_def state_step_open [OF assms(1)])

text \<open>Outcomes as the list of the blocks' changes from genesis on.\<close>

definition demo_state_api :: "(u64 \<times> nat list, nat, nat list) state_api" where
  "demo_state_api =
     \<lparr>committed_chain = committed_chain (std_exex_api (\<lambda>(n, bs). length bs)),
      reverted_chain = reverted_chain (std_exex_api (\<lambda>(n, bs). length bs)),
      tip_num_hash = (\<lambda>(n, bs). unat n + length bs - 1), first_number = fst, outcome_of = snd,
      extend_outcome = (@),
      revert_outcome_to = (\<lambda>n ou. if unat n < length ou then (True, take (Suc (unat n)) ou) else (False, ou))\<rparr>"

lemma demo_state_api_ok: "exex_api_ok demo_state_api"
  by (simp add: exex_api_ok_def demo_state_api_def std_exex_api_def)

interpretation demo_outcomes: outcome_history demo_state_api "\<lambda>_. 0" "\<lambda>ou. ou"
  by unfold_locales (auto simp: demo_state_api_def)

text \<open>On genesis two blocks are committed, the second is reorged, and its successor is reverted.\<close>

theorem in_memory_follows_chain_witness:
  "in_memory_exex demo_state_api
      (map Inr [ChainCommitted (1, [8, 7]), ChainReorged (2, [7]) (2, [9, 6]), ChainReverted (3, [6])])
      (new_state_exex [5]) = (Inr (), (new_state_exex [5])\<lparr>execution_outcome := [5, 8, 9], finished_heights := [2, 3]\<rparr>)"
proof -
  let ?c = "canonical demo_state_api (\<lambda>ou. ou) 0"
  let ?ns = "[ChainCommitted (1, [8, 7]), ChainReorged (2, [7]) (2, [9, 6]), ChainReverted (3, [6])] :: (u64 \<times> nat list) exex_notification list"
  have api: "first_number demo_state_api = fst" "outcome_of demo_state_api = snd" by (simp_all add: demo_state_api_def)
  have 3: "?c [5, 8, 9, 6] [ChainReverted (3, [6])] [5, 8, 9]"
    by (rule canonical.reverted [OF _ _ _ canonical.unchanged]) (simp_all add: api)
  have 2: "?c [5, 8, 7] [ChainReorged (2, [7]) (2, [9, 6]), ChainReverted (3, [6])] [5, 8, 9]"
    by (rule canonical.reorged [where kept = "[5, 8]"]) (use 3 in \<open>simp_all add: api\<close>)
  have 1: "?c [5] ?ns [5, 8, 9]"
    by (rule canonical.committed) (use 2 in \<open>simp_all add: api\<close>)
  have "?c (execution_outcome (new_state_exex [5] :: (nat list, nat) state_exex)) ?ns [5, 8, 9]"
    using 1 by (simp add: new_state_exex_def)
  from in_memory_follows_chain [OF demo_state_api_ok demo_outcomes.outcome_history_axioms _ this] show ?thesis
    by (simp add: new_state_exex_def owed_heights_def demo_state_api_def std_exex_api_def)
qed

end
