(* ===== verification/Broadcast.thy ===== *)
theory Broadcast
  imports Prelude "HOL-Library.Sublist"
begin

text \<open>
  The broadcast channel of tokio as its users see it: the remote ExEx hands its notifications to
  the subscribed clients over one, the oracle its signed tickers to the connected peers. Every
  receiver reads all that is sent after it subscribed; the channel retains the newest values up to
  its capacity, and a receiver that missed values gets one lag error with their number and goes on
  with the oldest value retained. Tokio documents that the capacity may be greater than the one
  asked for, so it is a field of the receiver and not a number. The locale \<open>broadcast_stream\<close> is the
  contract of a receiver, and \<open>recv\<close> an interpretation of it.
\<close>

section \<open>Reading\<close>

datatype 'a recv_result = RecvEmpty | RecvLagged nat | RecvValue 'a

text \<open>A read at a position of the log of everything sent, and the position after it.\<close>

definition recv_at :: "nat \<Rightarrow> 'a list \<Rightarrow> nat \<Rightarrow> 'a recv_result \<times> nat" where
  "recv_at cap log pos =
     (if length log \<le> pos then (RecvEmpty, pos)
      else if pos + cap < length log then (RecvLagged (length log - cap - pos), length log - cap)
      else (RecvValue (log ! pos), Suc pos))"

record 'a receiver =
  rx_cap :: nat
  rx_log :: "'a list" \<comment> \<open>everything sent on the channel\<close>
  rx_pos :: nat

definition recv :: "'a receiver \<Rightarrow> 'a recv_result \<times> 'a receiver" where
  "recv r = (case recv_at (rx_cap r) (rx_log r) (rx_pos r) of (v, pos) \<Rightarrow> (v, r\<lparr>rx_pos := pos\<rparr>))"

text \<open>\<open>Sender::subscribe\<close> on a channel with this capacity and log, and a value sent meanwhile.\<close>

definition subscribe_to :: "nat \<Rightarrow> 'a list \<Rightarrow> 'a receiver" where
  "subscribe_to cap log = \<lparr>rx_cap = cap, rx_log = log, rx_pos = length log\<rparr>"

definition sent_to :: "'a \<Rightarrow> 'a receiver \<Rightarrow> 'a receiver" where
  "sent_to x r = r\<lparr>rx_log := rx_log r @ [x]\<rparr>"

definition unread :: "'a receiver \<Rightarrow> 'a list" where
  "unread r = drop (rx_pos r) (rx_log r)"

definition lagging :: "'a receiver \<Rightarrow> bool" where
  "lagging r \<longleftrightarrow> rx_cap r < length (unread r)"

lemma recv_cases:
  "recv r =
     (if unread r = [] then (RecvEmpty, r)
      else if lagging r then (RecvLagged (length (unread r) - rx_cap r), r\<lparr>rx_pos := length (rx_log r) - rx_cap r\<rparr>)
      else (RecvValue (hd (unread r)), r\<lparr>rx_pos := Suc (rx_pos r)\<rparr>))"
  by (auto simp: recv_def recv_at_def unread_def lagging_def hd_drop_conv_nth)

lemma unread_subscribe [simp]: "unread (subscribe_to cap log) = []"
  by (simp add: unread_def subscribe_to_def)

lemma unread_sent_to: "rx_pos r \<le> length (rx_log r) \<Longrightarrow> unread (sent_to x r) = unread r @ [x]"
  by (simp add: unread_def sent_to_def)

lemma recv_frame:
  "recv r = (v, r') \<Longrightarrow> rx_cap r' = rx_cap r \<and> rx_log r' = rx_log r"
  "recv r = (v, r') \<Longrightarrow> rx_pos r \<le> length (rx_log r) \<Longrightarrow> rx_pos r' \<le> length (rx_log r')"
  by (auto simp: recv_cases unread_def split: if_splits)

lemma recv_not_lagging: "recv r = (v, r') \<Longrightarrow> \<not> lagging r'"
  by (auto simp: recv_cases unread_def lagging_def split: if_splits)

text \<open>A receiver that has read everything, and one that read a value as soon as it was sent.\<close>

definition up_to_date :: "'a receiver \<Rightarrow> bool" where
  "up_to_date r \<longleftrightarrow> rx_pos r = length (rx_log r)"

definition delivered :: "'a \<Rightarrow> 'a receiver \<Rightarrow> 'a receiver" where
  "delivered x r = r\<lparr>rx_log := rx_log r @ [x], rx_pos := Suc (rx_pos r)\<rparr>"

lemma up_to_date_subscribe [simp]: "up_to_date (subscribe_to cap log)"
  by (simp add: up_to_date_def subscribe_to_def)

lemma up_to_date_delivered [simp]: "up_to_date r \<Longrightarrow> up_to_date (delivered x r)"
  by (simp add: up_to_date_def delivered_def)

lemma rx_cap_simps [simp]:
  "rx_cap (subscribe_to cap log) = cap" "rx_cap (delivered x r) = rx_cap r" "rx_cap (sent_to x r) = rx_cap r"
  by (simp_all add: subscribe_to_def delivered_def sent_to_def)

lemma recv_up_to_date [simp]: "up_to_date r \<Longrightarrow> recv r = (RecvEmpty, r)"
  by (simp add: recv_cases unread_def up_to_date_def)

lemma recv_sent [simp]: "up_to_date r \<Longrightarrow> 0 < rx_cap r \<Longrightarrow> recv (sent_to x r) = (RecvValue x, delivered x r)"
  by (simp add: recv_cases unread_def up_to_date_def lagging_def sent_to_def delivered_def)

lemma fold_delivered [simp]:
  "up_to_date r \<Longrightarrow> up_to_date (fold delivered xs r)" "rx_cap (fold delivered xs r) = rx_cap r"
  by (induction xs arbitrary: r) simp_all

section \<open>The contract of a receiver\<close>

locale broadcast_stream =
  fixes read :: "'r \<Rightarrow> 'a recv_result \<times> 'r" and pending :: "'r \<Rightarrow> 'a list"
  assumes read_value: "read r = (RecvValue x, r') \<Longrightarrow> pending r = x # pending r'"
    and read_empty: "read r = (RecvEmpty, r') \<Longrightarrow> r' = r \<and> pending r = []"
    and read_lagged: "read r = (RecvLagged n, r') \<Longrightarrow> 0 < n \<and> n \<le> length (pending r) \<and> pending r' = drop n (pending r)"
begin

text \<open>A read hands out the values in order and may skip some, never at the end of what is sent.\<close>

lemma read_subseq: "read r = (v, r') \<Longrightarrow> subseq ((case v of RecvValue x \<Rightarrow> [x] | _ \<Rightarrow> []) @ pending r') (pending r)"
proof (cases v)
  case (RecvLagged n)
  moreover assume "read r = (v, r')"
  ultimately have "pending r' = drop n (pending r)" using read_lagged by blast
  moreover have "subseq (drop n (pending r)) (take n (pending r) @ drop n (pending r))"
    by (rule subseq_drop_many) simp
  ultimately show ?thesis using RecvLagged by simp
qed (auto dest: read_value read_empty)

lemma read_exact: "read r = (v, r') \<Longrightarrow> (\<nexists>n. v = RecvLagged n) \<Longrightarrow>
    (case v of RecvValue x \<Rightarrow> [x] | _ \<Rightarrow> []) @ pending r' = pending r"
  by (cases v) (auto dest: read_value read_empty)

end

interpretation recv: broadcast_stream recv unread
proof
  fix r r' :: "'a receiver" and n
  assume "recv r = (RecvLagged n, r')"
  then show "0 < n \<and> n \<le> length (unread r) \<and> unread r' = drop n (unread r)"
    by (auto simp: recv_cases unread_def lagging_def split: if_splits)
qed (auto simp: recv_cases unread_def Cons_nth_drop_Suc hd_drop_conv_nth split: if_splits)

lemma recv_lagged_iff: "(\<exists>n r'. recv r = (RecvLagged n, r')) \<longleftrightarrow> lagging r"
  by (auto simp: recv_cases lagging_def)

end
