(* ===== verification/Remote.thy ===== *)
theory Remote
  imports Codec_Props Small_Exex Broadcast
begin

text \<open>
  The remote ExEx: the node side that reports heights and broadcasts every notification, the gRPC
  service that forwards the broadcast to a client (remote/bin/exex.rs), and the consumer
  (remote/bin/consumer.rs). The broadcast channel has the capacity \<open>cap\<close>: the code asks tokio for 1,
  and a receiver that has more notifications unread than the channel retains gets a lag error on
  its next read. The messages are those of the codec. The steps of one client are \<open>remote_step\<close>,
  those of a server with any number of them \<open>server_step\<close>.
\<close>

section \<open>The node side\<close>

record ('chain, 'h) remote_node = "'h events" +
  broadcast_log :: "'chain exex_notification list" \<comment> \<open>everything sent on the broadcast channel\<close>

text \<open>Sending on the broadcast channel fails without receivers, which is ignored.\<close>

definition remote_node_step ::
  "('chain, 'h) exex_api \<Rightarrow> 'chain exex_notification \<Rightarrow> ('chain, 'h) remote_node \<Rightarrow> (err + unit) \<times> ('chain, 'h) remote_node" where
  "remote_node_step A notification s =
     (let forward = (\<lambda>s. s\<lparr>broadcast_log := broadcast_log s @ [notification]\<rparr>) in
      case committed_chain A notification of
        None \<Rightarrow> (Inr (), forward s)
      | Some chain \<Rightarrow>
          if receiver_gone s then (Inl (External ''channel closed''), s)
          else (Inr (), forward (s\<lparr>finished_heights := finished_heights s @ [tip_num_hash A chain]\<rparr>)))"

definition remote_node_exex ::
  "('chain, 'h) exex_api \<Rightarrow> (err + 'chain exex_notification) list \<Rightarrow> ('chain, 'h) remote_node \<Rightarrow> (err + unit) \<times> ('chain, 'h) remote_node" where
  "remote_node_exex A = run_exex (remote_node_step A)"

interpretation remote_node: exex_handler A "remote_node_step A" finished_heights for A
  by unfold_locales
    (auto simp: remote_node_step_def Let_def owed_heights_def split: option.splits if_splits)

text \<open>What a run has broadcast and reported: the notifications it processed, and their heights.\<close>

lemma remote_node_run:
  "remote_node_exex A ns s = (r, s') \<Longrightarrow>
     \<exists>done rest. ns = map Inr done @ rest \<and> broadcast_log s' = broadcast_log s @ done \<and>
       finished_heights s' = finished_heights s @ concat (map (owed_heights A) done) \<and>
       (case r of Inr _ \<Rightarrow> rest = [] | Inl _ \<Rightarrow> rest \<noteq> [])"
  unfolding remote_node_exex_def
proof (induction ns arbitrary: s)
  case (Cons m ns)
  show ?case
  proof (cases m)
    case (Inr n)
    obtain q t where st: "remote_node_step A n s = (q, t)" by (cases "remote_node_step A n s")
    then have log: "broadcast_log t = (case q of Inr _ \<Rightarrow> broadcast_log s @ [n] | Inl _ \<Rightarrow> broadcast_log s)"
      by (auto simp: remote_node_step_def Let_def split: option.splits if_splits)
    show ?thesis
    proof (cases q)
      case (Inl e)
      with \<open>m = Inr n\<close> st log Cons.prems remote_node.step_err [of A n s e t] show ?thesis
        by - (rule exI[of _ "[]"], rule exI[of _ "m # ns"], auto)
    next
      case q: (Inr u)
      with Inr st Cons.prems have "run_exex (remote_node_step A) ns t = (r, s')" by simp
      from Cons.IH[OF this] obtain "done" rest where
        "ns = map Inr done @ rest" "broadcast_log s' = broadcast_log t @ done"
        "finished_heights s' = finished_heights t @ concat (map (owed_heights A) done)"
        "case r of Inr _ \<Rightarrow> rest = [] | Inl _ \<Rightarrow> rest \<noteq> []" by blast
      with Inr q log st remote_node.step_ok [of A n s u t] show ?thesis
        by - (rule exI[of _ "n # done"], rule exI[of _ rest], auto)
    qed
  qed (use Cons.prems in \<open>auto intro: exI[of _ "[]"]\<close>)
qed (auto split: sum.split)

section \<open>A subscription\<close>

text \<open>What the task spawned by \<open>subscribe\<close> is doing.\<close>

datatype task_state = Receiving | SendingMsg p_notification | LoopEnded | TaskPanicked

record subscription =
  sub_next :: nat \<comment> \<open>position in the broadcast log of the next notification to read\<close>
  sub_task :: task_state
  sub_channel :: "p_notification option" \<comment> \<open>the \<open>mpsc\<close> channel of capacity 1\<close>
  sub_connected :: bool
  sub_received :: "p_notification list" \<comment> \<open>what the client took from the stream\<close>

text \<open>A receiver starts at the end of the log, \<open>tail\<close>: the next notification is its first.\<close>

definition subscribe :: "nat \<Rightarrow> subscription" where
  "subscribe tail = \<lparr>sub_next = tail, sub_task = Receiving, sub_channel = None,
     sub_connected = True, sub_received = []\<rparr>"

text \<open>
  \<open>notifications.recv()\<close>, when it is ready: the next notification, or the lag error that ends the
  loop; then the encoding, whose failure panics the task.
\<close>

definition sub_recv :: "('bc, 'jt, 'chain, 'wd, 'rq) codec_prims \<Rightarrow> nat \<Rightarrow> 'chain exex_notification list \<Rightarrow> subscription \<Rightarrow> subscription" where
  "sub_recv P cap log s =
     (case recv_at cap log (sub_next s) of
        (RecvEmpty, _) \<Rightarrow> s
      | (RecvLagged _, _) \<Rightarrow> s\<lparr>sub_task := LoopEnded\<rparr>
      | (RecvValue notification, pos) \<Rightarrow>
          (case encode_notification P notification of
             Inl _ \<Rightarrow> s\<lparr>sub_next := pos, sub_task := TaskPanicked\<rparr>
           | Inr m \<Rightarrow> s\<lparr>sub_next := pos, sub_task := SendingMsg m\<rparr>))"

lemma sub_recv_cases:
  "sub_recv P cap log s =
     (if length log \<le> sub_next s then s
      else if sub_next s + cap < length log then s\<lparr>sub_task := LoopEnded\<rparr>
      else (case encode_notification P (log ! sub_next s) of
          Inl _ \<Rightarrow> s\<lparr>sub_next := Suc (sub_next s), sub_task := TaskPanicked\<rparr>
        | Inr m \<Rightarrow> s\<lparr>sub_next := Suc (sub_next s), sub_task := SendingMsg m\<rparr>))"
  by (simp add: sub_recv_def recv_at_def)

text \<open>\<open>tx.send(..).await\<close>: waits for room, and fails when the client is gone, which panics the task.\<close>

definition sub_send :: "p_notification \<Rightarrow> subscription \<Rightarrow> subscription" where
  "sub_send m s =
     (if \<not> sub_connected s then s\<lparr>sub_task := TaskPanicked\<rparr>
      else case sub_channel s of
        Some _ \<Rightarrow> s
      | None \<Rightarrow> s\<lparr>sub_channel := Some m, sub_task := Receiving\<rparr>)"

definition sub_take :: "subscription \<Rightarrow> subscription" where
  "sub_take s = (case sub_channel s of None \<Rightarrow> s
     | Some m \<Rightarrow> s\<lparr>sub_channel := None, sub_received := sub_received s @ [m]\<rparr>)"

text \<open>The broadcast, the task and the client interleave.\<close>

inductive remote_step ::
  "('bc, 'jt, 'chain, 'wd, 'rq) codec_prims \<Rightarrow> nat \<Rightarrow> 'chain exex_notification list \<times> subscription \<Rightarrow>
     'chain exex_notification list \<times> subscription \<Rightarrow> bool" for P cap where
  publish: "remote_step P cap (log, s) (log @ [n], s)"
| recv: "sub_task s = Receiving \<Longrightarrow> remote_step P cap (log, s) (log, sub_recv P cap log s)"
| send: "sub_task s = SendingMsg m \<Longrightarrow> remote_step P cap (log, s) (log, sub_send m s)"
| take_msg: "sub_connected s \<Longrightarrow> remote_step P cap (log, s) (log, sub_take s)"
| disconnect: "remote_step P cap (log, s) (log, s\<lparr>sub_connected := False\<rparr>)"

inductive_cases remote_stepE: "remote_step P cap a b"

text \<open>
  The service with its clients, each with a task of its own: a notification is broadcast, a client
  subscribes, or one of them takes a step.
\<close>

inductive server_step ::
  "('bc, 'jt, 'chain, 'wd, 'rq) codec_prims \<Rightarrow> nat \<Rightarrow> 'chain exex_notification list \<times> subscription list \<Rightarrow>
     'chain exex_notification list \<times> subscription list \<Rightarrow> bool" for P cap where
  broadcast: "server_step P cap (log, subs) (log @ [n], subs)"
| accept: "server_step P cap (log, subs) (log, subs @ [subscribe (length log)])"
| client: "i < length subs \<Longrightarrow> remote_step P cap (log, subs ! i) (log, s) \<Longrightarrow> server_step P cap (log, subs) (log, subs[i := s])"

inductive_cases server_stepE: "server_step P cap a b"

section \<open>The consumer\<close>

text \<open>
  \<open>main\<close> of the consumer: the notifications it logged, and how it ends. The stream it reads ends
  without an error however the task that feeds it ended.
\<close>

fun consume ::
  "('bc, 'jt, 'chain, 'wd, 'rq) codec_prims \<Rightarrow> (err + p_notification) list \<Rightarrow> 'chain exex_notification list \<times> (err + unit)" where
  "consume P [] = ([], Inr ())"
| "consume P (Inl e # st) = ([], Inl e)"
| "consume P (Inr m # st) =
     (case decode_notification P m of
        Inl e \<Rightarrow> ([], Inl e)
      | Inr notification \<Rightarrow> (case consume P st of (ns, r) \<Rightarrow> (notification # ns, r)))"

section \<open>The messages on their way\<close>

definition on_the_way :: "subscription \<Rightarrow> p_notification list" where
  "on_the_way s = sub_received s @ (case sub_channel s of None \<Rightarrow> [] | Some m \<Rightarrow> [m]) @
     (case sub_task s of SendingMsg m \<Rightarrow> [m] | _ \<Rightarrow> [])"

text \<open>
  From position \<open>st\<close> of the log on, the messages are those of consecutive notifications; while the
  task lives, of all it has read.
\<close>

definition sub_inv :: "('bc, 'jt, 'chain, 'wd, 'rq) codec_prims \<Rightarrow> nat \<Rightarrow> 'chain exex_notification list \<times> subscription \<Rightarrow> bool" where
  "sub_inv P st = (\<lambda>(log, s).
     (let w = on_the_way s in
      st + length w \<le> length log \<and> sub_next s \<le> length log \<and>
      list_all2 (\<lambda>n m. encode_notification P n = Inr m) (take (length w) (drop st log)) w \<and>
      (sub_task s \<noteq> TaskPanicked \<longrightarrow> sub_next s = st + length w)))"

lemma sub_inv_subscribe: "sub_inv P (length log) (log, subscribe (length log))"
  by (simp add: sub_inv_def subscribe_def on_the_way_def)

lemma list_all2_take_snoc:
  assumes "list_all2 R (take (length w) (drop st log)) w" "st + length w < length log"
    "R (log ! (st + length w)) m"
  shows "list_all2 R (take (length (w @ [m])) (drop st log)) (w @ [m])"
  using assms by (simp add: take_Suc_conv_app_nth list_all2_appendI)

lemma list_all2_take_prefix:
  assumes "list_all2 R (take (length (w @ v)) xs) (w @ v)" "length (w @ v) \<le> length xs"
  shows "list_all2 R (take (length w) xs) w"
proof -
  from list_all2_takeI[OF assms(1), of "length w"] show ?thesis by (simp add: min_def)
qed

text \<open>What every operation does to the messages on their way.\<close>

lemma on_the_way_send:
  "sub_task s = SendingMsg m \<Longrightarrow>
     on_the_way (sub_send m s) = (if sub_connected s then on_the_way s else butlast (on_the_way s))"
  by (auto simp: on_the_way_def sub_send_def butlast_append split: option.split)

lemma on_the_way_take [simp]: "on_the_way (sub_take s) = on_the_way s"
  by (auto simp: on_the_way_def sub_take_def split: option.splits)

lemma on_the_way_frame [simp]:
  "on_the_way (s\<lparr>sub_connected := c\<rparr>) = on_the_way s" "on_the_way (s\<lparr>sub_next := k\<rparr>) = on_the_way s"
  by (simp_all add: on_the_way_def)

lemma on_the_way_recv:
  "sub_task s = Receiving \<Longrightarrow> on_the_way (s\<lparr>sub_next := k, sub_task := t\<rparr>)
     = on_the_way s @ (case t of SendingMsg m \<Rightarrow> [m] | _ \<Rightarrow> [])"
  "sub_task s = Receiving \<Longrightarrow> on_the_way (s\<lparr>sub_task := LoopEnded\<rparr>) = on_the_way s"
  by (auto simp: on_the_way_def)

lemma sub_frame [simp]:
  "sub_next (sub_take s) = sub_next s" "sub_task (sub_take s) = sub_task s" "sub_next (sub_send m s) = sub_next s"
  by (auto simp: sub_take_def sub_send_def split: option.split)

lemma remote_step_inv:
  assumes "remote_step P cap (log, s) (log', s')" "sub_inv P st (log, s)"
  shows "sub_inv P st (log', s')"
  using assms(1)
proof (cases rule: remote_step.cases)
  case (publish n)
  with assms(2) show ?thesis by (auto simp: sub_inv_def Let_def)
next
  case recv
  show ?thesis
  proof (cases "sub_next s < length log \<and> length log \<le> sub_next s + cap")
    case True
    let ?w = "on_the_way s"
    from True recv assms(2) have w: "st + length ?w < length log" "sub_next s = st + length ?w"
      "list_all2 (\<lambda>n m. encode_notification P n = Inr m) (take (length ?w) (drop st log)) ?w"
      by (auto simp: sub_inv_def Let_def)
    show ?thesis
    proof (cases "encode_notification P (log ! (st + length ?w))")
      case (Inl e)
      with True recv w show ?thesis
        by (auto simp: sub_inv_def sub_recv_cases Let_def on_the_way_recv)
    next
      case (Inr m)
      then have "on_the_way (sub_recv P cap log s) = ?w @ [m]"
        using True recv w by (simp add: sub_recv_cases on_the_way_recv)
      with True recv w Inr list_all2_take_snoc[OF w(3,1), of m] show ?thesis
        by (auto simp: sub_inv_def sub_recv_cases Let_def)
    qed
  next
    case False
    with recv assms(2) show ?thesis
      by (auto simp: sub_inv_def sub_recv_cases Let_def on_the_way_recv)
  qed
next
  case (send m)
  show ?thesis
  proof (cases "sub_connected s")
    case True
    with send assms(2) show ?thesis
      by (auto simp: sub_inv_def Let_def on_the_way_send)
  next
    case False
    have "on_the_way s \<noteq> []" using send by (simp add: on_the_way_def)
    then obtain w x where w: "on_the_way s = w @ [x]" by (metis append_butlast_last_id)
    have "sub_task (sub_send m s) = TaskPanicked" using False by (simp add: sub_send_def)
    with False send assms(2) w list_all2_take_prefix[of _ w "[x]" "drop st log"] show ?thesis
      by (auto simp: sub_inv_def Let_def on_the_way_send)
  qed
qed (use assms(2) in \<open>auto simp: sub_inv_def Let_def\<close>)

lemma remote_steps_inv:
  assumes "(remote_step P cap)\<^sup>*\<^sup>* (log, subscribe (length log)) (log', s')"
  shows "sub_inv P (length log) (log', s')"
  using assms
proof (induction rule: rtranclp_induct2)
  case refl
  show ?case by (rule sub_inv_subscribe)
next
  case (step l s l' s')
  then show ?case using remote_step_inv by blast
qed

lemma server_steps_log: "(server_step P cap)\<^sup>*\<^sup>* (log, subs) (log', subs') \<Longrightarrow> \<exists>ns. log' = log @ ns"
  by (induction rule: rtranclp_induct2) (auto elim: server_stepE)

lemma remote_steps_log: "(remote_step P cap)\<^sup>*\<^sup>* (log, s) (log', s') \<Longrightarrow> \<exists>ns. log' = log @ ns"
  by (induction rule: rtranclp_induct2) (auto elim: remote_stepE)

text \<open>
  Each client sees a run of its own: the server projects to the steps of one subscription, from the
  log at which it subscribed.
\<close>

lemma server_projects:
  assumes "(server_step P cap)\<^sup>*\<^sup>* (log, []) (log', subs)" "i < length subs"
  shows "\<exists>before since. log' = log @ before @ since \<and>
    (remote_step P cap)\<^sup>*\<^sup>* (log @ before, subscribe (length (log @ before))) (log', subs ! i)"
  using assms
proof (induction arbitrary: i rule: rtranclp_induct2)
  case (step l ss l' ss')
  from step.hyps(2) show ?case
  proof (cases rule: server_step.cases)
    case (broadcast n)
    with step.IH step.prems obtain before since where "l = log @ before @ since"
      "(remote_step P cap)\<^sup>*\<^sup>* (log @ before, subscribe (length (log @ before))) (l, ss ! i)" by blast
    with broadcast remote_step.publish[of P cap l "ss ! i" n] show ?thesis
      by (intro exI[of _ before] exI[of _ "since @ [n]"]) (auto intro: rtranclp.rtrancl_into_rtrancl)
  next
    case accept
    show ?thesis
    proof (cases "i < length ss")
      case True
      with step.IH accept show ?thesis by (auto simp: nth_append)
    next
      case False
      with accept step.prems have "ss' ! i = subscribe (length l)" by (auto simp: nth_append less_Suc_eq)
      moreover from server_steps_log[OF step.hyps(1)] obtain ns where "l = log @ ns" ..
      ultimately show ?thesis using accept by (intro exI[of _ ns] exI[of _ "[]"]) simp
    qed
  next
    case (client j s)
    then have "i < length ss" using step.prems by simp
    with step.IH obtain before since where "l = log @ before @ since"
      "(remote_step P cap)\<^sup>*\<^sup>* (log @ before, subscribe (length (log @ before))) (l, ss ! i)" by blast
    with client step.prems show ?thesis
      by (cases "i = j") (auto intro: rtranclp.rtrancl_into_rtrancl)
  qed
qed simp

text \<open>Once the task has stopped, or must stop at its next read, nothing enters the channel any more.\<close>

definition delivered_or_buffered :: "subscription \<Rightarrow> p_notification list" where
  "delivered_or_buffered s = sub_received s @ (case sub_channel s of None \<Rightarrow> [] | Some m \<Rightarrow> [m])"

definition behind :: "nat \<Rightarrow> 'n list \<Rightarrow> subscription \<Rightarrow> bool" where
  "behind cap log s \<longleftrightarrow> sub_task s = LoopEnded \<or> sub_task s = Receiving \<and> sub_next s + cap < length log"

lemma behind_step:
  assumes "remote_step P cap (log, s) (log', s')" "behind cap log s"
  shows "behind cap log' s' \<and> delivered_or_buffered s' = delivered_or_buffered s"
  using assms
  by (cases rule: remote_step.cases)
    (auto simp: behind_def delivered_or_buffered_def sub_recv_cases sub_take_def split: option.splits)

lemma behind_steps:
  assumes "(remote_step P cap)\<^sup>*\<^sup>* (log, s) (log', s')" "behind cap log s"
  shows "behind cap log' s' \<and> delivered_or_buffered s' = delivered_or_buffered s"
  using assms
proof (induction rule: rtranclp_induct2)
  case (step l t l' t')
  then show ?case using behind_step by metis
qed simp

section \<open>Properties\<close>

lemma consume_all:
  "list_all2 (\<lambda>m n'. decode_notification P m = Inr n') ms ns \<Longrightarrow> consume P (map Inr ms) = (ns, Inr ())"
  by (induction ms ns rule: list_all2_induct) auto

lemma travelling_messages:
  assumes "codec_prims_ok P"
    "\<forall>n \<in> set ns. \<forall>c \<in> set_exex_notification n. bundle_ok (eo_bundle (chain_outcome P c))"
    "list_all2 (\<lambda>n m. encode_notification P n = Inr m) ns ms"
  shows "\<exists>ns'. list_all2 (\<lambda>m n'. decode_notification P m = Inr n') ms ns' \<and>
    list_all2 (rel_exex_notification (same_chain P)) ns ns'"
  using assms(3,2)
proof (induction ns ms rule: list_all2_induct)
  case (Cons n ns m ms)
  then obtain ns' where ns': "list_all2 (\<lambda>m n'. decode_notification P m = Inr n') ms ns'"
    "list_all2 (rel_exex_notification (same_chain P)) ns ns'" by auto
  from notification_travels[OF assms(1), of n] Cons obtain n' where
    "decode_notification P m = Inr n'" "rel_exex_notification (same_chain P) n n'"
    by (auto elim: travelsE)
  with ns' show ?case by (intro exI[of _ "n' # ns'"]) simp
qed simp

text \<open>
  In every interleaving of the broadcast, the forwarding task and the client, the messages the
  client took decode, in order, to the first notifications broadcast since it subscribed.
\<close>

lemma remote_client_sees_a_run:
  assumes "codec_prims_ok P"
    and "\<forall>n \<in> set log'. \<forall>c \<in> set_exex_notification n. bundle_ok (eo_bundle (chain_outcome P c))"
    and "(remote_step P cap)\<^sup>*\<^sup>* (log, subscribe (length log)) (log', s')"
  shows "\<exists>ns since. log' = log @ since \<and> consume P (map Inr (sub_received s')) = (ns, Inr ()) \<and>
    length (sub_received s') \<le> length since \<and>
    list_all2 (rel_exex_notification (same_chain P)) (take (length (sub_received s')) since) ns"
proof -
  from remote_steps_log[OF assms(3)] obtain since where since: "log' = log @ since" ..
  obtain v where v: "on_the_way s' = sub_received s' @ v" by (simp add: on_the_way_def)
  from remote_steps_inv[OF assms(3)] since v have
    "list_all2 (\<lambda>n m. encode_notification P n = Inr m) (take (length (sub_received s' @ v)) since) (sub_received s' @ v)"
    and len: "length (sub_received s' @ v) \<le> length since" by (auto simp: sub_inv_def Let_def)
  then have run: "list_all2 (\<lambda>n m. encode_notification P n = Inr m)
      (take (length (sub_received s')) since) (sub_received s')"
    by (rule list_all2_take_prefix)
  have "\<forall>n \<in> set (take (length (sub_received s')) since).
      \<forall>c \<in> set_exex_notification n. bundle_ok (eo_bundle (chain_outcome P c))"
    using assms(2) since by (auto dest: in_set_takeD)
  from travelling_messages[OF assms(1) this run] obtain ns where
    "list_all2 (\<lambda>m n'. decode_notification P m = Inr n') (sub_received s') ns"
    "list_all2 (rel_exex_notification (same_chain P)) (take (length (sub_received s')) since) ns" by auto
  with since len show ?thesis using consume_all by fastforce
qed

text \<open>
  Property C34. A client that lags is cut off without an error: once more notifications were
  broadcast than the channel retains (one, in the code) that the forwarding task has not read,
  nothing but the message already in the channel reaches the client any more, whatever happens
  later; the task's next read ends its loop, not with a panic, so the client's stream just ends.
\<close>

theorem remote_lag_ends_stream:
  assumes "sub_task s = Receiving" "sub_next s + cap < length log"
    and "(remote_step P cap)\<^sup>*\<^sup>* (log, s) (log', s')"
  shows "(\<exists>unread. sub_received s @ (case sub_channel s of None \<Rightarrow> [] | Some m \<Rightarrow> [m]) = sub_received s' @ unread) \<and>
    sub_task (sub_recv P cap log s) = LoopEnded \<and> (sub_task s' = Receiving \<or> sub_task s' = LoopEnded)"
proof -
  have "behind cap log s" using assms(1,2) by (simp add: behind_def)
  with behind_steps[OF assms(3)] have "delivered_or_buffered s' = delivered_or_buffered s"
    and "behind cap log' s'" by simp_all
  from this(1) have "sub_received s @ (case sub_channel s of None \<Rightarrow> [] | Some m \<Rightarrow> [m])
      = sub_received s' @ (case sub_channel s' of None \<Rightarrow> [] | Some m \<Rightarrow> [m])"
    by (simp add: delivered_or_buffered_def)
  with \<open>behind cap log' s'\<close> show ?thesis using assms(2) by (auto simp: sub_recv_cases behind_def)
qed

theorem remote_lag_ends_stream_witness:
  "sub_task (sub_recv std_prims 1 [demo_notification, demo_notification] (subscribe 0)) = LoopEnded"
  using remote_lag_ends_stream[of "subscribe 0" 1 "[demo_notification, demo_notification]" std_prims
      "[demo_notification, demo_notification]" "subscribe 0"]
  by (simp add: subscribe_def)

end
