(* ===== verification/Remote_System.thy ===== *)
theory Remote_System
  imports Remote
begin

text \<open>
  The program that \<open>main\<close> of remote/bin/exex.rs starts: one broadcast channel, shared by the ExEx and
  by the gRPC service with its clients, all of which run interleaved. The body of the loop of
  \<open>exex\<close> is split where others can run between its effects: the height is sent first, then the
  notification is broadcast. \<open>node_returns\<close> relates the interleaved node to \<open>remote_node_exex\<close>, and
  the server projects to the steps of \<open>Remote\<close>.
\<close>

section \<open>The system\<close>

text \<open>Where the ExEx is in its loop.\<close>

datatype 'chain node_phase =
    AwaitsNotification
  | HasReported "'chain exex_notification" \<comment> \<open>about to broadcast it\<close>
  | Returned "err + unit"

record ('chain, 'h) remote_system =
  rs_notifications :: "(err + 'chain exex_notification) list" \<comment> \<open>still to come, before the stream ends\<close>
  rs_phase :: "'chain node_phase"
  rs_node :: "('chain, 'h) remote_node"
  rs_clients :: "subscription list"

definition remote_main :: "(err + 'chain exex_notification) list \<Rightarrow> ('chain, 'h) remote_system" where
  "remote_main notifications =
     \<lparr>rs_notifications = notifications, rs_phase = AwaitsNotification,
      rs_node = \<lparr>finished_heights = [], receiver_gone = False, broadcast_log = []\<rparr>, rs_clients = []\<rparr>"

text \<open>\<open>try_next().await?\<close>, and \<open>ctx.events.send(..)?\<close> when the notification has a committed chain.\<close>

definition node_receive :: "('chain, 'h) exex_api \<Rightarrow> ('chain, 'h) remote_system \<Rightarrow> ('chain, 'h) remote_system" where
  "node_receive A S =
     (case rs_notifications S of
        [] \<Rightarrow> S\<lparr>rs_phase := Returned (Inr ())\<rparr>
      | Inl e # _ \<Rightarrow> S\<lparr>rs_phase := Returned (Inl e)\<rparr>
      | Inr notification # rest \<Rightarrow>
          let node = rs_node S; S' = S\<lparr>rs_notifications := rest, rs_phase := HasReported notification\<rparr> in
          case committed_chain A notification of
            None \<Rightarrow> S'
          | Some chain \<Rightarrow>
              if receiver_gone node then S\<lparr>rs_phase := Returned (Inl (External ''channel closed''))\<rparr>
              else S'\<lparr>rs_node := node\<lparr>finished_heights := finished_heights node @ [tip_num_hash A chain]\<rparr>\<rparr>)"

text \<open>\<open>notifications.send(notification)\<close>, whose error is ignored.\<close>

definition node_broadcast :: "'chain exex_notification \<Rightarrow> ('chain, 'h) remote_system \<Rightarrow> ('chain, 'h) remote_system" where
  "node_broadcast notification S =
     S\<lparr>rs_phase := AwaitsNotification,
       rs_node := rs_node S\<lparr>broadcast_log := broadcast_log (rs_node S) @ [notification]\<rparr>\<rparr>"

text \<open>
  The ExEx, the reth node that may drop the receiver of the events, the service that accepts
  clients, and the tasks and the clients.
\<close>

inductive system_step ::
  "('chain, 'h) exex_api \<Rightarrow> ('bc, 'jt, 'chain, 'wd, 'rq) codec_prims \<Rightarrow> nat \<Rightarrow>
     ('chain, 'h) remote_system \<Rightarrow> ('chain, 'h) remote_system \<Rightarrow> bool" for A P cap where
  receives: "rs_phase S = AwaitsNotification \<Longrightarrow> system_step A P cap S (node_receive A S)"
| broadcasts: "rs_phase S = HasReported n \<Longrightarrow> system_step A P cap S (node_broadcast n S)"
| events_dropped: "system_step A P cap S (S\<lparr>rs_node := rs_node S\<lparr>receiver_gone := True\<rparr>\<rparr>)"
| subscribes: "system_step A P cap S (S\<lparr>rs_clients := rs_clients S @ [subscribe (length (broadcast_log (rs_node S)))]\<rparr>)"
| client_acts: "i < length (rs_clients S) \<Longrightarrow>
    remote_step P cap (broadcast_log (rs_node S), rs_clients S ! i) (broadcast_log (rs_node S), s) \<Longrightarrow>
    system_step A P cap S (S\<lparr>rs_clients := (rs_clients S)[i := s]\<rparr>)"

section \<open>The node in the system\<close>

definition in_flight :: "('chain, 'h) remote_system \<Rightarrow> 'chain exex_notification list" where
  "in_flight S = (case rs_phase S of HasReported n \<Rightarrow> [n] | _ \<Rightarrow> [])"

text \<open>
  What was processed is what was broadcast and what is about to be, and the heights are those of both.
\<close>

definition node_inv :: "('chain, 'h) exex_api \<Rightarrow> (err + 'chain exex_notification) list \<Rightarrow> ('chain, 'h) remote_system \<Rightarrow> bool" where
  "node_inv A ns S \<longleftrightarrow>
     ns = map Inr (broadcast_log (rs_node S) @ in_flight S) @ rs_notifications S \<and>
     finished_heights (rs_node S) = concat (map (owed_heights A) (broadcast_log (rs_node S) @ in_flight S))"

text \<open>While the receiver of the events is there, the node is on its way to the outcome \<open>out\<close> of the loop.\<close>

definition on_track :: "('chain, 'h) exex_api \<Rightarrow> (err + unit) \<times> ('chain, 'h) remote_node \<Rightarrow> ('chain, 'h) remote_system \<Rightarrow> bool" where
  "on_track A out S \<longleftrightarrow>
     receiver_gone (rs_node S) \<or>
     (case rs_phase S of
        AwaitsNotification \<Rightarrow> remote_node_exex A (rs_notifications S) (rs_node S)
      | HasReported n \<Rightarrow> remote_node_exex A (rs_notifications S) (rs_node (node_broadcast n S))
      | Returned r \<Rightarrow> (r, rs_node S)) = out"

lemmas node_simps = node_inv_def on_track_def in_flight_def node_broadcast_def

lemma node_receive_inv:
  assumes "node_inv A ns S" "on_track A out S" "rs_phase S = AwaitsNotification"
  shows "node_inv A ns (node_receive A S) \<and> on_track A out (node_receive A S)"
proof (cases "rs_notifications S")
  case Nil
  with assms show ?thesis by (simp add: node_simps node_receive_def remote_node_exex_def)
next
  case (Cons m rest)
  show ?thesis
  proof (cases m)
    case (Inl e)
    with Cons assms show ?thesis by (simp add: node_simps node_receive_def remote_node_exex_def)
  next
    case (Inr n)
    with Cons assms show ?thesis
      by (cases "committed_chain A n")
        (auto simp: node_simps node_receive_def remote_node_exex_def Let_def remote_node_step_def owed_heights_def)
  qed
qed

lemma clients_frame:
  "node_inv A ns (S\<lparr>rs_clients := subs\<rparr>) = node_inv A ns S" "on_track A out (S\<lparr>rs_clients := subs\<rparr>) = on_track A out S"
  by (auto simp: node_simps split: node_phase.split)

lemma system_step_inv:
  assumes "system_step A P cap S S'" "node_inv A ns S" "on_track A out S"
  shows "node_inv A ns S' \<and> on_track A out S'"
  using assms(1)
proof (cases rule: system_step.cases)
  case receives
  with node_receive_inv [OF assms(2,3)] show ?thesis by simp
qed (use assms(2,3) in \<open>simp_all add: clients_frame, simp_all add: node_simps\<close>)

lemma node_runs:
  assumes "(system_step A P cap)\<^sup>*\<^sup>* (remote_main ns) S"
  shows "node_inv A ns S" "on_track A (remote_node_exex A ns (rs_node (remote_main ns))) S"
proof -
  let ?out = "remote_node_exex A ns (rs_node (remote_main ns))"
  from assms have "node_inv A ns S \<and> on_track A ?out S"
  proof (induction rule: rtranclp_induct)
    case base
    then show ?case by (simp add: node_simps remote_main_def)
  next
    case (step S S')
    then show ?case using system_step_inv [of A P cap S S' ns ?out] by blast
  qed
  then show "node_inv A ns S" "on_track A ?out S" by simp_all
qed

text \<open>So the interleaved node returns what its loop returns, if the receiver stays.\<close>

lemma node_returns:
  assumes "(system_step A P cap)\<^sup>*\<^sup>* (remote_main ns) S" "rs_phase S = Returned r" "\<not> receiver_gone (rs_node S)"
  shows "remote_node_exex A ns \<lparr>finished_heights = [], receiver_gone = False, broadcast_log = []\<rparr> = (r, rs_node S)"
  using node_runs(2) [OF assms(1)] assms(2,3) by (simp add: on_track_def remote_main_def)

section \<open>The clients in the system\<close>

lemma node_receive_frame [simp]:
  "broadcast_log (rs_node (node_receive A S)) = broadcast_log (rs_node S)" "rs_clients (node_receive A S) = rs_clients S"
  by (simp_all add: node_receive_def Let_def split: list.split sum.split option.split)

lemma system_step_serves:
  assumes "system_step A P cap S S'"
  shows "(server_step P cap)\<^sup>=\<^sup>= (broadcast_log (rs_node S), rs_clients S) (broadcast_log (rs_node S'), rs_clients S')"
  using assms
  by (cases rule: system_step.cases) (auto simp: node_broadcast_def intro: server_step.intros)

lemma system_serves:
  assumes "(system_step A P cap)\<^sup>*\<^sup>* (remote_main ns) S"
  shows "(server_step P cap)\<^sup>*\<^sup>* ([], []) (broadcast_log (rs_node S), rs_clients S)"
  using assms
proof (induction rule: rtranclp_induct)
  case (step S S')
  from system_step_serves [OF step.hyps(2)] step.IH show ?case by (auto intro: rtranclp.rtrancl_into_rtrancl)
qed (simp add: remote_main_def)

section \<open>From the node to the remote clients\<close>

text \<open>
  Property C15. The remote ExEx from end to end, in every state that the program can reach from its
  start, in whatever way the ExEx, new subscriptions, forwarding tasks, clients and the reth node
  interleave. The heights reported are those of the committed chains among the notifications
  processed, of which all but possibly the last have been broadcast. Each client decodes the first
  of the notifications broadcast after it subscribed, in order and without a gap or an error, each
  with the same blocks and execution outcome up to the fields the messages lack; so it never
  sees one before its height was reported.
\<close>

theorem remote_end_to_end:
  assumes "codec_prims_ok P" "(system_step A P cap)\<^sup>*\<^sup>* (remote_main ns) S"
    and "\<forall>n. Inr n \<in> set ns \<longrightarrow> (\<forall>c \<in> set_exex_notification n. bundle_ok (eo_bundle (chain_outcome P c)))"
    and "i < length (rs_clients S)"
  shows "\<exists>before since last rest received. ns = map Inr (before @ since @ last) @ rest \<and> length last \<le> 1 \<and>
    broadcast_log (rs_node S) = before @ since \<and>
    finished_heights (rs_node S) = concat (map (owed_heights A) (before @ since @ last)) \<and>
    consume P (map Inr (sub_received (rs_clients S ! i))) = (received, Inr ()) \<and> length received \<le> length since \<and>
    list_all2 (rel_exex_notification (same_chain P)) (take (length received) since) received"
proof -
  from node_runs(1) [OF assms(2)] have node:
    "ns = map Inr (broadcast_log (rs_node S) @ in_flight S) @ rs_notifications S"
    "finished_heights (rs_node S) = concat (map (owed_heights A) (broadcast_log (rs_node S) @ in_flight S))"
    by (simp_all add: node_inv_def)
  from server_projects [OF system_serves [OF assms(2)] assms(4)] obtain before since where log:
    "broadcast_log (rs_node S) = before @ since"
    and run: "(remote_step P cap)\<^sup>*\<^sup>* (before, subscribe (length before)) (before @ since, rs_clients S ! i)" by auto
  have "\<forall>n \<in> set (before @ since). \<forall>c \<in> set_exex_notification n. bundle_ok (eo_bundle (chain_outcome P c))"
    using assms(3) node(1) log by auto
  from remote_client_sees_a_run [OF assms(1) this run] obtain received where client:
    "consume P (map Inr (sub_received (rs_clients S ! i))) = (received, Inr ())"
    "length (sub_received (rs_clients S ! i)) \<le> length since"
    "list_all2 (rel_exex_notification (same_chain P)) (take (length (sub_received (rs_clients S ! i))) since) received"
    by auto
  then have "length received = length (sub_received (rs_clients S ! i))" by (auto dest: list_all2_lengthD)
  moreover have "length (in_flight S) \<le> 1" by (simp add: in_flight_def split: node_phase.split)
  ultimately show ?thesis using node log client
    by (intro exI [of _ before] exI [of _ since] exI [of _ "in_flight S"] exI [of _ "rs_notifications S"] exI [of _ received])
      simp
qed

text \<open>A client subscribes, one notification is reported, broadcast, forwarded and taken.\<close>

theorem remote_end_to_end_witness:
  "\<exists>(sub :: subscription) received. length (sub_received sub) = 1 \<and> consume std_prims (map Inr (sub_received sub)) = (received, Inr ()) \<and>
     list_all2 (rel_exex_notification (same_chain std_prims)) [demo_notification] received"
proof -
  obtain m where m: "encode_notification std_prims demo_notification = Inr m"
    using notification_travels [OF std.codec_prims_ok_axioms demo_notification_ok] by (auto elim: travelsE)
  let ?A = "std_exex_api (\<lambda>_. 0) :: (demo_chain, nat) exex_api" and ?ns = "[Inr demo_notification]"
  let ?node = "\<lparr>finished_heights = [0], receiver_gone = False, broadcast_log = [demo_notification]\<rparr>"
  let ?S = "\<lambda>sub. \<lparr>rs_notifications = [], rs_phase = AwaitsNotification, rs_node = ?node, rs_clients = [sub]\<rparr> :: (demo_chain, nat) remote_system"
  let ?sub = "\<lambda>t c r. \<lparr>sub_next = 1, sub_task = t, sub_channel = c, sub_connected = True, sub_received = r\<rparr>"
  note run = converse_rtranclp_into_rtranclp [where r = "system_step ?A std_prims 1"]
  have act: "system_step ?A std_prims 1 (?S sub) (?S sub')"
    if "remote_step std_prims 1 ([demo_notification], sub) ([demo_notification], sub')" for sub sub'
    using system_step.client_acts [of 0 "?S sub" std_prims 1 sub' ?A] that by simp
  have 1: "system_step ?A std_prims 1 (remote_main ?ns) (remote_main ?ns\<lparr>rs_clients := [subscribe 0]\<rparr>)"
    using system_step.subscribes [of ?A std_prims 1 "remote_main ?ns"] by (simp add: remote_main_def)
  have 2: "system_step ?A std_prims 1 (remote_main ?ns\<lparr>rs_clients := [subscribe 0]\<rparr>)
      (?S (subscribe 0)\<lparr>rs_phase := HasReported demo_notification, rs_node := ?node\<lparr>broadcast_log := []\<rparr>\<rparr>)"
    using system_step.receives [of "remote_main ?ns\<lparr>rs_clients := [subscribe 0]\<rparr>" ?A std_prims 1]
    by (simp add: remote_main_def node_receive_def demo_notification_def std_exex_api_def)
  have 3: "system_step ?A std_prims 1
      (?S (subscribe 0)\<lparr>rs_phase := HasReported demo_notification, rs_node := ?node\<lparr>broadcast_log := []\<rparr>\<rparr>) (?S (subscribe 0))"
    using system_step.broadcasts [of "?S (subscribe 0)\<lparr>rs_phase := HasReported demo_notification, rs_node := ?node\<lparr>broadcast_log := []\<rparr>\<rparr>"
        demo_notification ?A std_prims 1] by (simp add: node_broadcast_def)
  have 4: "system_step ?A std_prims 1 (?S (subscribe 0)) (?S (?sub (SendingMsg m) None []))"
    using act [OF remote_step.recv [of "subscribe 0"]] m by (simp add: subscribe_def sub_recv_cases)
  have 5: "system_step ?A std_prims 1 (?S (?sub (SendingMsg m) None [])) (?S (?sub Receiving (Some m) []))"
    using act [OF remote_step.send [of "?sub (SendingMsg m) None []" m]] by (simp add: sub_send_def)
  have 6: "system_step ?A std_prims 1 (?S (?sub Receiving (Some m) [])) (?S (?sub Receiving None [m]))"
    using act [OF remote_step.take_msg [of "?sub Receiving (Some m) []"]] by (simp add: sub_take_def)
  have reach: "(system_step ?A std_prims 1)\<^sup>*\<^sup>* (remote_main ?ns) (?S (?sub Receiving None [m]))"
    by (rule run [OF 1 run [OF 2 run [OF 3 run [OF 4 run [OF 5 run [OF 6 rtranclp.rtrancl_refl]]]]]])
  have ok: "\<forall>n. Inr n \<in> set (?ns :: (err + _) list) \<longrightarrow>
      (\<forall>c \<in> set_exex_notification n. bundle_ok (eo_bundle (chain_outcome std_prims c)))"
    using demo_notification_ok by simp
  obtain before since received where *: "[demo_notification] = before @ since"
    "consume std_prims (map Inr [m]) = (received, Inr ())" "length received \<le> length since"
    "list_all2 (rel_exex_notification (same_chain std_prims)) (take (length received) since) received"
    using remote_end_to_end [OF std.codec_prims_ok_axioms reach ok, of 0] by auto
  have "length received = 1" using *(2) by (auto split: sum.splits)
  moreover from this *(1,3) have "since = [demo_notification]" by (cases before; cases since) auto
  ultimately show ?thesis using *(2,4) by (intro exI [of _ "?sub Receiving None [m]"] exI [of _ received]) simp
qed

end
