(* ===== verification/Exex_Tests.thy ===== *)
theory Exex_Tests
  imports Op_Bridge Small_Exex
begin

text \<open>
  The tests that come with the OP bridge, the in-memory ExEx and the minimal ExEx, as the
  computation each of them performs, with its assertions as the value, and the proof that they
  hold for every choice of the blocks, addresses and keys that the tests draw at random.
\<close>

section \<open>The test of the OP bridge\<close>

text \<open>
  A transaction to the bridge, told apart by its key, and the logs of its receipt; the accessors of
  the chain that the test builds, for a given way to print hashes, addresses and amounts.
\<close>

type_synonym test_tx = "address \<times> nat"
type_synonym test_log = "address \<times> bridge_event"
type_synonym test_block = "u64 \<times> test_tx list"
type_synonym test_chain = "(test_block \<times> test_log list list) list"

definition construct_tx_and_receipt :: "address \<Rightarrow> bridge_event \<Rightarrow> nat \<Rightarrow> test_tx \<times> test_log list" where
  "construct_tx_and_receipt to_addr event key = ((to_addr, key), [(to_addr, event)])"

definition test_bridge_api ::
  "(test_tx \<Rightarrow> string) \<Rightarrow> (address \<Rightarrow> string) \<Rightarrow> (u256 \<Rightarrow> string) \<Rightarrow> (test_chain, test_block, test_tx, test_log list, test_log) bridge_api" where
  "test_bridge_api hash address amount =
     \<lparr>blocks_and_receipts = (\<lambda>chain. chain), transactions_of = snd, logs_of = (\<lambda>logs. logs), log_address = fst,
      decode_bridge_log = (\<lambda>log. Some (snd log)), block_number_of = fst, tx_hash_text = hash, address_text = address, amount_text = amount\<rparr>"

definition op_bridge_test_exex ::
  "(test_tx \<Rightarrow> string) \<Rightarrow> (address \<Rightarrow> string) \<Rightarrow> (u256 \<Rightarrow> string) \<Rightarrow> address \<Rightarrow> address \<Rightarrow> nat \<Rightarrow> nat \<Rightarrow> bool" where
  "op_bridge_test_exex hash address amount from_address to_address key1 key2 =
     (let B = test_bridge_api hash address amount;
          exex = \<lparr>ob_db = create_bridge_tables None, ob_events = \<lparr>finished_heights = [], receiver_gone = False\<rparr>\<rparr>;
          (deposit_tx, deposit_tx_receipt) =
            construct_tx_and_receipt (OP_BRIDGES ! 0) (ETHBridgeInitiated 100 from_address to_address) key1;
          (withdrawal_tx, withdrawal_tx_receipt) =
            construct_tx_and_receipt (OP_BRIDGES ! 1) (ETHBridgeFinalized 200 from_address to_address) key2;
          block = (0, [deposit_tx, withdrawal_tx]);
          chain = [(block, [deposit_tx_receipt, withdrawal_tx_receipt])];
          A = std_exex_api (\<lambda>c. map (fst \<circ> fst) c);
          (result, exex) = op_bridge_exex A B [Inr (ChainCommitted chain)] exex;
          committed = (result = Inr () \<and>
            deposits (ob_db exex) = [(hash deposit_tx, \<lparr>br_block_number = 0, br_contract_address = address (OP_BRIDGES ! 0),
              br_from = address from_address, br_to = address to_address, br_amount = amount 100\<rparr>)] \<and>
            withdrawals (ob_db exex) = [(hash withdrawal_tx, \<lparr>br_block_number = 0, br_contract_address = address (OP_BRIDGES ! 1),
              br_from = address from_address, br_to = address to_address, br_amount = amount 200\<rparr>)]);
          (result, exex) = op_bridge_exex A B [Inr (ChainReverted chain)] exex
      in committed \<and> result = Inr () \<and> deposits (ob_db exex) = [] \<and> withdrawals (ob_db exex) = [])"

lemma op_bridge_test_passes: "op_bridge_test_exex hash address amount from_address to_address key1 key2"
  by (simp add: op_bridge_test_exex_def construct_tx_and_receipt_def op_bridge_exex_def op_bridge_step_def test_bridge_api_def
      create_bridge_tables_def std_exex_api_def commit_bridge_chain_def revert_bridge_chain_def decode_chain_into_events_def
      logs_from_def OP_BRIDGES_def List.map_filter_simps insert_bridge_row_def bind_u64_def insert_row_def delete_rows_def bridge_row_of_def send_event_def Let_def)

section \<open>The test of the in-memory ExEx\<close>

text \<open>Two chains of one block are committed one after the other, and the second is reverted.\<close>

definition in_memory_test_exex :: "('c, 'h, 'o) state_api \<Rightarrow> 'o \<Rightarrow> 'c \<Rightarrow> 'c \<Rightarrow> bool" where
  "in_memory_test_exex A default_outcome chain_1 chain_2 =
     (let exex = new_state_exex default_outcome;
          expected_state = default_outcome;
          block_number_1 = first_number A chain_1;
          expected_state = extend_outcome A expected_state (outcome_of A chain_1);
          (result1, exex) = in_memory_exex A [Inr (ChainCommitted chain_1)] exex;
          assertion1 = (execution_outcome exex = expected_state);
          expected_state = extend_outcome A expected_state (outcome_of A chain_2);
          (result2, exex) = in_memory_exex A [Inr (ChainCommitted chain_2)] exex;
          assertion2 = (execution_outcome exex = expected_state);
          (result3, exex) = in_memory_exex A [Inr (ChainReverted chain_2)] exex;
          expected_state = snd (revert_outcome_to A block_number_1 expected_state)
      in assertion1 \<and> assertion2 \<and> execution_outcome exex = expected_state \<and>
         result1 = Inr () \<and> result2 = Inr () \<and> result3 = Inr ())"

lemma in_memory_test_passes:
  "exex_api_ok A \<Longrightarrow> first_number A chain_1 = 0 \<Longrightarrow> first_number A chain_2 = 1 \<Longrightarrow>
     in_memory_test_exex A default_outcome chain_1 chain_2"
  by (simp add: in_memory_test_exex_def in_memory_exex_def state_step_def new_state_exex_def revert_before_def Let_def)

section \<open>The test of the minimal ExEx\<close>

text \<open>The genesis chain is committed; before the ExEx is polled there is no event, then that of the head.\<close>

definition minimal_test_exex :: "('c, 'h) exex_api \<Rightarrow> 'c \<Rightarrow> 'h \<Rightarrow> bool" where
  "minimal_test_exex A genesis head_num_hash =
     (let events = \<lparr>finished_heights = [], receiver_gone = False\<rparr>;
          events_empty = (finished_heights events = []);
          (result, events) = minimal_exex A [Inr (ChainCommitted genesis)] events
      in events_empty \<and> result = Inr () \<and> finished_heights events = [head_num_hash])"

lemma minimal_test_passes:
  "exex_api_ok A \<Longrightarrow> tip_num_hash A genesis = head_num_hash \<Longrightarrow> minimal_test_exex A genesis head_num_hash"
  by (simp add: minimal_test_exex_def minimal_exex_def minimal_step_def report_committed_def send_event_def)

end
