(* ===== verification/Backfill.thy ===== *)
theory Backfill
  imports Exex_Types
begin

text \<open>
  The backfill ExEx (backfill/src/main.rs and rpc.rs): the messages between the RPC module, the
  ExEx and its backfill tasks, the semaphore that limits the tasks, the map of the jobs that can be
  cancelled, and the steps in which they interleave. The unbounded channel is a list. A task holds
  its permit until its future is dropped, which is after its \<open>select!\<close> and after its last message:
  that makes its three phases. Reth's backfill job is its stream of chains; executing it is not modelled.
\<close>

section \<open>State\<close>

type_synonym block_range = "u64 \<times> u64" \<comment> \<open>inclusive\<close>

datatype backfill_message = StartMsg block_range | CancelMsg u64 | FinishMsg u64

text \<open>What the ExEx answers on the response channel of a message.\<close>

datatype backfill_reply = StartReply "err + u64" | CancelReply "err + unit"

text \<open>
  A task is in its \<open>select!\<close>, listening for a cancellation (\<open>Running\<close>); or its stream has ended,
  it no longer listens and its finish message is still to be sent (\<open>Finished\<close>); or it has nothing
  left to do but drop its permit (\<open>Ending\<close>).
\<close>

datatype task_phase = Running | Finished | Ending

record backfill =
  bf_permits :: nat \<comment> \<open>free permits of the semaphore\<close>
  bf_next_id :: u64
  bf_jobs :: "u64 set" \<comment> \<open>ids with a cancel channel\<close>
  bf_tasks :: "(u64 \<times> block_range \<times> task_phase) list"
  bf_queue :: "backfill_message list"
  bf_replies :: "backfill_reply list"

definition new_backfill :: "nat \<Rightarrow> backfill" where
  "new_backfill limit = \<lparr>bf_permits = limit, bf_next_id = 0, bf_jobs = {}, bf_tasks = [],
     bf_queue = [], bf_replies = []\<rparr>"

definition in_phase :: "task_phase \<Rightarrow> (u64 \<times> block_range \<times> task_phase) list \<Rightarrow> u64 set" where
  "in_phase ph ts = fst ` set (filter (\<lambda>t. snd (snd t) = ph) ts)"

definition ids_of :: "(u64 \<times> block_range \<times> task_phase) list \<Rightarrow> u64 set" where
  "ids_of ts = fst ` set ts"

abbreviation running :: "backfill \<Rightarrow> u64 set" where "running s \<equiv> in_phase Running (bf_tasks s)"

abbreviation finished :: "backfill \<Rightarrow> u64 set" where "finished s \<equiv> in_phase Finished (bf_tasks s)"

abbreviation task_ids :: "backfill \<Rightarrow> u64 set" where "task_ids s \<equiv> ids_of (bf_tasks s)"

fun set_phase :: "u64 \<Rightarrow> task_phase \<Rightarrow> (u64 \<times> block_range \<times> task_phase) list \<Rightarrow> (u64 \<times> block_range \<times> task_phase) list" where
  "set_phase jid ph [] = []"
| "set_phase jid ph ((i, r, q) # ts) = (if i = jid then (i, r, ph) # ts else (i, r, q) # set_phase jid ph ts)"

section \<open>Operations\<close>

definition start_backfill :: "block_range \<Rightarrow> backfill \<Rightarrow> (err + u64) \<times> backfill" where
  "start_backfill blocks s =
     (if bf_permits s = 0 then (Inl (Eyre ''concurrent backfills limit reached''), s)
      else (let job_id = bf_next_id s in
        (Inr job_id, s\<lparr>bf_permits := bf_permits s - 1, bf_next_id := job_id + 1,
           bf_jobs := insert job_id (bf_jobs s),
           bf_tasks := bf_tasks s @ [(job_id, blocks, Running)]\<rparr>)))"

text \<open>
  Cancelling takes the job's channel out of the map and sends on it, which fails when the task no
  longer listens. Otherwise the task stops, and the ExEx waits for it; but if its stream ended at
  the same moment (\<open>raced\<close>), the task's \<open>select!\<close> may take that branch instead.
\<close>

definition cancel_backfill :: "bool \<Rightarrow> u64 \<Rightarrow> backfill \<Rightarrow> (err + unit) \<times> backfill" where
  "cancel_backfill raced job_id s =
     (if job_id \<notin> bf_jobs s then (Inl (Eyre ''backfill job not found''), s)
      else (let s = s\<lparr>bf_jobs := bf_jobs s - {job_id}\<rparr> in
        if job_id \<notin> running s
        then (Inl (Eyre ''failed to cancel backfill job''), s)
        else (Inr (), s\<lparr>bf_tasks := set_phase job_id (if raced then Finished else Ending) (bf_tasks s)\<rparr>)))"

fun handle_backfill_message :: "bool \<Rightarrow> backfill_message \<Rightarrow> backfill \<Rightarrow> backfill" where
  "handle_backfill_message raced (StartMsg blocks) s =
     (case start_backfill blocks s of (r, s) \<Rightarrow> s\<lparr>bf_replies := bf_replies s @ [StartReply r]\<rparr>)"
| "handle_backfill_message raced (CancelMsg job_id) s =
     (case cancel_backfill raced job_id s of (r, s) \<Rightarrow>
        s\<lparr>bf_replies := bf_replies s @ [CancelReply r], bf_jobs := bf_jobs s - {job_id}\<rparr>)"
| "handle_backfill_message raced (FinishMsg job_id) s = s\<lparr>bf_jobs := bf_jobs s - {job_id}\<rparr>"

text \<open>The end of a task: its stream is done, it sends its finish message, its permit drops.\<close>

definition stream_ends :: "u64 \<Rightarrow> backfill \<Rightarrow> backfill" where
  "stream_ends job_id s = s\<lparr>bf_tasks := set_phase job_id Finished (bf_tasks s)\<rparr>"

definition sends_finish :: "u64 \<Rightarrow> backfill \<Rightarrow> backfill" where
  "sends_finish job_id s = s\<lparr>bf_tasks := set_phase job_id Ending (bf_tasks s),
     bf_queue := bf_queue s @ [FinishMsg job_id]\<rparr>"

definition drops_permit :: "u64 \<Rightarrow> backfill \<Rightarrow> backfill" where
  "drops_permit job_id s = s\<lparr>bf_tasks := filter (\<lambda>t. fst t \<noteq> job_id) (bf_tasks s),
     bf_permits := bf_permits s + 1\<rparr>"

text \<open>
  The RPC module's \<open>send_backfill_message\<close>: a start or cancel message goes on the channel, and the
  reply comes back on a channel of its own, whose sender is dropped without a reply (\<open>None\<close>) when
  the ExEx stops first. Both transport failures and the ExEx's own error become internal errors.
\<close>

fun rpc_message :: "backfill_message \<Rightarrow> bool" where
  "rpc_message (StartMsg _) = True"
| "rpc_message (CancelMsg _) = True"
| "rpc_message (FinishMsg _) = False"

definition send_backfill_message :: "bool \<Rightarrow> (err + 'a) option \<Rightarrow> err + 'a" where
  "send_backfill_message exex_gone reply =
     (if exex_gone then Inl (External ''failed to send backfill message request'')
      else and_then (ok_or (External ''failed to receive backfill message response'') reply) (\<lambda>r. r))"

text \<open>What the ExEx and its tasks can do by themselves, and the steps including new requests.\<close>

inductive exex_step :: "backfill \<Rightarrow> backfill \<Rightarrow> bool" where
  handle: "bf_queue s = m # q \<Longrightarrow> exex_step s (handle_backfill_message raced m (s\<lparr>bf_queue := q\<rparr>))"
| stream_end: "job_id \<in> running s \<Longrightarrow> exex_step s (stream_ends job_id s)"
| send_finish: "job_id \<in> finished s \<Longrightarrow> exex_step s (sends_finish job_id s)"
| release: "job_id \<in> in_phase Ending (bf_tasks s) \<Longrightarrow> exex_step s (drops_permit job_id s)"

inductive backfill_step :: "backfill \<Rightarrow> backfill \<Rightarrow> bool" where
  rpc: "rpc_message m \<Longrightarrow> backfill_step s (s\<lparr>bf_queue := bf_queue s @ [m]\<rparr>)"
| exex: "exex_step s s' \<Longrightarrow> backfill_step s s'"

inductive_simps exex_step_from: "exex_step s s'"

text \<open>The states after \<open>k\<close> steps with \<open>limit\<close> permits.\<close>

inductive backfill_run :: "nat \<Rightarrow> nat \<Rightarrow> backfill \<Rightarrow> bool" for limit where
  start: "backfill_run limit 0 (new_backfill limit)"
| step: "backfill_run limit k s \<Longrightarrow> backfill_step s s' \<Longrightarrow> backfill_run limit (Suc k) s'"

section \<open>The range given on the command line, and the stream of a job\<close>

text \<open>\<open>BlockNumberOrTag::Latest\<close> stands in for a missing end when a start is given.\<close>

datatype 'id block_id = LatestBlock | GivenBlock 'id

definition backfill_args_range ::
  "('id block_id \<Rightarrow> err + u64 option) \<Rightarrow> u64 option \<Rightarrow> 'id option \<Rightarrow> err + block_range option" where
  "backfill_args_range block_number_for_id from_block to_block =
     (case (case to_block of Some b \<Rightarrow> Some (GivenBlock b)
          | None \<Rightarrow> if from_block \<noteq> None then Some LatestBlock else None) of
        None \<Rightarrow> Inr None
      | Some to_block \<Rightarrow>
          and_then (block_number_for_id to_block) (\<lambda>n.
          and_then (ok_or (Eyre ''end of range block number for backfill is not found'') n) (\<lambda>to_block.
          Inr (Some (case from_block of None \<Rightarrow> 1 | Some f \<Rightarrow> f, to_block)))))"

text \<open>Reth's \<open>chain.blocks()\<close> and \<open>block.transaction_count()\<close>.\<close>

record ('c, 'b) block_api =
  blocks_in :: "'c \<Rightarrow> 'b list"
  transaction_count :: "'b \<Rightarrow> nat"

text \<open>The numbers of blocks and transactions that processing a chain logs.\<close>

definition process_committed_chain :: "('c, 'b) block_api \<Rightarrow> 'c \<Rightarrow> err + nat \<times> nat" where
  "process_committed_chain B chain =
     (let blocks = length (blocks_in B chain);
          transactions = sum_list (map (transaction_count B) (blocks_in B chain))
      in Inr (blocks, transactions))"

text \<open>What was logged before the stream ends or fails, and the outcome.\<close>

fun backfill_with_job :: "('c, 'b) block_api \<Rightarrow> (err + 'c) list \<Rightarrow> (nat \<times> nat) list \<times> (err + unit)" where
  "backfill_with_job B [] = ([], Inr ())"
| "backfill_with_job B (Inl e # st) = ([], Inl e)"
| "backfill_with_job B (Inr chain # st) =
     (case process_committed_chain B chain of
        Inl e \<Rightarrow> ([], Inl e)
      | Inr counts \<Rightarrow> (case backfill_with_job B st of (cs, r) \<Rightarrow> (counts # cs, r)))"

section \<open>Notifications\<close>

definition backfill_notification ::
  "('c, 'b) block_api \<Rightarrow> ('c, 'h) exex_api \<Rightarrow> 'c exex_notification \<Rightarrow> 'h events \<Rightarrow> (err + unit) \<times> 'h events" where
  "backfill_notification B A n ev =
     (case committed_chain A n of
        None \<Rightarrow> (Inr (), ev)
      | Some c \<Rightarrow>
          (case and_then (process_committed_chain B c) (\<lambda>_. send_event (tip_num_hash A c) ev) of
             Inl e \<Rightarrow> (Inl e, ev)
           | Inr ev \<Rightarrow> (Inr (), ev)))"

interpretation backfill: exex_handler A "backfill_notification B A" finished_heights for A B
  by unfold_locales
    (auto simp: backfill_notification_def process_committed_chain_def owed_heights_def send_event_def
      split: sum.splits option.splits if_splits)

section \<open>The invariant\<close>

text \<open>The jobs whose finish message is in the channel.\<close>

definition finishing :: "backfill_message list \<Rightarrow> u64 set" where
  "finishing q = {jid. FinishMsg jid \<in> set q}"

abbreviation pending :: "backfill \<Rightarrow> u64 set" where "pending s \<equiv> finishing (bf_queue s)"

definition backfill_inv :: "nat \<Rightarrow> nat \<Rightarrow> backfill \<Rightarrow> bool" where
  "backfill_inv limit k s \<longleftrightarrow>
     length (bf_tasks s) + bf_permits s = limit \<and> distinct (map fst (bf_tasks s)) \<and>
     unat (bf_next_id s) \<le> k \<and>
     (\<forall>jid \<in> task_ids s \<union> bf_jobs s \<union> pending s. jid < bf_next_id s) \<and>
     running s \<subseteq> bf_jobs s \<and> bf_jobs s \<subseteq> running s \<union> finished s \<union> pending s \<and>
     pending s \<inter> (running s \<union> finished s) = {}"

lemma set_phase_keys [simp]:
  "map fst (set_phase jid ph ts) = map fst ts" "length (set_phase jid ph ts) = length ts"
  "ids_of (set_phase jid ph ts) = ids_of ts"
proof -
  show keys: "map fst (set_phase jid ph ts) = map fst ts"
    by (induction jid ph ts rule: set_phase.induct) auto
  then show "length (set_phase jid ph ts) = length ts" by (metis length_map)
  from keys show "ids_of (set_phase jid ph ts) = ids_of ts" by (metis ids_of_def set_map)
qed

lemma ids_of_simps [simp]:
  "ids_of [] = {}" "ids_of (t # ts) = insert (fst t) (ids_of ts)" "ids_of (ts @ us) = ids_of ts \<union> ids_of us"
  "ids_of (filter (\<lambda>t. fst t \<noteq> jid) ts) = ids_of ts - {jid}"
  by (auto simp: ids_of_def)

lemma distinct_ids: "fst ` set ts = ids_of ts"
  by (simp add: ids_of_def)

lemma in_phase_simps [simp]:
  "in_phase ph [] = {}"
  "in_phase ph (t # ts) = (if snd (snd t) = ph then {fst t} else {}) \<union> in_phase ph ts"
  "in_phase ph (ts @ us) = in_phase ph ts \<union> in_phase ph us"
  "in_phase ph (filter (\<lambda>t. fst t \<noteq> jid) ts) = in_phase ph ts - {jid}"
  by (auto simp: in_phase_def)

lemma in_phase_subset: "in_phase ph ts \<subseteq> ids_of ts"
  by (auto simp: in_phase_def ids_of_def)

lemma in_phase_set_phase:
  "distinct (map fst ts) \<Longrightarrow> jid \<in> ids_of ts \<Longrightarrow>
   in_phase ph (set_phase jid q ts)
     = (if ph = q then insert jid (in_phase ph ts) else in_phase ph ts - {jid})"
proof (induction ts)
  case (Cons t ts)
  obtain i r p where t: "t = (i, r, p)" by (cases t)
  show ?case
  proof (cases "i = jid")
    case True
    with Cons.prems t have "jid \<notin> in_phase ph ts" using in_phase_subset by (auto simp: distinct_ids)
    with t True show ?thesis by auto
  qed (use Cons t in \<open>auto simp: distinct_ids\<close>)
qed simp

lemma phases_distinct:
  "distinct (map fst ts) \<Longrightarrow> jid \<in> in_phase ph ts \<Longrightarrow> jid \<in> in_phase q ts \<Longrightarrow> ph = q"
proof (induction ts)
  case (Cons t ts)
  then show ?case using in_phase_subset[of ph ts] in_phase_subset[of q ts] by (auto simp: distinct_ids split: if_splits)
qed simp

lemma finishing_simps [simp]:
  "finishing [] = {}"
  "finishing (m # q) = (case m of FinishMsg jid \<Rightarrow> {jid} | _ \<Rightarrow> {}) \<union> finishing q"
  "finishing (q @ r) = finishing q \<union> finishing r"
  by (auto simp: finishing_def split: backfill_message.splits)

lemma filter_one_key:
  "distinct (map fst ts) \<Longrightarrow> jid \<in> ids_of ts \<Longrightarrow> Suc (length (filter (\<lambda>t. fst t \<noteq> jid) ts)) = length ts"
proof (induction ts)
  case (Cons t ts)
  show ?case
  proof (cases "fst t = jid")
    case True
    with Cons.prems have "\<forall>u \<in> set ts. fst u \<noteq> jid" by (metis distinct.simps(2) image_eqI list.simps(9) set_map)
    then have "filter (\<lambda>t. fst t \<noteq> jid) ts = ts" by (simp add: filter_id_conv)
    with True show ?thesis by simp
  qed (use Cons in \<open>auto simp: distinct_ids\<close>)
qed simp

lemma next_id_fresh: "x < n \<Longrightarrow> unat n \<le> k \<Longrightarrow> Suc k < 2 ^ 64 \<Longrightarrow> x < n + (1 :: u64)"
  by (simp add: word_less_nat_alt unat_word_ariths)

lemma next_id_bound: "unat (n :: u64) \<le> k \<Longrightarrow> unat (n + 1) \<le> Suc k"
  by (simp add: unat_word_ariths le_trans [OF mod_less_eq_dividend])

lemma next_id_new: "unat (n :: u64) \<le> k \<Longrightarrow> Suc k < 2 ^ 64 \<Longrightarrow> n < n + 1"
  by (simp add: word_less_nat_alt unat_word_ariths)

section \<open>Every step keeps the invariant\<close>

lemma start_inv:
  assumes inv: "backfill_inv limit k s" and bound: "Suc k < 2 ^ 64"
    and st: "start_backfill blocks s = (r, s')"
  shows "backfill_inv limit (Suc k) s'"
proof (cases "bf_permits s = 0")
  case True
  with assms show ?thesis by (auto simp: start_backfill_def backfill_inv_def)
next
  case False
  let ?n = "bf_next_id s"
  from inv have k: "unat ?n \<le> k" by (simp add: backfill_inv_def)
  have fresh: "?n \<notin> task_ids s \<union> bf_jobs s \<union> pending s" using inv by (auto simp: backfill_inv_def)
  have old: "\<forall>jid \<in> task_ids s \<union> bf_jobs s \<union> pending s. jid < ?n + 1"
    using inv next_id_fresh[OF _ k bound] by (simp add: backfill_inv_def)
  have s': "s' = s\<lparr>bf_permits := bf_permits s - 1, bf_next_id := ?n + 1, bf_jobs := insert ?n (bf_jobs s),
      bf_tasks := bf_tasks s @ [(?n, blocks, Running)]\<rparr>"
    using st False by (simp add: start_backfill_def Let_def)
  show ?thesis
    using inv False fresh old next_id_bound[OF k] next_id_new[OF k bound]
    unfolding s' backfill_inv_def by (auto simp: distinct_ids)
qed

lemma cancel_inv:
  assumes inv: "backfill_inv limit k s" and c: "cancel_backfill raced jid s = (r, s')"
  shows "backfill_inv limit k s'"
proof (cases "jid \<in> running s")
  case False
  with c have "s' = s \<or> s' = s\<lparr>bf_jobs := bf_jobs s - {jid}\<rparr>"
    by (auto simp: cancel_backfill_def Let_def split: if_splits)
  with inv False show ?thesis by (auto simp: backfill_inv_def)
next
  case True
  then have key: "jid \<in> task_ids s" using in_phase_subset by (rule rev_subsetD)
  from True inv c have s':
    "s' = s\<lparr>bf_jobs := bf_jobs s - {jid}, bf_tasks := set_phase jid (if raced then Finished else Ending) (bf_tasks s)\<rparr>"
    by (auto simp: cancel_backfill_def backfill_inv_def Let_def split: if_splits)
  have "jid \<notin> pending s" using inv True by (auto simp: backfill_inv_def)
  with inv key show ?thesis unfolding s' by (auto simp: backfill_inv_def in_phase_set_phase)
qed

lemma handle_inv:
  assumes inv: "backfill_inv limit k s" and bound: "Suc k < 2 ^ 64" and q: "bf_queue s = m # q"
  shows "backfill_inv limit (Suc k) (handle_backfill_message raced m (s\<lparr>bf_queue := q\<rparr>))"
proof -
  have weaken: "backfill_inv limit k t \<Longrightarrow> backfill_inv limit (Suc k) t" for t
    by (simp add: backfill_inv_def)
  show ?thesis
  proof (cases m)
    case (StartMsg blocks)
    with inv q have "backfill_inv limit k (s\<lparr>bf_queue := q\<rparr>)" by (simp add: backfill_inv_def)
    from start_inv[OF this bound] have
      "backfill_inv limit (Suc k) (snd (start_backfill blocks (s\<lparr>bf_queue := q\<rparr>)))"
      by (metis prod.collapse)
    with StartMsg show ?thesis by (simp add: backfill_inv_def case_prod_beta)
  next
    case (CancelMsg jid)
    with inv q have "backfill_inv limit k (s\<lparr>bf_queue := q\<rparr>)" by (simp add: backfill_inv_def)
    from cancel_inv[OF this] have
      "backfill_inv limit k (snd (cancel_backfill raced jid (s\<lparr>bf_queue := q\<rparr>)))"
      by (metis prod.collapse)
    moreover have "jid \<notin> bf_jobs (snd (cancel_backfill raced jid (s\<lparr>bf_queue := q\<rparr>)))"
      by (simp add: cancel_backfill_def Let_def)
    ultimately show ?thesis using CancelMsg
      by (intro weaken) (simp add: backfill_inv_def case_prod_beta)
  next
    case (FinishMsg jid)
    with inv q have "jid \<notin> running s" "jid \<notin> finished s" by (auto simp: backfill_inv_def)
    with inv q FinishMsg show ?thesis by (intro weaken) (auto simp: backfill_inv_def)
  qed
qed

lemma exex_step_inv:
  assumes "exex_step s s'" "backfill_inv limit k s" "Suc k < 2 ^ 64"
  shows "backfill_inv limit (Suc k) s'"
  using assms
proof (induction rule: exex_step.induct)
  case (handle s m q raced)
  then show ?case by (intro handle_inv) auto
next
  case (stream_end jid s)
  then have "jid \<in> task_ids s" using in_phase_subset by auto
  moreover have "jid \<notin> pending s" using stream_end by (auto simp: backfill_inv_def)
  ultimately show ?case using stream_end
    by (auto simp: stream_ends_def backfill_inv_def in_phase_set_phase)
next
  case (send_finish jid s)
  then have key: "jid \<in> task_ids s" using in_phase_subset by auto
  have "jid \<notin> running s" using send_finish phases_distinct[of "bf_tasks s" jid Finished Running]
    by (auto simp: backfill_inv_def)
  with send_finish key show ?case
    by (auto simp: sends_finish_def backfill_inv_def in_phase_set_phase)
next
  case (release jid s)
  then have key: "jid \<in> task_ids s" and keys: "distinct (map fst (bf_tasks s))"
    using in_phase_subset by (auto simp: backfill_inv_def)
  have "jid \<notin> running s" "jid \<notin> finished s"
    using phases_distinct[OF keys release(1)] by blast+
  moreover have "distinct (map fst (filter (\<lambda>t. fst t \<noteq> jid) (bf_tasks s)))"
    using keys by (rule distinct_map_filter)
  ultimately show ?case using release filter_one_key[OF keys key]
    by (auto simp: drops_permit_def backfill_inv_def)
qed

lemma step_inv:
  assumes "backfill_step s s'" "backfill_inv limit k s" "Suc k < 2 ^ 64"
  shows "backfill_inv limit (Suc k) s'"
  using assms(1)
proof (cases rule: backfill_step.cases)
  case (rpc m)
  with assms(2) show ?thesis by (cases m) (auto simp: backfill_inv_def)
qed (rule exex_step_inv [OF _ assms(2,3)])

lemma run_inv: "backfill_run limit k s \<Longrightarrow> k < 2 ^ 64 \<Longrightarrow> backfill_inv limit k s"
proof (induction rule: backfill_run.induct)
  case start
  then show ?case by (simp add: new_backfill_def backfill_inv_def)
next
  case (step k s s')
  then show ?case using step_inv by auto
qed

text \<open>The ids handed out, in order.\<close>

definition started_ids :: "backfill \<Rightarrow> u64 list" where
  "started_ids s = concat (map (\<lambda>r. case r of StartReply (Inr jid) \<Rightarrow> [jid] | _ \<Rightarrow> []) (bf_replies s))"

definition ids_inv :: "nat \<Rightarrow> backfill \<Rightarrow> bool" where
  "ids_inv k s \<longleftrightarrow> distinct (started_ids s) \<and> (\<forall>jid \<in> set (started_ids s). jid < bf_next_id s) \<and> unat (bf_next_id s) \<le> k"

lemma exex_step_ids_inv:
  assumes "exex_step s s'" "ids_inv k s" "Suc k < 2 ^ 64"
  shows "ids_inv (Suc k) s'"
  using assms
proof (induction rule: exex_step.induct)
  case (handle s m q raced)
  show ?case
  proof (cases m)
    case (StartMsg blocks)
    from handle have k: "unat (bf_next_id s) \<le> k" by (simp add: ids_inv_def)
    show ?thesis using handle StartMsg next_id_bound[OF k] next_id_new[OF k] next_id_fresh[OF _ k]
      by (auto simp: ids_inv_def started_ids_def start_backfill_def Let_def)
  next
    case (CancelMsg jid)
    then show ?thesis using handle by (auto simp: ids_inv_def started_ids_def cancel_backfill_def Let_def)
  qed (use handle in \<open>auto simp: ids_inv_def started_ids_def\<close>)
qed (auto simp: ids_inv_def started_ids_def stream_ends_def sends_finish_def drops_permit_def)

lemma step_ids_inv:
  assumes "backfill_step s s'" "ids_inv k s" "Suc k < 2 ^ 64"
  shows "ids_inv (Suc k) s'"
  using assms(1)
proof (cases rule: backfill_step.cases)
  case (rpc m)
  with assms(2) show ?thesis by (simp add: ids_inv_def started_ids_def)
qed (rule exex_step_ids_inv [OF _ assms(2,3)])

lemma run_ids_inv: "backfill_run limit k s \<Longrightarrow> k < 2 ^ 64 \<Longrightarrow> ids_inv k s"
proof (induction rule: backfill_run.induct)
  case start
  then show ?case by (simp add: new_backfill_def ids_inv_def started_ids_def)
next
  case (step k s s')
  then show ?case using step_ids_inv by auto
qed

section \<open>Without new requests the ExEx comes to rest\<close>

fun phase_weight :: "task_phase \<Rightarrow> nat" where
  "phase_weight Running = 5"
| "phase_weight Finished = 4"
| "phase_weight Ending = 1"

fun message_weight :: "backfill_message \<Rightarrow> nat" where
  "message_weight (StartMsg _) = 6"
| "message_weight _ = 1"

definition backfill_weight :: "backfill \<Rightarrow> nat" where
  "backfill_weight s = sum_list (map message_weight (bf_queue s)) + (\<Sum>t \<leftarrow> bf_tasks s. phase_weight (snd (snd t)))"

lemma set_phase_weight:
  "distinct (map fst ts) \<Longrightarrow> jid \<in> in_phase p ts \<Longrightarrow>
   (\<Sum>t \<leftarrow> set_phase jid q ts. phase_weight (snd (snd t))) + phase_weight p
     = (\<Sum>t \<leftarrow> ts. phase_weight (snd (snd t))) + phase_weight q"
proof (induction ts)
  case (Cons t ts)
  have "fst t \<notin> in_phase p ts" using Cons.prems(1) in_phase_subset[of p ts] by (auto simp: distinct_ids)
  with Cons show ?case by (cases t) (auto split: if_splits)
qed simp

lemma filter_weight:
  "jid \<in> in_phase p ts \<Longrightarrow>
   (\<Sum>t \<leftarrow> filter (\<lambda>t. fst t \<noteq> jid) ts. phase_weight (snd (snd t))) < (\<Sum>t \<leftarrow> ts. phase_weight (snd (snd t)))"
proof (induction ts)
  case (Cons t ts)
  have pos: "0 < phase_weight (snd (snd t))" by (cases "snd (snd t)") auto
  have le: "(\<Sum>t \<leftarrow> filter f ts. phase_weight (snd (snd t))) \<le> (\<Sum>t \<leftarrow> ts. phase_weight (snd (snd t)))" for f
    by (induction ts) auto
  show ?case
  proof (cases "fst t = jid")
    case True
    with pos le show ?thesis by (simp add: add_strict_increasing le_less_trans add.commute)
  qed (use Cons in \<open>auto split: if_splits\<close>)
qed simp

lemma exex_step_weight:
  assumes "exex_step s s'" "distinct (map fst (bf_tasks s))"
  shows "backfill_weight s' < backfill_weight s"
  using assms
proof (induction rule: exex_step.induct)
  case (handle s m q raced)
  show ?case
  proof (cases m)
    case (CancelMsg jid)
    show ?thesis
    proof (cases "jid \<in> running s")
      case True
      from set_phase_weight[OF handle(2) True, of "if raced then Finished else Ending"] CancelMsg handle
      show ?thesis by (auto simp: backfill_weight_def cancel_backfill_def Let_def split: if_splits)
    qed (use handle CancelMsg in \<open>auto simp: backfill_weight_def cancel_backfill_def Let_def\<close>)
  qed (use handle in \<open>auto simp: backfill_weight_def start_backfill_def Let_def\<close>)
next
  case (stream_end jid s)
  then show ?case using set_phase_weight[of "bf_tasks s" jid Running Finished]
    by (auto simp: backfill_weight_def stream_ends_def)
next
  case (send_finish jid s)
  then show ?case using set_phase_weight[of "bf_tasks s" jid Finished Ending]
    by (auto simp: backfill_weight_def sends_finish_def)
next
  case (release jid s)
  then show ?case using filter_weight by (auto simp: backfill_weight_def drops_permit_def)
qed

lemma at_rest:
  assumes "\<nexists>s'. exex_step s s'"
  shows "bf_queue s = []" "bf_tasks s = []"
proof -
  show "bf_queue s = []" using assms exex_step.handle by (metis list.exhaust)
  show "bf_tasks s = []"
  proof (cases "bf_tasks s")
    case (Cons t ts)
    have "fst t \<in> in_phase (snd (snd t)) (bf_tasks s)" by (simp add: Cons)
    with assms show ?thesis
      by (cases "snd (snd t)") (auto intro: exex_step.intros)
  qed simp
qed

lemma exex_steps_run:
  "(exex_step ^^ n) s s' \<Longrightarrow> backfill_run limit k s \<Longrightarrow> backfill_run limit (k + n) s'"
proof (induction n arbitrary: s')
  case (Suc n)
  then obtain t where "(exex_step ^^ n) s t" "exex_step t s'" by auto
  with Suc show ?case using backfill_run.step backfill_step.exex by fastforce
qed simp

lemma exex_steps_weight:
  "(exex_step ^^ n) s s' \<Longrightarrow> backfill_run limit k s \<Longrightarrow> k + n < 2 ^ 64 \<Longrightarrow>
     n + backfill_weight s' \<le> backfill_weight s"
proof (induction n arbitrary: s')
  case (Suc n)
  then obtain t where t: "(exex_step ^^ n) s t" "exex_step t s'" by auto
  have "backfill_inv limit (k + n) t"
    using run_inv exex_steps_run[OF t(1) Suc.prems(2)] Suc.prems(3) by auto
  then have "backfill_weight s' < backfill_weight t"
    using exex_step_weight[OF t(2)] by (simp add: backfill_inv_def)
  with Suc.IH[OF t(1) Suc.prems(2)] Suc.prems(3) show ?case by simp
qed simp

section \<open>Tasks only move forward\<close>

text \<open>The phases in the order a task goes through them.\<close>

fun phase_rank :: "task_phase \<Rightarrow> nat" where
  "phase_rank Running = 0"
| "phase_rank Finished = 1"
| "phase_rank Ending = 2"

instantiation task_phase :: linorder
begin

definition less_eq_task_phase :: "task_phase \<Rightarrow> task_phase \<Rightarrow> bool" where
  "less_eq_task_phase p q = (phase_rank p \<le> phase_rank q)"

definition less_task_phase :: "task_phase \<Rightarrow> task_phase \<Rightarrow> bool" where
  "less_task_phase p q = (phase_rank p < phase_rank q)"

instance
proof
  fix p q :: task_phase
  assume "p \<le> q" "q \<le> p"
  then show "p = q" by (cases p; cases q) (simp_all add: less_eq_task_phase_def)
qed (auto simp: less_eq_task_phase_def less_task_phase_def)

end

lemmas phase_order = less_eq_task_phase_def less_task_phase_def

lemma phase_order_simps [simp]:
  "Running \<le> p" "p \<le> Ending" "Finished \<le> Finished" "\<not> Ending \<le> Finished"
  by (cases p; simp add: phase_order)+

lemma phase_kept: "distinct (map fst ts) \<Longrightarrow> i \<in> in_phase p ts \<Longrightarrow> i \<in> in_phase q ts \<Longrightarrow> p \<le> q"
  using phases_distinct by fastforce

lemma set_phase_forward:
  assumes keys: "distinct (map fst ts)" and jid: "jid \<in> in_phase p ts" and "p \<le> q"
    and i: "i \<in> in_phase p' ts" and i': "i \<in> in_phase q' (set_phase jid q ts)"
  shows "p' \<le> q'"
proof (cases "i = jid")
  case True
  have "jid \<in> ids_of ts" using jid in_phase_subset by blast
  with keys i' True have "q' = q" using in_phase_set_phase [of ts jid q' q] by (cases "q' = q") auto
  moreover have "p' = p" using phases_distinct [OF keys] i jid True by blast
  ultimately show ?thesis using \<open>p \<le> q\<close> by simp
next
  case False
  have "jid \<in> ids_of ts" using jid in_phase_subset by blast
  with keys i' False have "i \<in> in_phase q' ts"
    using in_phase_set_phase [of ts jid q' q] by (cases "q' = q") auto
  with keys i show ?thesis by (rule phase_kept)
qed

lemma tasks_move_forward:
  assumes "exex_step s s'" "backfill_inv limit k s" "jid \<in> in_phase p (bf_tasks s)" "jid \<in> in_phase q (bf_tasks s')"
  shows "p \<le> q"
  using assms
proof (induction rule: exex_step.induct)
  case (handle s m qu raced)
  then have keys: "distinct (map fst (bf_tasks s))" by (simp add: backfill_inv_def)
  have "jid \<in> task_ids s" using handle in_phase_subset by blast
  then have old: "jid \<noteq> bf_next_id s" using handle by (auto simp: backfill_inv_def)
  note fwd = set_phase_forward [OF keys _ phase_order_simps(1) handle(3)] and kept = phase_kept [OF keys handle(3)]
  show ?case
  proof (cases m)
    case (CancelMsg i)
    with handle(4) show ?thesis
      by (auto simp: cancel_backfill_def Let_def split: if_splits intro: fwd kept)
  qed (use handle(4) old in
      \<open>auto simp: start_backfill_def Let_def split: if_splits intro: kept\<close>)
next
  case (stream_end i s)
  then show ?case
    using set_phase_forward [of "bf_tasks s" i Running Finished jid p q]
    by (simp add: stream_ends_def backfill_inv_def)
next
  case (send_finish i s)
  then show ?case
    using set_phase_forward [of "bf_tasks s" i Finished Ending jid p q]
    by (simp add: sends_finish_def backfill_inv_def)
next
  case (release i s)
  then show ?case using phase_kept [of "bf_tasks s" jid p q]
    by (simp add: drops_permit_def backfill_inv_def)
qed

section \<open>Properties\<close>

text \<open>Two requests for jobs under a limit of one: the second is refused.\<close>

definition demo_backfill :: "backfill" where
  "demo_backfill = fold (handle_backfill_message False) [StartMsg (1, 2), StartMsg (3, 4)] (new_backfill 1)"

lemma demo_backfill_eq:
  "demo_backfill = \<lparr>bf_permits = 0, bf_next_id = 1, bf_jobs = {0}, bf_tasks = [(0, (1, 2), Running)],
     bf_queue = [], bf_replies = [StartReply (Inr 0), StartReply (Inl (Eyre ''concurrent backfills limit reached''))]\<rparr>"
  by (simp add: demo_backfill_def new_backfill_def start_backfill_def)

lemma run_request:
  assumes "backfill_run limit k s" "bf_queue s = []" "rpc_message m"
  shows "backfill_run limit (Suc (Suc k)) (handle_backfill_message raced m s)"
proof -
  from assms(1) backfill_step.rpc[OF assms(3)]
  have "backfill_run limit (Suc k) (s\<lparr>bf_queue := bf_queue s @ [m]\<rparr>)" by (rule backfill_run.step)
  moreover have "exex_step (s\<lparr>bf_queue := bf_queue s @ [m]\<rparr>) (handle_backfill_message raced m (s\<lparr>bf_queue := bf_queue s @ [m], bf_queue := []\<rparr>))"
    using assms(2) by (intro exex_step.handle) simp
  ultimately have "backfill_run limit (Suc (Suc k))
      (handle_backfill_message raced m (s\<lparr>bf_queue := bf_queue s @ [m], bf_queue := []\<rparr>))"
    by (rule backfill_run.step [OF _ backfill_step.exex])
  moreover have "s\<lparr>bf_queue := bf_queue s @ [m], bf_queue := []\<rparr> = s" using assms(2) by (cases s) simp
  ultimately show ?thesis by simp
qed

lemma demo_backfill_run: "backfill_run 1 4 demo_backfill"
proof -
  have "backfill_run 1 2 (handle_backfill_message False (StartMsg (1, 2)) (new_backfill 1))"
    using run_request[OF backfill_run.start, where m = "StartMsg (1, 2)" and raced = False, of 1]
    by (simp add: new_backfill_def numeral_2_eq_2)
  from run_request[OF this, where m = "StartMsg (3, 4)" and raced = False] show ?thesis
    by (simp add: demo_backfill_def new_backfill_def start_backfill_def numeral_eq_Suc)
qed

text \<open>
  Property C9. Bookkeeping of the backfill ExEx: in every reachable state each task holds exactly
  one of the permits, no two tasks have the same id and no id was ever handed out twice; every
  running task can be cancelled, and the map of cancellable jobs holds nothing else than running
  tasks and tasks whose finish message is still on its way, so no entry leaks.
\<close>

theorem backfill_bookkeeping:
  assumes "backfill_run limit k s" "k < 2 ^ 64"
  shows "length (bf_tasks s) + bf_permits s = limit \<and> distinct (map fst (bf_tasks s)) \<and>
    distinct (started_ids s) \<and> running s \<subseteq> bf_jobs s \<and> bf_jobs s \<subseteq> running s \<union> finished s \<union> pending s"
  using run_inv[OF assms] run_ids_inv[OF assms] by (simp add: backfill_inv_def ids_inv_def)

theorem backfill_bookkeeping_witness:
  "length (bf_tasks demo_backfill) + bf_permits demo_backfill = 1 \<and> running demo_backfill = {0} \<and>
   bf_jobs demo_backfill = {0}"
  using backfill_bookkeeping[OF demo_backfill_run] by (simp add: demo_backfill_eq)

text \<open>
  A request to start a job is granted exactly when fewer jobs than the limit hold a
  permit, counting jobs that were cancelled or have finished but did not drop it yet; the job it
  starts gets an id no task, cancellable job or finish message uses, and is cancellable at once.
\<close>

lemma backfill_start_iff_permit:
  assumes "backfill_run limit k s" "k < 2 ^ 64" "start_backfill blocks s = (r, s')"
  shows "if length (bf_tasks s) < limit
    then r = Inr (bf_next_id s) \<and> bf_next_id s \<notin> task_ids s \<union> bf_jobs s \<union> pending s \<union> set (started_ids s) \<and>
      running s' = insert (bf_next_id s) (running s) \<and> bf_jobs s' = insert (bf_next_id s) (bf_jobs s)
    else r = Inl (Eyre ''concurrent backfills limit reached'') \<and> s' = s"
  using run_inv[OF assms(1,2)] run_ids_inv[OF assms(1,2)] assms(3)
  by (auto simp: backfill_inv_def ids_inv_def start_backfill_def Let_def split: if_splits)

lemma backfill_start_iff_permit_witness:
  "fst (start_backfill (5, 6) demo_backfill) = Inl (Eyre ''concurrent backfills limit reached'')"
  using backfill_start_iff_permit[OF demo_backfill_run _ prod.collapse [symmetric], of "(5, 6)"]
  by (simp add: demo_backfill_eq)

text \<open>
  Property C28. What cancelling a job answers: success exactly for a running job, a failure exactly
  for a job that ended while its finish message is still on its way, and otherwise that there is
  no such job. Afterwards the job is neither cancellable nor running, and every other job is as before.
\<close>

theorem backfill_cancel_outcomes:
  assumes "backfill_run limit k s" "k < 2 ^ 64" "cancel_backfill raced jid s = (r, s')"
  shows "r = (if jid \<in> running s then Inr ()
      else if jid \<in> bf_jobs s then Inl (Eyre ''failed to cancel backfill job'')
      else Inl (Eyre ''backfill job not found'')) \<and>
    bf_jobs s' = bf_jobs s - {jid} \<and> running s' = running s - {jid} \<and>
    (jid \<in> bf_jobs s - running s \<longrightarrow> jid \<in> finished s \<union> pending s)"
proof -
  have inv: "backfill_inv limit k s" using assms(1,2) by (rule run_inv)
  then have sub: "running s \<subseteq> bf_jobs s" and keys: "distinct (map fst (bf_tasks s))"
    and late: "bf_jobs s \<subseteq> running s \<union> finished s \<union> pending s" by (auto simp: backfill_inv_def)
  show ?thesis
  proof (cases "jid \<in> running s")
    case True
    then have "jid \<in> task_ids s" using in_phase_subset by (rule rev_subsetD)
    with True sub keys assms(3) show ?thesis
      by (auto simp: cancel_backfill_def Let_def in_phase_set_phase split: if_splits)
  next
    case False
    with late assms(3) show ?thesis by (auto simp: cancel_backfill_def Let_def split: if_splits)
  qed
qed

theorem backfill_cancel_outcomes_witness:
  "fst (cancel_backfill False 0 demo_backfill) = Inr () \<and>
   fst (cancel_backfill False 7 demo_backfill) = Inl (Eyre ''backfill job not found'')"
  using backfill_cancel_outcomes[OF demo_backfill_run _ prod.collapse [symmetric], of False 0]
    backfill_cancel_outcomes[OF demo_backfill_run _ prod.collapse [symmetric], of False 7]
  by (simp add: demo_backfill_eq)

text \<open>
  Property C10. Without new requests the backfill ExEx comes to rest: from any reachable state its
  own steps, in whatever order, are at most as many as the weight of its queue and tasks; and
  when none is left, every job is gone from the map and every permit is free again.
\<close>

theorem backfill_comes_to_rest:
  assumes "backfill_run limit k s" "(exex_step ^^ n) s s'" "k + n < 2 ^ 64"
  shows "n \<le> backfill_weight s \<and>
    ((\<nexists>t. exex_step s' t) \<longrightarrow> bf_tasks s' = [] \<and> bf_queue s' = [] \<and> bf_jobs s' = {} \<and> bf_permits s' = limit)"
proof -
  have inv: "backfill_inv limit (k + n) s'"
    using exex_steps_run[OF assms(2,1)] assms(3) by (rule run_inv)
  have "bf_tasks s' = [] \<and> bf_queue s' = [] \<and> bf_jobs s' = {} \<and> bf_permits s' = limit"
    if "\<nexists>t. exex_step s' t"
    using at_rest[OF that] inv by (simp add: backfill_inv_def)
  with exex_steps_weight[OF assms(2,1,3)] show ?thesis by auto
qed

lemma demo_rest:
  "(exex_step ^^ 4) demo_backfill
     (drops_permit 0 (handle_backfill_message False (FinishMsg 0)
       ((sends_finish 0 (stream_ends 0 demo_backfill))\<lparr>bf_queue := []\<rparr>)))"
proof -
  have 1: "exex_step demo_backfill (stream_ends 0 demo_backfill)"
    by (rule exex_step.stream_end) (simp add: demo_backfill_eq)
  have 2: "exex_step (stream_ends 0 demo_backfill) (sends_finish 0 (stream_ends 0 demo_backfill))"
    by (rule exex_step.send_finish) (simp add: demo_backfill_eq stream_ends_def)
  have 3: "exex_step (sends_finish 0 (stream_ends 0 demo_backfill))
      (handle_backfill_message False (FinishMsg 0) ((sends_finish 0 (stream_ends 0 demo_backfill))\<lparr>bf_queue := []\<rparr>))"
    by (rule exex_step.handle) (simp add: demo_backfill_eq stream_ends_def sends_finish_def)
  have 4: "exex_step (handle_backfill_message False (FinishMsg 0) ((sends_finish 0 (stream_ends 0 demo_backfill))\<lparr>bf_queue := []\<rparr>))
      (drops_permit 0 (handle_backfill_message False (FinishMsg 0)
        ((sends_finish 0 (stream_ends 0 demo_backfill))\<lparr>bf_queue := []\<rparr>)))"
    by (rule exex_step.release) (simp add: demo_backfill_eq stream_ends_def sends_finish_def)
  from 1 2 3 4 show ?thesis by (auto simp: numeral_eq_Suc)
qed

theorem backfill_comes_to_rest_witness:
  "bf_jobs (drops_permit 0 (handle_backfill_message False (FinishMsg 0)
       ((sends_finish 0 (stream_ends 0 demo_backfill))\<lparr>bf_queue := []\<rparr>))) = {} \<and>
   (4 :: nat) \<le> backfill_weight demo_backfill"
  using backfill_comes_to_rest[OF demo_backfill_run demo_rest]
  by (simp add: exex_step_from demo_backfill_eq stream_ends_def sends_finish_def drops_permit_def)

end
