(* ===== verification/Poll_Loops.thy ===== *)
theory Poll_Loops
  imports Small_Exex
begin

text \<open>
  Futures that poll other futures in a loop, and the discv5 ExEx as the first of them
  (discv5/src/network/mod.rs, discv5/src/exex/mod.rs). A stream or channel is the list of its
  items that are ready and whether it ends after them; polled again after its end it reports the
  end again. A loop that nothing leaves does not return: such a loop is a partial function, and
  \<open>None\<close> is a poll that never returns: the loop has no exit of its own. Tokio's cooperative budget
  is not modelled: a task that has used it up sees \<open>Pending\<close> from a channel of tokio whatever is
  in it, so there the endless loop becomes one that is entered again at every poll of the task.
\<close>

section \<open>Polling\<close>

datatype 'a poll = Pending | Ready 'a

record 'a source =
  src_items :: "'a list"
  src_closed :: bool

definition poll_source :: "'a source \<Rightarrow> 'a option poll \<times> 'a source" where
  "poll_source s = (case src_items s of
       x # xs \<Rightarrow> (Ready (Some x), s\<lparr>src_items := xs\<rparr>)
     | [] \<Rightarrow> (if src_closed s then Ready None else Pending, s))"

definition drained :: "'a source \<Rightarrow> 'a source" where
  "drained s = s\<lparr>src_items := []\<rparr>"

lemma drained_simps [simp]:
  "src_items (drained s) = []" "src_closed (drained s) = src_closed s" "drained (drained s) = drained s"
  "drained (s\<lparr>src_items := xs\<rparr>) = drained s" "src_items s = [] \<Longrightarrow> drained s = s"
  by (simp_all add: drained_def)

text \<open>
  \<open>loop { match p.poll(cx) { Ready(Ok(())) => info!(..), Ready(Err(e)) => return .., Pending => break } }\<close>:
  the error it returns with, or \<open>None\<close> when it breaks.
\<close>

partial_function (option) poll_until_pending ::
  "('s \<Rightarrow> ((err + unit) poll \<times> 's) option) \<Rightarrow> 's \<Rightarrow> (err option \<times> 's) option" where
  "poll_until_pending p s =
     (case p s of
        None \<Rightarrow> None
      | Some (r, s') \<Rightarrow>
          (case r of
             Pending \<Rightarrow> Some (None, s')
           | Ready q \<Rightarrow> (case q of Inl e \<Rightarrow> Some (Some e, s') | Inr _ \<Rightarrow> poll_until_pending p s')))"

lemma poll_until_pending_simps:
  "p s = None \<Longrightarrow> poll_until_pending p s = None"
  "p s = Some (Pending, s') \<Longrightarrow> poll_until_pending p s = Some (None, s')"
  "p s = Some (Ready (Inl e), s') \<Longrightarrow> poll_until_pending p s = Some (Some e, s')"
  "p s = Some (Ready (Inr u), s') \<Longrightarrow> poll_until_pending p s = poll_until_pending p s'"
  by (subst poll_until_pending.simps, simp)+

text \<open>A future that is ready again whenever it is polled is polled for ever.\<close>

lemma poll_until_pending_spins:
  assumes "\<And>t. D t \<Longrightarrow> \<exists>u t'. p t = Some (Ready (Inr u), t') \<and> D t'" "D s"
  shows "poll_until_pending p s = None"
proof -
  have "p = p \<longrightarrow> \<not> D s" if "poll_until_pending p s = Some r" for r
  proof (rule poll_until_pending.raw_induct [where P = "\<lambda>q s r. q = p \<longrightarrow> \<not> D s", OF _ that])
    fix f q s r
    assume IH: "\<And>q s r. f q s = Some r \<Longrightarrow> q = p \<longrightarrow> \<not> D s"
      and eq: "(case q s of None \<Rightarrow> None | Some (r, s') \<Rightarrow>
          (case r of Pending \<Rightarrow> Some (None, s')
           | Ready x \<Rightarrow> (case x of Inl e \<Rightarrow> Some (Some e, s') | Inr _ \<Rightarrow> f q s'))) = Some r"
    show "q = p \<longrightarrow> \<not> D s"
    proof (intro impI notI)
      assume "q = p" "D s"
      with assms(1) obtain u t' where "q s = Some (Ready (Inr u), t')" "D t'" by blast
      with eq IH \<open>q = p\<close> show False by auto
    qed
  qed
  with assms(2) show ?thesis by (cases "poll_until_pending p s") auto
qed

section \<open>The discv5 network\<close>

datatype ('enr, 'sock) disc_event = Discovered 'enr | SessionEstablished 'enr 'sock | OtherEvent

text \<open>
  \<open>DiscV5ExEx::poll\<close>: every ready event is taken, and logged when it is a session; the future is
  ready once the channel is closed.
\<close>

fun discv5_events :: "('enr, 'sock) disc_event list \<Rightarrow> ('enr, 'sock) disc_event source \<Rightarrow> (err + unit) poll \<times> ('enr, 'sock) disc_event source" where
  "discv5_events [] s = (if src_closed s then Ready (Inr ()) else Pending, s\<lparr>src_items := []\<rparr>)"
| "discv5_events (ev # evs) s = discv5_events evs s"

definition discv5_poll :: "('enr, 'sock) disc_event source \<Rightarrow> (err + unit) poll \<times> ('enr, 'sock) disc_event source" where
  "discv5_poll s = discv5_events (src_items s) s"

lemma discv5_poll_eq: "discv5_poll s = (if src_closed s then Ready (Inr ()) else Pending, drained s)"
proof -
  have "discv5_events evs s = (if src_closed s then Ready (Inr ()) else Pending, drained s)" for evs
    by (induction evs) (simp_all add: drained_def)
  then show ?thesis by (simp add: discv5_poll_def)
qed

section \<open>The discv5 ExEx\<close>

record ('c, 'h, 'enr, 'sock) discv5_exex =
  dx_events :: "'h events"
  dx_notifications :: "(err + 'c exex_notification) source"
  dx_disc_v5 :: "('enr, 'sock) disc_event source"

text \<open>The second loop of \<open>poll\<close>: the end of the notifications does not leave it.\<close>

partial_function (option) discv5_notifications ::
  "('c, 'h) exex_api \<Rightarrow> (err + 'c exex_notification) source \<Rightarrow> 'h events \<Rightarrow> ((err + unit) poll \<times> (err + 'c exex_notification) source \<times> 'h events) option" where
  "discv5_notifications A ns ev =
     (case poll_source ns of
        (item, ns') \<Rightarrow>
          (case item of
             Pending \<Rightarrow> Some (Pending, ns', ev)
           | Ready item \<Rightarrow>
               (case item of
                  None \<Rightarrow> discv5_notifications A ns' ev
                | Some item \<Rightarrow>
                    (case item of
                       Inl e \<Rightarrow> Some (Ready (Inl e), ns', ev)
                     | Inr notification \<Rightarrow>
                         (case report_committed A notification ev of
                            Inl e \<Rightarrow> Some (Ready (Inl e), ns', ev)
                          | Inr ev' \<Rightarrow> discv5_notifications A ns' ev')))))"

definition discv5_exex_poll ::
  "('c, 'h) exex_api \<Rightarrow> ('c, 'h, 'enr, 'sock) discv5_exex \<Rightarrow> ((err + unit) poll \<times> ('c, 'h, 'enr, 'sock) discv5_exex) option" where
  "discv5_exex_poll A s =
     (case poll_until_pending (\<lambda>d. Some (discv5_poll d)) (dx_disc_v5 s) of
        None \<Rightarrow> None
      | Some (Some e, d) \<Rightarrow> Some (Ready (Inl e), s\<lparr>dx_disc_v5 := d\<rparr>)
      | Some (None, d) \<Rightarrow>
          (case discv5_notifications A (dx_notifications s) (dx_events s) of
             None \<Rightarrow> None
           | Some (r, ns, ev) \<Rightarrow> Some (r, s\<lparr>dx_disc_v5 := d, dx_notifications := ns, dx_events := ev\<rparr>)))"

lemma discv5_drain:
  "poll_until_pending (\<lambda>d. Some (discv5_poll d)) d = (if src_closed d then None else Some (None, drained d))"
proof (cases "src_closed d")
  case True
  then show ?thesis
    by (simp add: poll_until_pending_spins [where D = src_closed] discv5_poll_eq)
next
  case False
  then show ?thesis by (simp add: poll_until_pending_simps(2) discv5_poll_eq)
qed

lemma discv5_notifications_spins:
  assumes "src_items ns = []" "src_closed ns"
  shows "discv5_notifications A ns ev = None"
proof -
  have "\<not> (src_items ns = [] \<and> src_closed ns)" if "discv5_notifications A ns ev = Some r" for r
  proof (rule discv5_notifications.raw_induct [where P = "\<lambda>A ns ev r. \<not> (src_items ns = [] \<and> src_closed ns)", OF _ that])
    fix f A ns ev r
    assume IH: "\<And>A ns ev r. f A ns ev = Some r \<Longrightarrow> \<not> (src_items ns = [] \<and> src_closed ns)"
      and eq: "(case poll_source ns of (item, ns') \<Rightarrow>
          (case item of Pending \<Rightarrow> Some (Pending, ns', ev)
           | Ready item \<Rightarrow> (case item of None \<Rightarrow> f A ns' ev
              | Some item \<Rightarrow> (case item of Inl e \<Rightarrow> Some (Ready (Inl e), ns', ev)
                 | Inr n \<Rightarrow> (case report_committed A n ev of Inl e \<Rightarrow> Some (Ready (Inl e), ns', ev)
                    | Inr ev' \<Rightarrow> f A ns' ev'))))) = Some r"
    show "\<not> (src_items ns = [] \<and> src_closed ns)"
    proof
      assume ended: "src_items ns = [] \<and> src_closed ns"
      with eq have "f A ns ev = Some r" by (simp add: poll_source_def)
      from IH [OF this] ended show False by simp
    qed
  qed
  with assms show ?thesis by (cases "discv5_notifications A ns ev") auto
qed

text \<open>The loop is that of the minimal ExEx, but for its end.\<close>

lemma discv5_notifications_eq:
  "map_option (\<lambda>(r, ns, ev). (r, ev)) (discv5_notifications A ns ev) =
     (case run_exex (minimal_step A) (src_items ns) ev of
        (Inl e, ev') \<Rightarrow> Some (Ready (Inl e), ev')
      | (Inr _, ev') \<Rightarrow> if src_closed ns then None else Some (Pending, ev'))"
proof (induction "src_items ns" arbitrary: ns ev)
  case Nil
  then show ?case
    by (cases "src_closed ns")
      (simp_all add: discv5_notifications_spins, simp add: discv5_notifications.simps poll_source_def)
next
  case (Cons x xs)
  from Cons(2) have items: "src_items ns = x # xs" by simp
  show ?case
  proof (cases x)
    case (Inl e)
    with items show ?thesis by (subst discv5_notifications.simps) (simp add: poll_source_def)
  next
    case (Inr n)
    show ?thesis
    proof (cases "report_committed A n ev")
      case (Inl e)
      with Inr items show ?thesis
        by (subst discv5_notifications.simps) (simp add: poll_source_def minimal_step_def)
    next
      case ok: (Inr ev')
      with Cons(1) [of "ns\<lparr>src_items := xs\<rparr>" ev'] Inr items show ?thesis
        by (subst discv5_notifications.simps)
          (simp add: poll_source_def minimal_step_def split: prod.split sum.split)
    qed
  qed
qed

text \<open>
  Property C20. When a poll of the discv5 ExEx returns and with what: with the discovery channel
  open it does what the minimal ExEx does with the notifications that are ready, and is pending
  after them or returns their first error; its loops have no exit, and no notification is
  processed, once the discovery channel is closed, and have none once the notifications have ended.
\<close>

theorem discv5_poll_returns:
  "map_option (\<lambda>(r, s'). (r, dx_events s')) (discv5_exex_poll A s) =
     (if src_closed (dx_disc_v5 s) then None
      else case minimal_exex A (src_items (dx_notifications s)) (dx_events s) of
          (Inl e, ev') \<Rightarrow> Some (Ready (Inl e), ev')
        | (Inr _, ev') \<Rightarrow> if src_closed (dx_notifications s) then None else Some (Pending, ev'))"
proof (cases "src_closed (dx_disc_v5 s)")
  case False
  have "map_option (\<lambda>(r, s'). (r, dx_events s')) (discv5_exex_poll A s)
      = map_option (\<lambda>(r, ns, ev). (r, ev)) (discv5_notifications A (dx_notifications s) (dx_events s))"
    using False by (auto simp: discv5_exex_poll_def discv5_drain split: option.split)
  with False show ?thesis by (simp add: discv5_notifications_eq minimal_exex_def)
qed (simp add: discv5_exex_poll_def discv5_drain)

end
