(* ===== verification/Backfill_Main.thy ===== *)
theory Backfill_Main
  imports Backfill Poll_Loops
begin

text \<open>
  The backfill ExEx as the node runs it (backfill/src/main.rs): the closure \<open>main\<close> installs, which
  first backfills the range given on the command line, and the future \<open>start\<close>, whose \<open>select!\<close>
  interleaves notifications and messages while its tasks run and requests arrive.
\<close>

section \<open>Before it starts\<close>

text \<open>\<open>BackfillExEx::new\<close> with the limit \<open>main\<close> passes.\<close>

definition backfill_limit :: nat where
  "backfill_limit = 10"

text \<open>
  The closure: \<open>job blocks\<close> is the stream of the backfill job for a range. What was logged, and the
  ExEx to start or the error that stops the node.
\<close>

definition backfill_main ::
  "('c, 'b) block_api \<Rightarrow> ('id block_id \<Rightarrow> err + u64 option) \<Rightarrow> (block_range \<Rightarrow> (err + 'c) list) \<Rightarrow> u64 option \<Rightarrow> 'id option
     \<Rightarrow> (nat \<times> nat) list \<times> (err + backfill)" where
  "backfill_main B block_number_for_id job from_block to_block =
     (let exex = new_backfill backfill_limit in
      case backfill_args_range block_number_for_id from_block to_block of
        Inl e \<Rightarrow> ([], Inl e)
      | Inr None \<Rightarrow> ([], Inr exex)
      | Inr (Some blocks) \<Rightarrow>
          (case backfill_with_job B (job blocks) of
             (logged, Inl e) \<Rightarrow> (logged, Inl (Eyre ''failed to backfill for the provided args''))
           | (logged, Inr _) \<Rightarrow> (logged, Inr exex)))"

lemma backfill_with_job_ok: "snd (backfill_with_job B st) = Inr () \<longleftrightarrow> list_all (\<lambda>x. \<not> isl x) st"
  by (induction B st rule: backfill_with_job.induct) (auto simp: process_committed_chain_def Let_def split: prod.splits)

text \<open>The ExEx is started unless the end of the range is unknown or a block of it fails to execute.\<close>

lemma backfill_main_starts:
  "snd (backfill_main B block_number_for_id job from_block to_block) = Inr exex \<longleftrightarrow> exex = new_backfill 10 \<and>
     (case backfill_args_range block_number_for_id from_block to_block of
        Inl _ \<Rightarrow> False | Inr None \<Rightarrow> True | Inr (Some blocks) \<Rightarrow> list_all (\<lambda>x. \<not> isl x) (job blocks))"
  using backfill_with_job_ok [of B "job (the (projr (backfill_args_range block_number_for_id from_block to_block)))"]
  by (auto simp: backfill_main_def Let_def backfill_limit_def split: sum.splits option.splits prod.splits)

section \<open>The running ExEx\<close>

text \<open>
  \<open>bx_handled\<close> and \<open>bx_arrived\<close> keep what was handled and what arrived, for the statements only.
\<close>

record ('c, 'h) backfill_exex =
  bx_state :: backfill
  bx_events :: "'h events"
  bx_notifications :: "(err + 'c exex_notification) list" \<comment> \<open>ready\<close>
  bx_returned :: "(err + unit) option"
  bx_handled :: "'c exex_notification list"
  bx_arrived :: "(err + 'c exex_notification) list"

definition start_exex :: "backfill \<Rightarrow> ('c, 'h) backfill_exex" where
  "start_exex exex = \<lparr>bx_state = exex, bx_events = \<lparr>finished_heights = [], receiver_gone = False\<rparr>,
     bx_notifications = [], bx_returned = None, bx_handled = [], bx_arrived = []\<rparr>"

text \<open>
  One round of \<open>select!\<close>: a notification or a message that is ready. A branch whose stream has ended
  is disabled; the ExEx keeps a sender of its own messages, so never are both.
\<close>

inductive select_round ::
  "('c, 'b) block_api \<Rightarrow> ('c, 'h) exex_api \<Rightarrow> ('c, 'h) backfill_exex \<Rightarrow> ('c, 'h) backfill_exex \<Rightarrow> bool" for B A where
  notified: "bx_notifications s = Inr n # ns \<Longrightarrow> backfill_notification B A n (bx_events s) = (Inr u, ev) \<Longrightarrow>
     select_round B A s (s\<lparr>bx_notifications := ns, bx_events := ev, bx_handled := bx_handled s @ [n]\<rparr>)"
| handling_fails: "bx_notifications s = Inr n # ns \<Longrightarrow> backfill_notification B A n (bx_events s) = (Inl e, ev) \<Longrightarrow>
     select_round B A s (s\<lparr>bx_notifications := ns, bx_events := ev, bx_returned := Some (Inl e)\<rparr>)"
| notifications_fail: "bx_notifications s = Inl e # ns \<Longrightarrow>
     select_round B A s (s\<lparr>bx_notifications := ns, bx_returned := Some (Inl e)\<rparr>)"
| message: "bf_queue (bx_state s) = m # q \<Longrightarrow>
     select_round B A s (s\<lparr>bx_state := handle_backfill_message raced m ((bx_state s)\<lparr>bf_queue := q\<rparr>)\<rparr>)"

text \<open>
  The ExEx between its rounds: its tasks, requests and notifications that arrive, and the node, which
  may drop the receiver of its events. Once it has returned it is dropped, and with it the channels to its tasks, which stops those that listen;
  nothing is handled any more.
\<close>

inductive backfill_exex_step ::
  "('c, 'b) block_api \<Rightarrow> ('c, 'h) exex_api \<Rightarrow> ('c, 'h) backfill_exex \<Rightarrow> ('c, 'h) backfill_exex \<Rightarrow> bool" for B A where
  select: "bx_returned s = None \<Longrightarrow> select_round B A s s' \<Longrightarrow> backfill_exex_step B A s s'"
| request: "bx_returned s = None \<Longrightarrow> rpc_message m \<Longrightarrow>
     backfill_exex_step B A s (s\<lparr>bx_state := (bx_state s)\<lparr>bf_queue := bf_queue (bx_state s) @ [m]\<rparr>\<rparr>)"
| stream_end: "job_id \<in> running (bx_state s) \<Longrightarrow>
     backfill_exex_step B A s (s\<lparr>bx_state := stream_ends job_id (bx_state s)\<rparr>)"
| send_finish: "job_id \<in> finished (bx_state s) \<Longrightarrow>
     backfill_exex_step B A s (s\<lparr>bx_state := sends_finish job_id (bx_state s)\<rparr>)"
| release: "job_id \<in> in_phase Ending (bf_tasks (bx_state s)) \<Longrightarrow>
     backfill_exex_step B A s (s\<lparr>bx_state := drops_permit job_id (bx_state s)\<rparr>)"
| dropped: "bx_returned s \<noteq> None \<Longrightarrow> job_id \<in> running (bx_state s) \<Longrightarrow>
     backfill_exex_step B A s
       (s\<lparr>bx_state := (bx_state s)\<lparr>bf_tasks := set_phase job_id Ending (bf_tasks (bx_state s))\<rparr>\<rparr>)"
| events_dropped: "backfill_exex_step B A s (s\<lparr>bx_events := (bx_events s)\<lparr>receiver_gone := True\<rparr>\<rparr>)"
| arrival: "backfill_exex_step B A s (s\<lparr>bx_notifications := bx_notifications s @ [x], bx_arrived := bx_arrived s @ [x]\<rparr>)"

inductive backfill_exex_run ::
  "('c, 'b) block_api \<Rightarrow> ('c, 'h) exex_api \<Rightarrow> nat \<Rightarrow> nat \<Rightarrow> ('c, 'h) backfill_exex \<Rightarrow> bool" for B A limit where
  started: "backfill_exex_run B A limit 0 (start_exex (new_backfill limit))"
| step: "backfill_exex_run B A limit k s \<Longrightarrow> backfill_exex_step B A s s' \<Longrightarrow> backfill_exex_run B A limit (Suc k) s'"

section \<open>What every run keeps\<close>

text \<open>While the ExEx runs, its state is one of the runs of \<open>backfill_step\<close>.\<close>

lemma backfill_inv_mono: "backfill_inv limit k s \<Longrightarrow> backfill_inv limit (Suc k) s"
  by (auto simp: backfill_inv_def)

definition tasks_ok :: "nat \<Rightarrow> backfill \<Rightarrow> bool" where
  "tasks_ok limit s \<longleftrightarrow> length (bf_tasks s) + bf_permits s = limit \<and> distinct (map fst (bf_tasks s))"

lemma backfill_inv_tasks: "backfill_inv limit k s \<Longrightarrow> tasks_ok limit s"
  by (simp add: backfill_inv_def tasks_ok_def)

lemma task_steps_ok:
  assumes "tasks_ok limit s"
  shows "tasks_ok limit (stream_ends jid s)" "tasks_ok limit (sends_finish jid s)"
    "jid \<in> in_phase Ending (bf_tasks s) \<Longrightarrow> tasks_ok limit (drops_permit jid s)"
    "tasks_ok limit (s\<lparr>bf_tasks := set_phase jid p (bf_tasks s)\<rparr>)"
proof -
  show "tasks_ok limit (drops_permit jid s)" if "jid \<in> in_phase Ending (bf_tasks s)"
  proof -
    from that have "jid \<in> ids_of (bf_tasks s)" using in_phase_subset by (rule rev_subsetD)
    with assms filter_one_key [of "bf_tasks s" jid] show ?thesis
      by (auto simp: tasks_ok_def drops_permit_def distinct_map_filter)
  qed
qed (use assms in \<open>simp_all add: tasks_ok_def stream_ends_def sends_finish_def\<close>)

text \<open>Why the ExEx has returned, given the first item that it did not handle.\<close>

definition returned_for :: "(err + unit) option \<Rightarrow> (err + 'c exex_notification) list \<Rightarrow> bool" where
  "returned_for result rest \<longleftrightarrow> (\<forall>r. result = Some r \<longrightarrow>
     (\<exists>e xs. r = Inl e \<and> (rest = Inl e # xs \<or> (\<exists>n. rest = Inr n # xs \<and> e = External ''channel closed''))))"

lemma returned_for_simps [simp]:
  "returned_for None rest" "returned_for (Some (Inl e)) (Inl e # xs)"
  "returned_for result rest \<Longrightarrow> returned_for result (rest @ xs)"
  by (auto simp: returned_for_def)

lemma handling_error: "backfill_notification B A n ev = (Inl e, ev') \<Longrightarrow> returned_for (Some (Inl e)) (Inr n # ns)"
  by (auto simp: returned_for_def backfill_notification_def process_committed_chain_def send_event_def
      split: option.splits sum.splits if_splits)

definition exex_ok :: "('c, 'h) exex_api \<Rightarrow> nat \<Rightarrow> nat \<Rightarrow> ('c, 'h) backfill_exex \<Rightarrow> bool" where
  "exex_ok A limit k s \<longleftrightarrow> tasks_ok limit (bx_state s) \<and>
     finished_heights (bx_events s) = concat (map (owed_heights A) (bx_handled s)) \<and>
     (\<exists>rest. bx_arrived s = map Inr (bx_handled s) @ rest \<and> returned_for (bx_returned s) rest \<and>
        (bx_returned s = None \<longrightarrow> rest = bx_notifications s)) \<and>
     (bx_returned s = None \<longrightarrow> backfill_inv limit k (bx_state s))"

lemma select_round_ok:
  assumes "select_round B A s s'" "exex_ok A limit k s" "bx_returned s = None" "Suc k < 2 ^ 64"
  shows "exex_ok A limit (Suc k) s'"
  using assms(1)
proof (cases rule: select_round.cases)
  case (notified n ns u ev)
  from backfill.step_ok [OF notified(3)] notified assms(2,3) show ?thesis
    by (auto simp: exex_ok_def backfill_inv_mono)
next
  case (handling_fails n ns e ev)
  from backfill.step_err [OF handling_fails(3)] handling_error [OF handling_fails(3)] handling_fails assms(2,3)
  show ?thesis by (auto simp: exex_ok_def)
next
  case (notifications_fail e ns)
  with assms(2,3) show ?thesis by (auto simp: exex_ok_def)
next
  case (message m q raced)
  have inv: "backfill_inv limit k (bx_state s)" using assms(2,3) by (simp add: exex_ok_def)
  from exex_step.handle [OF message(2), of raced] have
    "backfill_inv limit (Suc k) (handle_backfill_message raced m ((bx_state s)\<lparr>bf_queue := q\<rparr>))"
    using inv assms(4) by (rule exex_step_inv)
  with message(1) assms(2,3) show ?thesis by (auto simp: exex_ok_def backfill_inv_tasks)
qed

lemma exex_ok_task:
  assumes "exex_ok A limit k s" "tasks_ok limit t" "bx_returned s = None \<Longrightarrow> backfill_inv limit (Suc k) t"
  shows "exex_ok A limit (Suc k) (s\<lparr>bx_state := t\<rparr>)"
  using assms by (auto simp: exex_ok_def)

lemma backfill_exex_step_ok:
  assumes "backfill_exex_step B A s s'" "exex_ok A limit k s" "Suc k < 2 ^ 64"
  shows "exex_ok A limit (Suc k) s'"
proof -
  have tasks: "tasks_ok limit (bx_state s)" using assms(2) by (simp add: exex_ok_def)
  have inv: "backfill_inv limit k (bx_state s)" if "bx_returned s = None" using that assms(2) by (simp add: exex_ok_def)
  note exex = exex_step_inv [OF _ inv assms(3)]
  from assms(1) show ?thesis
  proof (cases rule: backfill_exex_step.cases)
    case select
    with select_round_ok [OF _ assms(2)] assms(3) show ?thesis by blast
  next
    case (request m)
    with step_inv [OF backfill_step.rpc inv assms(3)] show ?thesis
      by (auto intro: exex_ok_task [OF assms(2)] backfill_inv_tasks)
  next
    case (stream_end job_id)
    with exex [OF exex_step.stream_end] tasks show ?thesis
      by (auto intro: exex_ok_task [OF assms(2)] task_steps_ok)
  next
    case (send_finish job_id)
    with exex [OF exex_step.send_finish] tasks show ?thesis
      by (auto intro: exex_ok_task [OF assms(2)] task_steps_ok)
  next
    case (release job_id)
    with exex [OF exex_step.release] tasks show ?thesis
      by (auto intro: exex_ok_task [OF assms(2)] task_steps_ok)
  next
    case (dropped job_id)
    with tasks show ?thesis
      by (auto intro: exex_ok_task [OF assms(2)] task_steps_ok)
  next
    case events_dropped
    with assms(2) show ?thesis by (auto simp: exex_ok_def backfill_inv_mono)
  next
    case (arrival x)
    with assms(2) show ?thesis by (auto simp: exex_ok_def backfill_inv_mono)
  qed
qed

lemma backfill_exex_run_ok: "backfill_exex_run B A limit k s \<Longrightarrow> k < 2 ^ 64 \<Longrightarrow> exex_ok A limit k s"
proof (induction rule: backfill_exex_run.induct)
  case started
  then show ?case
    using run_inv [OF backfill_run.start, of limit]
    by (auto simp: exex_ok_def start_exex_def intro: backfill_inv_tasks)
next
  case (step k s s')
  then show ?case using backfill_exex_step_ok by auto
qed

section \<open>Properties\<close>

text \<open>
  Property C11. The backfill ExEx as it runs, with notifications, requests, messages and tasks in any
  order: it reports the heights of exactly the committed chains among the notifications it
  handled, which are the first that arrived; it never returns but with the error of the
  notification stream or because nobody receives its events, and then at the first notification
  it did not handle. Until then a job has a cancel channel while its task listens for it, and only until its
  finish message is handled; and always every permit is free or held by one task.
\<close>

theorem backfill_exex_runs:
  assumes "backfill_exex_run B A limit k s" "k < 2 ^ 64"
  shows "finished_heights (bx_events s) = concat (map (owed_heights A) (bx_handled s)) \<and>
    (\<exists>rest. bx_arrived s = map Inr (bx_handled s) @ rest \<and>
       (case bx_returned s of
          None \<Rightarrow> rest = bx_notifications s
        | Some (Inl e) \<Rightarrow> (\<exists>xs. rest = Inl e # xs \<or> (\<exists>n. rest = Inr n # xs \<and> e = External ''channel closed''))
        | Some (Inr _) \<Rightarrow> False)) \<and>
    (bx_returned s = None \<longrightarrow> running (bx_state s) \<subseteq> bf_jobs (bx_state s) \<and>
       bf_jobs (bx_state s) \<subseteq> running (bx_state s) \<union> finished (bx_state s) \<union> pending (bx_state s)) \<and>
    length (bf_tasks (bx_state s)) + bf_permits (bx_state s) = limit"
proof -
  from backfill_exex_run_ok [OF assms] have ok: "exex_ok A limit k s" .
  then obtain rest where rest: "bx_arrived s = map Inr (bx_handled s) @ rest" "returned_for (bx_returned s) rest"
    "bx_returned s = None \<longrightarrow> rest = bx_notifications s" by (auto simp: exex_ok_def)
  then have "case bx_returned s of
      None \<Rightarrow> rest = bx_notifications s
    | Some (Inl e) \<Rightarrow> (\<exists>xs. rest = Inl e # xs \<or> (\<exists>n. rest = Inr n # xs \<and> e = External ''channel closed''))
    | Some (Inr _) \<Rightarrow> False" by (auto simp: returned_for_def split: option.split)
  with rest(1) ok show ?thesis by (auto simp: exex_ok_def tasks_ok_def backfill_inv_def)
qed

text \<open>A committed chain arrives and is handled, then the stream fails.\<close>

definition demo_blocks_api :: "(nat, unit) block_api" where
  "demo_blocks_api = \<lparr>blocks_in = (\<lambda>_. [()]), transaction_count = (\<lambda>_. 2)\<rparr>"

lemma demo_exex_run:
  "\<exists>s. backfill_exex_run demo_blocks_api (std_exex_api (\<lambda>c. c)) 10 4 s \<and> bx_handled s = [ChainCommitted 5] \<and>
     bx_returned s = Some (Inl SliceError)"
proof -
  let ?A = "std_exex_api (\<lambda>c. c) :: (nat, nat) exex_api"
  let ?run = "backfill_exex_run demo_blocks_api ?A 10" and ?s = "start_exex (new_backfill 10) :: (nat, nat) backfill_exex"
  let ?n = "ChainCommitted 5 :: nat exex_notification"
  let ?s1 = "?s\<lparr>bx_notifications := [Inr ?n], bx_arrived := [Inr ?n]\<rparr>"
  have run1: "?run 1 ?s1"
    using backfill_exex_run.step [OF backfill_exex_run.started backfill_exex_step.arrival [of _ _ _ "Inr ?n"]]
    by (simp add: start_exex_def)
  let ?s2 = "?s1\<lparr>bx_notifications := [], bx_events := \<lparr>finished_heights = [5], receiver_gone = False\<rparr>, bx_handled := [?n]\<rparr>"
  have "select_round demo_blocks_api ?A ?s1 ?s2"
    using select_round.notified [of ?s1 ?n "[]" demo_blocks_api ?A "()"]
    by (simp add: start_exex_def backfill_notification_def process_committed_chain_def send_event_def std_exex_api_def)
  then have 2: "backfill_exex_step demo_blocks_api ?A ?s1 ?s2"
    by (intro backfill_exex_step.select) (simp_all add: start_exex_def)
  let ?s3 = "?s2\<lparr>bx_notifications := [Inl SliceError], bx_arrived := [Inr ?n, Inl SliceError]\<rparr>"
  have 3: "backfill_exex_step demo_blocks_api ?A ?s2 ?s3"
    using backfill_exex_step.arrival [of demo_blocks_api ?A ?s2 "Inl SliceError"] by (simp add: start_exex_def)
  let ?s4 = "?s3\<lparr>bx_notifications := [], bx_returned := Some (Inl SliceError)\<rparr>"
  have "select_round demo_blocks_api ?A ?s3 ?s4" by (rule select_round.notifications_fail) simp
  then have 4: "backfill_exex_step demo_blocks_api ?A ?s3 ?s4"
    by (intro backfill_exex_step.select) (simp_all add: start_exex_def)
  note step = backfill_exex_run.step [where A = ?A and B = demo_blocks_api and limit = 10]
  from step [OF step [OF step [OF run1 2] 3] 4] have "?run 4 ?s4" by (simp add: numeral_eq_Suc)
  moreover have "bx_handled ?s4 = [?n]" "bx_returned ?s4 = Some (Inl SliceError)" by (simp_all add: start_exex_def)
  ultimately show ?thesis by blast
qed

theorem backfill_exex_runs_witness:
  "\<exists>s. backfill_exex_run demo_blocks_api (std_exex_api (\<lambda>c. c)) 10 4 s \<and> finished_heights (bx_events s) = [5] \<and>
     length (bf_tasks (bx_state s)) + bf_permits (bx_state s) = 10"
proof -
  from demo_exex_run obtain s where run: "backfill_exex_run demo_blocks_api (std_exex_api (\<lambda>c. c)) 10 4 s"
    "bx_handled s = [ChainCommitted 5]" by blast
  from backfill_exex_runs [OF run(1)] run show ?thesis
    by (intro exI [of _ s]) (simp add: owed_heights_def std_exex_api_def)
qed

end
