(* ===== verification/Oracle_Proto.thy ===== *)
theory Oracle_Proto
  imports Codec_Prims
begin

text \<open>
  The data the oracle gossips: Binance's ticker (oracle/src/offchain_data/binance/ticker.rs), the
  signed ticker (oracle/src/network/proto/data.rs), and the messages of the RLPx subprotocol with
  their encoding (oracle/src/network/proto/mod.rs). The RLP of the payloads, keccak and the
  signatures are parameters; the locale \<open>oracle_api_ok\<close> states what the code relies on.
\<close>

section \<open>Tickers\<close>

record ticker =
  event_type :: string
  event_time :: u64
  symbol :: string
  price_change :: string
  price_change_percent :: string
  weighted_avg_price :: string
  prev_close_price :: string
  last_price :: string
  last_quantity :: string
  best_bid_price :: string
  best_bid_quantity :: string
  best_ask_price :: string
  best_ask_quantity :: string
  open_price :: string
  high_price :: string
  low_price :: string
  volume :: string
  quote_volume :: string
  open_time :: u64
  close_time :: u64
  first_trade_id :: u64
  last_trade_id :: u64
  num_trades :: u64

record signed_ticker =
  st_ticker :: ticker
  st_signature :: bytes
  st_signer :: address
  st_id :: b256

text \<open>The functions of the RLP, hash and signature libraries that the oracle calls.\<close>

record 'sig oracle_api =
  rlp_addresses :: "address list \<Rightarrow> bytes"
  rlp_addresses_decode :: "bytes \<Rightarrow> address list option"
  rlp_ticker :: "ticker \<Rightarrow> bytes"
  rlp_signed_ticker :: "signed_ticker \<Rightarrow> bytes"
  rlp_signed_ticker_decode :: "bytes \<Rightarrow> signed_ticker option"
  keccak256 :: "bytes \<Rightarrow> b256"
  signature_as_bytes :: "'sig \<Rightarrow> bytes"
  signature_try_from :: "bytes \<Rightarrow> err + 'sig"
  recover_address_from_msg :: "'sig \<Rightarrow> bytes \<Rightarrow> address option"

text \<open>\<open>PrivateKeySigner\<close>: its address and \<open>sign_message_sync\<close>.\<close>

record 'sig signer =
  signer_address :: address
  sign_message :: "bytes \<Rightarrow> err + 'sig"

definition new_signed_ticker :: "('sig, 'z) oracle_api_scheme \<Rightarrow> ticker \<Rightarrow> 'sig \<Rightarrow> address \<Rightarrow> signed_ticker" where
  "new_signed_ticker L ticker signature signer =
     \<lparr>st_ticker = ticker, st_signature = signature_as_bytes L signature, st_signer = signer,
      st_id = keccak256 L (rlp_ticker L ticker)\<rparr>"

section \<open>Messages\<close>

datatype oracle_message_id = PingId | PongId | TickData | AttestationsId

datatype oracle_message_kind = Ping | Pong | SignedTicker signed_ticker | Attestations "address list"

record oracle_message =
  message_type :: oracle_message_id
  message :: oracle_message_kind

definition attestations_msg :: "address list \<Rightarrow> oracle_message" where
  "attestations_msg as = \<lparr>message_type = AttestationsId, message = Attestations as\<rparr>"

definition signed_ticker_msg :: "signed_ticker \<Rightarrow> oracle_message" where
  "signed_ticker_msg data = \<lparr>message_type = TickData, message = SignedTicker data\<rparr>"

definition ping_msg :: oracle_message where "ping_msg = \<lparr>message_type = PingId, message = Ping\<rparr>"

definition pong_msg :: oracle_message where "pong_msg = \<lparr>message_type = PongId, message = Pong\<rparr>"

fun id_byte :: "oracle_message_id \<Rightarrow> u8" where
  "id_byte PingId = 0x00"
| "id_byte PongId = 0x01"
| "id_byte TickData = 0x02"
| "id_byte AttestationsId = 0x03"

fun payload :: "('sig, 'z) oracle_api_scheme \<Rightarrow> oracle_message_kind \<Rightarrow> bytes" where
  "payload L Ping = []"
| "payload L Pong = []"
| "payload L (Attestations data) = rlp_addresses L data"
| "payload L (SignedTicker data) = rlp_signed_ticker L data"

definition encoded :: "('sig, 'z) oracle_api_scheme \<Rightarrow> oracle_message \<Rightarrow> bytes" where
  "encoded L m = id_byte (message_type m) # payload L (message m)"

definition id_of_byte :: "u8 \<Rightarrow> oracle_message_id option" where
  "id_of_byte b = (if b = 0x00 then Some PingId else if b = 0x01 then Some PongId
     else if b = 0x02 then Some TickData else if b = 0x03 then Some AttestationsId else None)"

fun decode_payload :: "('sig, 'z) oracle_api_scheme \<Rightarrow> oracle_message_id \<Rightarrow> bytes \<Rightarrow> oracle_message_kind option" where
  "decode_payload L PingId buf = Some Ping"
| "decode_payload L PongId buf = Some Pong"
| "decode_payload L AttestationsId buf = map_option Attestations (rlp_addresses_decode L buf)"
| "decode_payload L TickData buf = map_option SignedTicker (rlp_signed_ticker_decode L buf)"

fun decode_message :: "('sig, 'z) oracle_api_scheme \<Rightarrow> bytes \<Rightarrow> oracle_message option" where
  "decode_message L [] = None"
| "decode_message L (b # buf) =
     (case id_of_byte b of
        None \<Rightarrow> None
      | Some t \<Rightarrow> map_option (\<lambda>m. \<lparr>message_type = t, message = m\<rparr>) (decode_payload L t buf))"

lemma id_of_byte [simp]: "id_of_byte (id_byte t) = Some t"
  by (cases t) (simp_all add: id_of_byte_def)

text \<open>The message type that goes with a kind.\<close>

fun type_of_kind :: "oracle_message_kind \<Rightarrow> oracle_message_id" where
  "type_of_kind Ping = PingId"
| "type_of_kind Pong = PongId"
| "type_of_kind (SignedTicker _) = TickData"
| "type_of_kind (Attestations _) = AttestationsId"

lemma decode_payload_type: "decode_payload L t buf = Some k \<Longrightarrow> type_of_kind k = t"
  by (cases t) auto

lemma constructors_typed [simp]:
  "message_type (attestations_msg as) = type_of_kind (message (attestations_msg as))"
  "message_type (signed_ticker_msg d) = type_of_kind (message (signed_ticker_msg d))"
  "message_type ping_msg = type_of_kind (message ping_msg)"
  "message_type pong_msg = type_of_kind (message pong_msg)"
  by (simp_all add: attestations_msg_def signed_ticker_msg_def ping_msg_def pong_msg_def)

locale oracle_api_ok =
  fixes L :: "'sig oracle_api"
  assumes rlp_addresses_rt [simp]: "rlp_addresses_decode L (rlp_addresses L as) = Some as"
    and rlp_signed_ticker_rt [simp]: "rlp_signed_ticker_decode L (rlp_signed_ticker L t) = Some t"
    and signature_rt [simp]: "signature_try_from L (signature_as_bytes L sig) = Inr sig"
begin

lemma decode_encoded:
  "decode_message L (encoded L m) = Some m \<longleftrightarrow> message_type m = type_of_kind (message m)"
proof
  assume "decode_message L (encoded L m) = Some m"
  then have "decode_payload L (message_type m) (payload L (message m)) = Some (message m)"
    by (cases m) (auto simp: encoded_def)
  then show "message_type m = type_of_kind (message m)" by (simp add: decode_payload_type)
next
  assume "message_type m = type_of_kind (message m)"
  then show "decode_message L (encoded L m) = Some m"
    by (cases "message m"; cases m) (auto simp: encoded_def simp flip: id_byte.simps)
qed

lemmas decode_constructed [simp] = decode_encoded [THEN iffD2, OF constructors_typed(1)]
  decode_encoded [THEN iffD2, OF constructors_typed(2)]
  decode_encoded [THEN iffD2, OF constructors_typed(3)]
  decode_encoded [THEN iffD2, OF constructors_typed(4)]

end

text \<open>What a signer promises: the address recovered from its signature is its own.\<close>

definition signer_ok :: "('sig, 'z) oracle_api_scheme \<Rightarrow> 'sig signer \<Rightarrow> bool" where
  "signer_ok L k \<longleftrightarrow> (\<forall>msg sig. sign_message k msg = Inr sig \<longrightarrow>
     recover_address_from_msg L sig msg = Some (signer_address k))"

section \<open>The library functions on concrete data\<close>

definition number_of :: "nat \<Rightarrow> bytes \<Rightarrow> 'a::len word" where
  "number_of w bs = (case word_from_le w bs of Inl _ \<Rightarrow> 0 | Inr n \<Rightarrow> n)"

definition ticker_texts :: "ticker \<Rightarrow> string list" where
  "ticker_texts t = [
     event_type t, symbol t, price_change t, price_change_percent t, weighted_avg_price t,
     prev_close_price t, last_price t, last_quantity t, best_bid_price t, best_bid_quantity t,
     best_ask_price t, best_ask_quantity t, open_price t, high_price t, low_price t, volume t,
     quote_volume t]"

definition ticker_numbers :: "ticker \<Rightarrow> u64 list" where
  "ticker_numbers t = [
     event_time t, open_time t, close_time t, first_trade_id t, last_trade_id t, num_trades t]"

definition ticker_of :: "string list \<Rightarrow> u64 list \<Rightarrow> ticker" where
  "ticker_of ss ns = \<lparr>
     event_type = ss ! 0, event_time = ns ! 0, symbol = ss ! 1, price_change = ss ! 2,
     price_change_percent = ss ! 3, weighted_avg_price = ss ! 4, prev_close_price = ss ! 5,
     last_price = ss ! 6, last_quantity = ss ! 7, best_bid_price = ss ! 8,
     best_bid_quantity = ss ! 9, best_ask_price = ss ! 10, best_ask_quantity = ss ! 11,
     open_price = ss ! 12, high_price = ss ! 13, low_price = ss ! 14, volume = ss ! 15,
     quote_volume = ss ! 16, open_time = ns ! 1, close_time = ns ! 2, first_trade_id = ns ! 3,
     last_trade_id = ns ! 4, num_trades = ns ! 5\<rparr>"

lemma ticker_of_fields: "ticker_of (ticker_texts t) (ticker_numbers t) = t"
  by (cases t) (simp add: ticker_of_def ticker_texts_def ticker_numbers_def)

definition std_ticker_frames :: "ticker \<Rightarrow> bytes list" where
  "std_ticker_frames t = map text_bytes (ticker_texts t) @ map (word_le 8) (ticker_numbers t)"

definition std_ticker_of :: "bytes list \<Rightarrow> ticker" where
  "std_ticker_of bss = ticker_of (map text_of (take 17 bss)) (map (number_of 8) (drop 17 bss))"

definition std_signed_ticker_frames :: "signed_ticker \<Rightarrow> bytes list" where
  "std_signed_ticker_frames t = [st_signature t, word_le 20 (st_signer t), word_le 32 (st_id t)] @
     std_ticker_frames (st_ticker t)"

definition std_signed_ticker_of :: "bytes list \<Rightarrow> signed_ticker option" where
  "std_signed_ticker_of bss = (case bss of sg # a # i # r \<Rightarrow>
       Some \<lparr>st_ticker = std_ticker_of r, st_signature = sg, st_signer = number_of 20 a, st_id = number_of 32 i\<rparr>
     | _ \<Rightarrow> None)"

text \<open>Signatures are addresses, and everything is signed by the address it names.\<close>

definition std_oracle_api :: "address oracle_api" where
  "std_oracle_api =
     \<lparr>rlp_addresses = (\<lambda>as. concat (map (\<lambda>a. frame (word_le 20 a)) as)),
      rlp_addresses_decode = (\<lambda>bs. map_option (map (number_of 20)) (unframes [] bs)),
      rlp_ticker = (\<lambda>t. concat (map frame (std_ticker_frames t))),
      rlp_signed_ticker = (\<lambda>t. concat (map frame (std_signed_ticker_frames t))),
      rlp_signed_ticker_decode = (\<lambda>bs. Option.bind (unframes [] bs) std_signed_ticker_of),
      keccak256 = (\<lambda>bs. word_of_nat (le_value bs)),
      signature_as_bytes = word_le 20, signature_try_from = word_from_le 20,
      recover_address_from_msg = (\<lambda>a _. Some a)\<rparr>"

lemma number_rt:
  "number_of 8 (word_le 8 (n :: u64)) = n" "number_of 20 (word_le 20 (a :: address)) = a"
  "number_of 32 (word_le 32 (i :: b256)) = i"
  by (simp_all add: number_of_def byte_codec.dec_enc [OF word_le_codec])

lemma std_ticker_rt: "std_ticker_of (std_ticker_frames t) = t"
proof -
  have "length (map text_bytes (ticker_texts t)) = 17" by (simp add: ticker_texts_def)
  then have "take 17 (std_ticker_frames t) = map text_bytes (ticker_texts t)"
    "drop 17 (std_ticker_frames t) = map (word_le 8) (ticker_numbers t)"
    by (simp_all add: std_ticker_frames_def)
  then show ?thesis by (simp add: std_ticker_of_def comp_def number_rt ticker_of_fields)
qed

lemma std_signed_ticker_rt: "std_signed_ticker_of (std_signed_ticker_frames t) = Some t"
  by (cases t) (simp add: std_signed_ticker_of_def std_signed_ticker_frames_def std_ticker_rt number_rt)

interpretation std_oracle: oracle_api_ok std_oracle_api
proof
  fix as :: "address list" and t and sg :: address
  have "concat (map (\<lambda>a. frame (word_le 20 a)) as) = concat (map frame (map (word_le 20) as))"
    by (simp add: comp_def)
  moreover have "map (number_of 20) (map (word_le 20) as) = as"
    by (simp add: comp_def number_rt)
  ultimately show "rlp_addresses_decode std_oracle_api (rlp_addresses std_oracle_api as) = Some as"
    by (simp add: std_oracle_api_def unframes_frames del: map_map)
  show "rlp_signed_ticker_decode std_oracle_api (rlp_signed_ticker std_oracle_api t) = Some t"
    by (simp add: std_oracle_api_def unframes_frames std_signed_ticker_rt)
  show "signature_try_from std_oracle_api (signature_as_bytes std_oracle_api sg) = Inr sg"
    by (simp add: std_oracle_api_def byte_codec.dec_enc [OF word_le_codec])
qed

text \<open>
  Property C30. A message of the oracle protocol survives the wire exactly when its type is the one
  of its payload, as it is for every message the constructors build; with another type it decodes
  to nothing or to a different message.
\<close>

theorem oracle_message_roundtrip:
  assumes "oracle_api_ok L"
  shows "(decode_message L (encoded L m) = Some m \<longleftrightarrow> message_type m = type_of_kind (message m)) \<and>
    decode_message L (encoded L (attestations_msg as)) = Some (attestations_msg as) \<and>
    decode_message L (encoded L (signed_ticker_msg t)) = Some (signed_ticker_msg t) \<and>
    decode_message L (encoded L ping_msg) = Some ping_msg \<and> decode_message L (encoded L pong_msg) = Some pong_msg"
  using oracle_api_ok.decode_encoded [OF assms] oracle_api_ok.decode_constructed [OF assms] by simp

theorem oracle_message_roundtrip_witness:
  "decode_message std_oracle_api (encoded std_oracle_api (attestations_msg [1, 2])) = Some (attestations_msg [1, 2])"
  using oracle_message_roundtrip [OF std_oracle.oracle_api_ok_axioms] by blast

end
