(* ===== verification/Binance.thy ===== *)
theory Binance
  imports Oracle_Proto Poll_Loops
begin

text \<open>
  The Binance data feed of the oracle (oracle/src/offchain_data): connecting with retries, the
  stream of tickers decoded from WebSocket frames, the connection that reconnects in the
  background, and the stream of data feeds over it. The WebSocket library and the JSON decoder are
  parameters: the outcome of each connection attempt, a frame's text and its decoding.
\<close>

section \<open>Errors and frames\<close>

text \<open>\<open>'e\<close> is the error type of the WebSocket library.\<close>

datatype 'e binance_error = Connection 'e | Decode string | MaxRetriesExceeded

record binance_response =
  rs_stream :: string
  rs_data :: ticker

record ('msg, 'e) feed_api =
  into_text :: "'msg \<Rightarrow> 'e + string"
  from_json :: "string \<Rightarrow> string + binance_response"

section \<open>Connecting\<close>

definition max_retries :: nat where "max_retries = 10"

text \<open>
  The loop of \<open>connect_with_retries\<close>: \<open>conn i\<close> is the outcome of the attempt \<open>i\<close>; the second
  component is the time slept, in seconds.
\<close>

function connect_loop :: "(nat \<Rightarrow> 'e + 'ws) \<Rightarrow> nat \<Rightarrow> nat \<Rightarrow> ('e binance_error + 'ws) \<times> nat" where
  "connect_loop conn attempts slept =
     (if attempts < max_retries
      then (case conn attempts of
          Inr connection \<Rightarrow> (Inr connection, slept)
        | Inl e \<Rightarrow> connect_loop conn (attempts + 1) (if attempts + 1 < max_retries then slept + 2 else slept))
      else (Inl MaxRetriesExceeded, slept))"
  by pat_completeness auto
termination by (relation "measure (\<lambda>(_, attempts, _). max_retries - attempts)") auto

declare connect_loop.simps [simp del]

definition connect_with_retries :: "(nat \<Rightarrow> 'e + 'ws) \<Rightarrow> ('e binance_error + 'ws) \<times> nat" where
  "connect_with_retries conn = connect_loop conn 0 0"

text \<open>Symbols joined with slashes, as the combined-stream address wants them.\<close>

fun join_with :: "string \<Rightarrow> string list \<Rightarrow> string" where
  "join_with sep [] = []"
| "join_with sep [x] = x"
| "join_with sep (x # xs) = x @ sep @ join_with sep xs"

definition feed_url :: "string list \<Rightarrow> string" where
  "feed_url symbols = ''wss://stream.binance.com/stream?streams='' @
     join_with ''/'' (map (\<lambda>symbol. symbol @ ''@ticker'') symbols)"

record ('msg, 'e) feeder =
  fd_inner :: "('e + 'msg) source"
  fd_symbols :: "string list"

text \<open>\<open>BinanceDataFeeder::new\<close>: \<open>conn url i\<close> is the outcome of the attempt \<open>i\<close> to connect to \<open>url\<close>.\<close>

definition new_feeder :: "(string \<Rightarrow> nat \<Rightarrow> 'e + ('e + 'msg) source) \<Rightarrow> string list \<Rightarrow> 'e binance_error + ('msg, 'e) feeder" where
  "new_feeder conn symbols =
     (case fst (connect_with_retries (conn (feed_url symbols))) of
        Inl e \<Rightarrow> Inl e
      | Inr client \<Rightarrow> Inr \<lparr>fd_inner = client, fd_symbols = symbols\<rparr>)"

section \<open>The stream of tickers\<close>

text \<open>A frame that is no text, or no response, is dropped, and the poll is pending although more may be ready.\<close>

definition feeder_poll :: "('msg, 'e) feed_api \<Rightarrow> ('msg, 'e) feeder \<Rightarrow> ('e binance_error + ticker) option poll \<times> ('msg, 'e) feeder" where
  "feeder_poll F s =
     (case poll_source (fd_inner s) of
        (item, inner) \<Rightarrow>
          (let s = s\<lparr>fd_inner := inner\<rparr> in
           case item of
             Pending \<Rightarrow> (Pending, s)
           | Ready None \<Rightarrow> (Ready None, s)
           | Ready (Some (Inl e)) \<Rightarrow> (Ready (Some (Inl (Connection e))), s)
           | Ready (Some (Inr msg)) \<Rightarrow>
               (case into_text F msg of
                  Inl e \<Rightarrow> (Pending, s)
                | Inr text \<Rightarrow>
                    (case from_json F text of
                       Inl e \<Rightarrow> (Pending, s)
                     | Inr response \<Rightarrow> (Ready (Some (Inr (rs_data response))), s)))))"

section \<open>Reconnecting\<close>

text \<open>The reconnection is a future: what a poll of it gives.\<close>

record ('msg, 'e) binance_connection =
  bc_inner :: "('msg, 'e) feeder"
  bc_reconnection :: "('e binance_error + ('msg, 'e) feeder) poll option"

definition new_binance_connection ::
  "(string \<Rightarrow> nat \<Rightarrow> 'e + ('e + 'msg) source) \<Rightarrow> string list \<Rightarrow> 'e binance_error + ('msg, 'e) binance_connection" where
  "new_binance_connection conn symbols =
     (case new_feeder conn symbols of
        Inl e \<Rightarrow> Inl e
      | Inr inner \<Rightarrow> Inr \<lparr>bc_inner = inner, bc_reconnection = None\<rparr>)"

text \<open>The second half of \<open>poll_next\<close>: a connection error starts the reconnection, still pending.\<close>

definition poll_inner :: "('msg, 'e) feed_api \<Rightarrow> ('msg, 'e) binance_connection \<Rightarrow> ('e binance_error + ticker) option poll \<times> ('msg, 'e) binance_connection" where
  "poll_inner F s =
     (case feeder_poll F (bc_inner s) of
        (r, inner) \<Rightarrow>
          (let s = s\<lparr>bc_inner := inner\<rparr> in
           case r of
             Ready (Some (Inr msg)) \<Rightarrow> (Ready (Some (Inr msg)), s)
           | Ready (Some (Inl e)) \<Rightarrow> (Pending, s\<lparr>bc_reconnection := Some Pending\<rparr>)
           | Ready None \<Rightarrow> (Ready None, s)
           | Pending \<Rightarrow> (Pending, s)))"

definition binance_poll :: "('msg, 'e) feed_api \<Rightarrow> ('msg, 'e) binance_connection \<Rightarrow> ('e binance_error + ticker) option poll \<times> ('msg, 'e) binance_connection" where
  "binance_poll F s =
     (let reconn = bc_reconnection s; s = s\<lparr>bc_reconnection := None\<rparr> in
      case reconn of
        None \<Rightarrow> poll_inner F s
      | Some (Ready (Inr conn)) \<Rightarrow> poll_inner F (s\<lparr>bc_inner := conn\<rparr>)
      | Some (Ready (Inl e)) \<Rightarrow> (Ready (Some (Inl e)), s)
      | Some Pending \<Rightarrow> (Pending, s\<lparr>bc_reconnection := Some Pending\<rparr>))"

text \<open>\<open>DataFeederStream::poll_next\<close>: the feeds and their errors, wrapped.\<close>

datatype data_feeds = BinanceFeed ticker

datatype 'e data_feeder_error = BinanceError "'e binance_error"

definition data_feed_poll :: "('msg, 'e) feed_api \<Rightarrow> ('msg, 'e) binance_connection \<Rightarrow> ('e data_feeder_error + data_feeds) option poll \<times> ('msg, 'e) binance_connection" where
  "data_feed_poll F s =
     (case binance_poll F s of
        (r, s) \<Rightarrow>
          (case r of
             Ready (Some (Inr ticker)) \<Rightarrow> (Ready (Some (Inr (BinanceFeed ticker))), s)
           | Ready (Some (Inl e)) \<Rightarrow> (Ready (Some (Inl (BinanceError e))), s)
           | Ready None \<Rightarrow> (Ready None, s)
           | Pending \<Rightarrow> (Pending, s)))"

section \<open>Between the polls\<close>

text \<open>Frames arrive, the stream ends, the reconnection future completes, the stream is polled.\<close>

datatype ('msg, 'e) feed_event = FrameArrives "'e + 'msg" | StreamEnds
  | ReconnectCompletes "nat \<Rightarrow> 'e + ('e + 'msg) source" | FeedPolled

fun feed_step ::
  "('msg, 'e) feed_api \<Rightarrow> ('msg, 'e) feed_event \<Rightarrow> ('msg, 'e) binance_connection \<times> ('e data_feeder_error + data_feeds) option poll list
     \<Rightarrow> ('msg, 'e) binance_connection \<times> ('e data_feeder_error + data_feeds) option poll list" where
  "feed_step F (FrameArrives x) (s, out) =
     (let inner = bc_inner s; src = fd_inner inner in
      (s\<lparr>bc_inner := inner\<lparr>fd_inner := src\<lparr>src_items := src_items src @ [x]\<rparr>\<rparr>\<rparr>, out))"
| "feed_step F StreamEnds (s, out) =
     (let inner = bc_inner s; src = fd_inner inner in
      (s\<lparr>bc_inner := inner\<lparr>fd_inner := src\<lparr>src_closed := True\<rparr>\<rparr>\<rparr>, out))"
| "feed_step F (ReconnectCompletes conn) (s, out) =
     (case bc_reconnection s of
        Some Pending \<Rightarrow> (s\<lparr>bc_reconnection := Some (Ready (new_feeder (\<lambda>_. conn) (fd_symbols (bc_inner s))))\<rparr>, out)
      | _ \<Rightarrow> (s, out))"
| "feed_step F FeedPolled (s, out) = (case data_feed_poll F s of (r, s) \<Rightarrow> (s, out @ [r]))"

definition run_feed ::
  "('msg, 'e) feed_api \<Rightarrow> ('msg, 'e) feed_event list \<Rightarrow> ('msg, 'e) binance_connection
     \<Rightarrow> ('msg, 'e) binance_connection \<times> ('e data_feeder_error + data_feeds) option poll list" where
  "run_feed F events s = fold (feed_step F) events (s, [])"

section \<open>How often it tries\<close>

text \<open>
  The loop is a search: the first attempt of the ten that connects, two seconds after every failed
  one before it; and no sleep after the last failure.
\<close>

lemma connect_loop_eq:
  "attempts \<le> max_retries \<Longrightarrow> connect_loop conn attempts slept =
     (case find (\<lambda>i. \<not> isl (conn i)) [attempts..<max_retries] of
        Some i \<Rightarrow> (Inr (projr (conn i)), slept + 2 * (i - attempts))
      | None \<Rightarrow> (Inl MaxRetriesExceeded, slept + 2 * (max_retries - 1 - attempts)))"
proof (induction conn attempts slept rule: connect_loop.induct)
  case (1 conn attempts slept)
  show ?case
  proof (cases "attempts < max_retries")
    case True
    then have upt: "[attempts..<max_retries] = attempts # [Suc attempts..<max_retries]"
      by (simp add: upt_conv_Cons)
    show ?thesis
    proof (cases "conn attempts")
      case (Inl e)
      let ?slept = "if attempts + 1 < max_retries then slept + 2 else slept"
      have "connect_loop conn attempts slept = connect_loop conn (attempts + 1) ?slept"
        using True Inl by (subst connect_loop.simps) simp
      also have "\<dots> = (case find (\<lambda>i. \<not> isl (conn i)) [attempts + 1..<max_retries] of
          Some i \<Rightarrow> (Inr (projr (conn i)), ?slept + 2 * (i - (attempts + 1)))
        | None \<Rightarrow> (Inl MaxRetriesExceeded, ?slept + 2 * (max_retries - 1 - (attempts + 1))))"
        using 1 True Inl by simp
      also have "\<dots> = (case find (\<lambda>i. \<not> isl (conn i)) [attempts..<max_retries] of
          Some i \<Rightarrow> (Inr (projr (conn i)), slept + 2 * (i - attempts))
        | None \<Rightarrow> (Inl MaxRetriesExceeded, slept + 2 * (max_retries - 1 - attempts)))"
        (is "?l = ?r")
      proof (cases "find (\<lambda>i. \<not> isl (conn i)) [attempts + 1..<max_retries]")
        case None
        with True Inl upt show ?thesis by auto
      next
        case (Some i)
        then have "attempts + 1 \<le> i" "i < max_retries" by (auto simp: find_Some_iff)
        with Some True Inl upt show ?thesis by auto
      qed
      finally show ?thesis .
    next
      case (Inr c)
      with True upt show ?thesis by (subst connect_loop.simps) simp
    qed
  next
    case False
    with 1(2) show ?thesis by (subst connect_loop.simps) simp
  qed
qed

lemma connect_with_retries_error:
  "fst (connect_with_retries conn) = Inl e \<longleftrightarrow> e = MaxRetriesExceeded \<and> (\<forall>i < max_retries. isl (conn i))"
  by (auto simp: connect_with_retries_def connect_loop_eq find_None_iff split: option.split)
    (auto simp: find_Some_iff)

lemma new_feeder_error:
  "new_feeder conn symbols = Inl e \<longleftrightarrow>
     e = MaxRetriesExceeded \<and> (\<forall>i < max_retries. isl (conn (feed_url symbols) i))"
  using connect_with_retries_error [of "conn (feed_url symbols)" e]
  by (auto simp: new_feeder_def split: sum.split)

section \<open>Which errors the feed reports\<close>

text \<open>A reconnection that is under way, or completed with the outcome of some attempts.\<close>

definition reconnection_ok :: "('msg, 'e) feed_event set \<Rightarrow> ('e binance_error + ('msg, 'e) feeder) poll option \<Rightarrow> bool" where
  "reconnection_ok evs rc \<longleftrightarrow> (\<forall>e. rc = Some (Ready (Inl e)) \<longrightarrow>
     e = MaxRetriesExceeded \<and> (\<exists>conn. ReconnectCompletes conn \<in> evs \<and> (\<forall>i < max_retries. isl (conn i))))"

lemma reconnection_ok_mono: "reconnection_ok evs rc \<Longrightarrow> evs \<subseteq> evs' \<Longrightarrow> reconnection_ok evs' rc"
  by (fastforce simp: reconnection_ok_def)

lemma poll_inner_reconnection:
  "poll_inner F s = (r, s') \<Longrightarrow> bc_reconnection s = None \<Longrightarrow>
     (bc_reconnection s' = None \<or> bc_reconnection s' = Some Pending) \<and> (\<forall>e. r \<noteq> Ready (Some (Inl e)))"
  by (auto simp: poll_inner_def Let_def split: prod.splits poll.splits option.splits sum.splits)

lemma data_feed_poll_errors:
  assumes "data_feed_poll F s = (r, s')"
  shows "(bc_reconnection s' = None \<or> bc_reconnection s' = Some Pending) \<and>
    (\<forall>e. r = Ready (Some (Inl e)) \<longrightarrow> (\<exists>e'. e = BinanceError e' \<and> bc_reconnection s = Some (Ready (Inl e'))))"
proof -
  obtain q t where q: "binance_poll F s = (q, t)" by (cases "binance_poll F s")
  have "(bc_reconnection t = None \<or> bc_reconnection t = Some Pending) \<and>
      (\<forall>e. q = Ready (Some (Inl e)) \<longrightarrow> bc_reconnection s = Some (Ready (Inl e)))"
    using q by (auto simp: binance_poll_def Let_def split: option.splits poll.splits sum.splits
        dest: poll_inner_reconnection)
  with assms q show ?thesis
    by (auto simp: data_feed_poll_def split: poll.splits option.splits sum.splits)
qed

lemma feed_step_errors:
  assumes "feed_step F ev (s, out) = (s', out')" "reconnection_ok evs (bc_reconnection s)"
    "\<forall>e. Ready (Some (Inl e)) \<in> set out \<longrightarrow> (\<exists>e'. e = BinanceError e' \<and> reconnection_ok evs (Some (Ready (Inl e'))))"
  shows "reconnection_ok (insert ev evs) (bc_reconnection s') \<and>
    (\<forall>e. Ready (Some (Inl e)) \<in> set out' \<longrightarrow> (\<exists>e'. e = BinanceError e' \<and> reconnection_ok (insert ev evs) (Some (Ready (Inl e')))))"
proof -
  have mono: "reconnection_ok evs rc \<Longrightarrow> reconnection_ok (insert ev evs) rc" for rc
    by (rule reconnection_ok_mono) auto
  show ?thesis
  proof (cases ev)
    case (ReconnectCompletes conn)
    show ?thesis
    proof (cases "bc_reconnection s = Some Pending")
      case True
      with ReconnectCompletes assms mono show ?thesis
        by (auto simp: reconnection_ok_def [of _ "Some (Ready (new_feeder _ _))"] new_feeder_error)
    next
      case False
      with ReconnectCompletes assms mono show ?thesis by (auto split: option.splits poll.splits)
    qed
  next
    case FeedPolled
    obtain r t where r: "data_feed_poll F s = (r, t)" by (cases "data_feed_poll F s")
    from data_feed_poll_errors [OF r] r FeedPolled assms mono show ?thesis
      by (auto simp: reconnection_ok_def)
  qed (use assms mono in \<open>auto simp: Let_def\<close>)
qed

lemma run_feed_errors:
  assumes "reconnection_ok {} (bc_reconnection s0)" "run_feed F events s0 = (s, out)"
  shows "reconnection_ok (set events) (bc_reconnection s) \<and>
    (\<forall>e. Ready (Some (Inl e)) \<in> set out \<longrightarrow>
       (\<exists>e'. e = BinanceError e' \<and> reconnection_ok (set events) (Some (Ready (Inl e')))))"
  using assms(2)
proof (induction events arbitrary: s out rule: rev_induct)
  case Nil
  with assms(1) show ?case by (simp add: run_feed_def)
next
  case (snoc ev events)
  obtain t o' where t: "run_feed F events s0 = (t, o')" by (cases "run_feed F events s0")
  with snoc.prems have "feed_step F ev (t, o') = (s, out)" by (simp add: run_feed_def)
  from feed_step_errors [OF this] snoc.IH [OF t] show ?case by simp
qed

section \<open>Properties\<close>

lemma connect_with_retries_first:
  "connect_with_retries conn =
     (case find (\<lambda>i. \<not> isl (conn i)) [0..<10] of
        Some i \<Rightarrow> (Inr (projr (conn i)), 2 * i)
      | None \<Rightarrow> (Inl MaxRetriesExceeded, 18))"
  using connect_loop_eq [of 0 conn 0] by (simp add: connect_with_retries_def max_retries_def split: option.split)

text \<open>A connection error of the feeder, and a reconnection that failed, at a poll of the stream.\<close>

lemma poll_connection_error:
  "bc_reconnection s = None \<Longrightarrow> feeder_poll F (bc_inner s) = (Ready (Some (Inl e)), inner) \<Longrightarrow>
     data_feed_poll F s = (Pending, s\<lparr>bc_inner := inner, bc_reconnection := Some Pending\<rparr>)"
  by (simp add: data_feed_poll_def binance_poll_def poll_inner_def)

lemma poll_failed_reconnection:
  "data_feed_poll F s = (Ready (Some (Inl e)), s') \<Longrightarrow> s' = s\<lparr>bc_reconnection := None\<rparr>"
  by (auto simp: data_feed_poll_def binance_poll_def poll_inner_def Let_def
      split: prod.splits option.splits poll.splits sum.splits)

text \<open>
  Property C33. What becomes of the errors of the Binance feed. The only error it ever reports is that
  the retries are used up, and only for a reconnection all of whose ten attempts failed (eighteen
  seconds of sleep): frames that do not decode are never passed on, and a connection error makes
  the poll pending and starts a reconnection. After a reported failure the feed holds the
  broken connection and no reconnection: it does not go on trying to reconnect, but reads the broken
  connection again. Connecting takes the first attempt of ten that succeeds, after two seconds for
  each one before it.
\<close>

theorem feed_error_means_ten_failures:
  assumes "bc_reconnection s0 = None" "run_feed F events s0 = (s, out)"
  shows "(Ready (Some (Inl e)) \<in> set out \<longrightarrow> e = BinanceError MaxRetriesExceeded \<and>
      (\<exists>conn. ReconnectCompletes conn \<in> set events \<and> (\<forall>i < 10. isl (conn i)) \<and>
         connect_with_retries conn = (Inl MaxRetriesExceeded, 18))) \<and>
    (bc_reconnection s = None \<longrightarrow> feeder_poll F (bc_inner s) = (Ready (Some (Inl ce)), inner) \<longrightarrow>
       data_feed_poll F s = (Pending, s\<lparr>bc_inner := inner, bc_reconnection := Some Pending\<rparr>)) \<and>
    (data_feed_poll F s = (Ready (Some (Inl e')), s') \<longrightarrow> s' = s\<lparr>bc_reconnection := None\<rparr>) \<and>
    connect_with_retries attempt =
      (case find (\<lambda>i. \<not> isl (attempt i)) [0..<10] of
         Some i \<Rightarrow> (Inr (projr (attempt i)), 2 * i)
       | None \<Rightarrow> (Inl MaxRetriesExceeded, 18))"
proof (intro conjI impI)
  have "reconnection_ok {} (bc_reconnection s0)" using assms(1) by (simp add: reconnection_ok_def)
  note errors = run_feed_errors [OF this assms(2)]
  assume "Ready (Some (Inl e)) \<in> set out"
  with errors obtain conn where *: "e = BinanceError MaxRetriesExceeded" "ReconnectCompletes conn \<in> set events"
    "\<forall>i < max_retries. isl (conn i)" by (auto simp: reconnection_ok_def)
  from *(3) have "find (\<lambda>i. \<not> isl (conn i)) [0..<10] = None" by (auto simp: find_None_iff max_retries_def)
  then have "connect_with_retries conn = (Inl MaxRetriesExceeded, 18)" by (simp add: connect_with_retries_first)
  with * show "e = BinanceError MaxRetriesExceeded"
    "\<exists>conn. ReconnectCompletes conn \<in> set events \<and> (\<forall>i < 10. isl (conn i)) \<and>
       connect_with_retries conn = (Inl MaxRetriesExceeded, 18)" by (auto simp: max_retries_def)
qed (simp_all add: poll_connection_error poll_failed_reconnection connect_with_retries_first)

definition demo_feed_events :: "(unit, unit) feed_event list" where
  "demo_feed_events = [FrameArrives (Inl ()), FeedPolled, ReconnectCompletes (\<lambda>_. Inl ()), FeedPolled]"

definition demo_feed :: "(unit, unit) binance_connection" where
  "demo_feed = \<lparr>bc_inner = \<lparr>fd_inner = \<lparr>src_items = [], src_closed = False\<rparr>, fd_symbols = [''btcusdc'']\<rparr>,
     bc_reconnection = None\<rparr>"

lemma demo_feed_run:
  "snd (run_feed \<lparr>into_text = (\<lambda>_. Inl ()), from_json = (\<lambda>_. Inl ''no'')\<rparr> demo_feed_events demo_feed)
     = [Pending, Ready (Some (Inl (BinanceError MaxRetriesExceeded)))]"
proof -
  have "new_feeder (\<lambda>_ _. Inl ()) [''btcusdc''] = (Inl MaxRetriesExceeded :: unit binance_error + (unit, unit) feeder)"
    by (simp add: new_feeder_error)
  then show ?thesis
    by (simp add: run_feed_def demo_feed_events_def demo_feed_def data_feed_poll_def binance_poll_def
        poll_inner_def feeder_poll_def poll_source_def)
qed

text \<open>A connection error, then a reconnection that fails: pending, the error, and a connection that is not replaced.\<close>

theorem feed_error_means_ten_failures_witness:
  "(\<exists>conn. ReconnectCompletes conn \<in> set demo_feed_events \<and> connect_with_retries conn = (Inl MaxRetriesExceeded, 18)) \<and>
   fst (connect_with_retries (\<lambda>i. if i = 2 then Inr () else Inl ())) = Inr ()"
proof -
  let ?F = "\<lparr>into_text = (\<lambda>_. Inl ()), from_json = (\<lambda>_. Inl ''no'')\<rparr> :: (unit, unit) feed_api"
  obtain s out where run: "run_feed ?F demo_feed_events demo_feed = (s, out)" by fastforce
  have "bc_reconnection demo_feed = None" by (simp add: demo_feed_def)
  note errors = feed_error_means_ten_failures [OF this run]
  have "Ready (Some (Inl (BinanceError MaxRetriesExceeded))) \<in> set out" using demo_feed_run run by simp
  with errors [where e = "BinanceError MaxRetriesExceeded"] have
    "\<exists>conn. ReconnectCompletes conn \<in> set demo_feed_events \<and> connect_with_retries conn = (Inl MaxRetriesExceeded, 18)" by blast
  moreover have "connect_with_retries (\<lambda>i. if i = 2 then Inr () else Inl () :: unit + unit) = (Inr (), 4)"
    using errors [where attempt = "\<lambda>i. if i = 2 then Inr () else Inl ()"] by (simp add: upt_rec numeral_2_eq_2)
  ultimately show ?thesis by simp
qed

end
