(* ===== verification/Oracle_Connection.thy ===== *)
theory Oracle_Connection
  imports Oracle_Proto Broadcast
begin

text \<open>
  The connection of the oracle's RLPx subprotocol as a stream of outgoing messages
  (oracle/src/network/proto/connection.rs): one poll, its loop over the messages of the peer, and
  the events between the polls. A channel is the list of its items that are ready; the signed
  tickers come from the broadcast channel the connection subscribed to.
\<close>

section \<open>The connection\<close>

text \<open>The capacity of the channel the signed tickers are broadcast on.\<close>

definition BROADCAST_CHANNEL_SIZE :: nat where
  "BROADCAST_CHANNEL_SIZE = 200"

text \<open>\<open>OracleCommand::Attestation(id, tx)\<close>, with a number for the response channel \<open>tx\<close>.\<close>

datatype oracle_command = Attestation b256 nat

record connection =
  cn_inbox :: "bytes list" \<comment> \<open>messages of the peer that are ready\<close>
  cn_closed :: bool \<comment> \<open>the peer's stream ends after them\<close>
  cn_commands :: "oracle_command list"
  cn_signed_ticks :: "signed_ticker receiver"
  cn_initial_ping :: "oracle_message option"
  cn_attestations :: "b256 \<rightharpoonup> address list"
  cn_pending_att :: "nat option"
  cn_answers :: "(nat \<times> address list) list" \<comment> \<open>what was sent on the response channels\<close>

text \<open>
  \<open>into_connection\<close>: only the side that dialled sends the ping; the connection subscribes to the
  channel \<open>to_peers\<close>, of capacity \<open>cap\<close>, and gets the tickers that are sent from now on.
\<close>

definition into_connection :: "nat \<Rightarrow> bool \<Rightarrow> connection" where
  "into_connection cap is_outgoing =
     \<lparr>cn_inbox = [], cn_closed = False, cn_commands = [], cn_signed_ticks = subscribe_to cap [],
      cn_initial_ping = (if is_outgoing then Some ping_msg else None),
      cn_attestations = Map.empty, cn_pending_att = None, cn_answers = []\<rparr>"

lemma into_connection_ticks [simp]: "cn_signed_ticks (into_connection cap is_outgoing) = subscribe_to cap []"
  by (simp add: into_connection_def)

text \<open>\<open>Poll<Option<BytesMut>>\<close>, or a panic.\<close>

datatype poll_result = PollPending | PollItem bytes | PollEnd | PollPanic string

definition attestations_for :: "connection \<Rightarrow> b256 \<Rightarrow> address list" where
  "attestations_for s i = (case cn_attestations s i of None \<Rightarrow> [] | Some as \<Rightarrow> as)"

definition add_attestation :: "b256 \<Rightarrow> address \<Rightarrow> connection \<Rightarrow> connection" where
  "add_attestation i addr s = s\<lparr>cn_attestations := (cn_attestations s)(i \<mapsto> attestations_for s i @ [addr])\<rparr>"

text \<open>A command or a tick to send, if there is one; a lag error of the tick stream is dropped.\<close>

definition serve :: "('sig, 'z) oracle_api_scheme \<Rightarrow> connection \<Rightarrow> bytes option \<times> connection" where
  "serve L s =
     (case cn_commands s of
        Attestation i tx # cs \<Rightarrow>
          (Some (encoded L (attestations_msg (attestations_for s i))), s\<lparr>cn_commands := cs, cn_pending_att := Some tx\<rparr>)
      | [] \<Rightarrow>
          (case recv (cn_signed_ticks s) of
             (RecvValue tick, rx) \<Rightarrow> (Some (encoded L (signed_ticker_msg tick)), s\<lparr>cn_signed_ticks := rx\<rparr>)
           | (RecvLagged _, rx) \<Rightarrow> (None, s\<lparr>cn_signed_ticks := rx\<rparr>)
           | (RecvEmpty, rx) \<Rightarrow> (None, s\<lparr>cn_signed_ticks := rx\<rparr>)))"

definition on_signed_ticker :: "('sig, 'z) oracle_api_scheme \<Rightarrow> signed_ticker \<Rightarrow> connection \<Rightarrow> poll_result \<times> connection" where
  "on_signed_ticker L signed_data s =
     (case signature_try_from L (st_signature signed_data) of
        Inl _ \<Rightarrow> (PollPanic ''Signature::try_from(..).unwrap()'', s)
      | Inr sig \<Rightarrow>
          (case recover_address_from_msg L sig (rlp_ticker L (st_ticker signed_data)) of
             None \<Rightarrow> (PollEnd, s)
           | Some addr \<Rightarrow>
               (let s = (if addr = st_signer signed_data then add_attestation (st_id signed_data) addr s else s) in
                (PollItem (encoded L (attestations_msg (attestations_for s (st_id signed_data)))), s))))"

text \<open>A message of the peer: the result the poll returns with, or \<open>None\<close> to go round the loop.\<close>

fun on_message :: "('sig, 'z) oracle_api_scheme \<Rightarrow> oracle_message_kind \<Rightarrow> connection \<Rightarrow> poll_result option \<times> connection" where
  "on_message L Ping s = (Some (PollItem (encoded L pong_msg)), s)"
| "on_message L Pong s = (None, s)"
| "on_message L (Attestations as) s =
     (case cn_pending_att s of
        None \<Rightarrow> (None, s)
      | Some tx \<Rightarrow> (None, s\<lparr>cn_pending_att := None, cn_answers := cn_answers s @ [(tx, as)]\<rparr>))"
| "on_message L (SignedTicker signed_data) s = (case on_signed_ticker L signed_data s of (r, s) \<Rightarrow> (Some r, s))"

text \<open>The loop of \<open>poll_next\<close>, on the ready messages of the peer.\<close>

fun poll_loop :: "('sig, 'z) oracle_api_scheme \<Rightarrow> bytes list \<Rightarrow> connection \<Rightarrow> poll_result \<times> connection" where
  "poll_loop L msgs s =
     (case serve L s of
        (Some out, s) \<Rightarrow> (PollItem out, s\<lparr>cn_inbox := msgs\<rparr>)
      | (None, s) \<Rightarrow>
          (case msgs of
             [] \<Rightarrow> (if cn_closed s then PollEnd else PollPending, s\<lparr>cn_inbox := []\<rparr>)
           | msg # msgs \<Rightarrow>
               (case decode_message L msg of
                  None \<Rightarrow> (PollEnd, s\<lparr>cn_inbox := msgs\<rparr>)
                | Some m \<Rightarrow>
                    (case on_message L (message m) s of
                       (Some r, s) \<Rightarrow> (r, s\<lparr>cn_inbox := msgs\<rparr>)
                     | (None, s) \<Rightarrow> poll_loop L msgs s))))"

declare poll_loop.simps [simp del]

definition poll_next :: "('sig, 'z) oracle_api_scheme \<Rightarrow> connection \<Rightarrow> poll_result \<times> connection" where
  "poll_next L s =
     (case cn_initial_ping s of
        Some ping \<Rightarrow> (PollItem (encoded L ping), s\<lparr>cn_initial_ping := None\<rparr>)
      | None \<Rightarrow> poll_loop L (cn_inbox s) s)"

section \<open>Between the polls\<close>

datatype connection_event = CommandArrives oracle_command | TickBroadcast signed_ticker
  | MessageArrives bytes | PeerCloses | Polled

text \<open>After its end or a panic the connection is not polled again.\<close>

fun live :: "poll_result list \<Rightarrow> bool" where
  "live rs = list_all (\<lambda>r. case r of PollEnd \<Rightarrow> False | PollPanic _ \<Rightarrow> False | _ \<Rightarrow> True) rs"

fun connection_step :: "('sig, 'z) oracle_api_scheme \<Rightarrow> connection_event \<Rightarrow> connection \<times> poll_result list \<Rightarrow> connection \<times> poll_result list" where
  "connection_step L (CommandArrives c) (s, out) = (s\<lparr>cn_commands := cn_commands s @ [c]\<rparr>, out)"
| "connection_step L (TickBroadcast t) (s, out) = (s\<lparr>cn_signed_ticks := sent_to t (cn_signed_ticks s)\<rparr>, out)"
| "connection_step L (MessageArrives m) (s, out) = (s\<lparr>cn_inbox := cn_inbox s @ [m]\<rparr>, out)"
| "connection_step L PeerCloses (s, out) = (s\<lparr>cn_closed := True\<rparr>, out)"
| "connection_step L Polled (s, out) =
     (if live out then (case poll_next L s of (r, s) \<Rightarrow> (s, out @ [r])) else (s, out))"

definition run_connection :: "('sig, 'z) oracle_api_scheme \<Rightarrow> nat \<Rightarrow> bool \<Rightarrow> connection_event list \<Rightarrow> connection \<times> poll_result list" where
  "run_connection L cap is_outgoing events = fold (connection_step L) events (into_connection cap is_outgoing, [])"

section \<open>Attestations are signed\<close>

text \<open>The message is a signed ticker for \<open>i\<close> whose signature over its ticker is by its signer \<open>a\<close>.\<close>

definition attests :: "('sig, 'z) oracle_api_scheme \<Rightarrow> bytes \<Rightarrow> b256 \<Rightarrow> address \<Rightarrow> bool" where
  "attests L msg i a \<longleftrightarrow> (\<exists>ty t sig. decode_message L msg = Some \<lparr>message_type = ty, message = SignedTicker t\<rparr> \<and>
     st_id t = i \<and> st_signer t = a \<and> signature_try_from L (st_signature t) = Inr sig \<and>
     recover_address_from_msg L sig (rlp_ticker L (st_ticker t)) = Some a)"

definition genuine :: "('sig, 'z) oracle_api_scheme \<Rightarrow> bytes set \<Rightarrow> connection \<Rightarrow> bool" where
  "genuine L seen s \<longleftrightarrow> (\<forall>i a. a \<in> set (attestations_for s i) \<longrightarrow> (\<exists>msg \<in> seen. attests L msg i a))"

lemma genuine_mono: "genuine L seen s \<Longrightarrow> seen \<subseteq> seen' \<Longrightarrow> genuine L seen' s"
  by (fastforce simp: genuine_def)

lemma attestations_for_frame [simp]:
  "attestations_for (s\<lparr>cn_inbox := x1\<rparr>) = attestations_for s"
  "attestations_for (s\<lparr>cn_commands := x2\<rparr>) = attestations_for s"
  "attestations_for (s\<lparr>cn_signed_ticks := x3\<rparr>) = attestations_for s"
  "attestations_for (s\<lparr>cn_pending_att := x4\<rparr>) = attestations_for s"
  "attestations_for (s\<lparr>cn_answers := x5\<rparr>) = attestations_for s"
  "attestations_for (s\<lparr>cn_initial_ping := x6\<rparr>) = attestations_for s"
  "attestations_for (s\<lparr>cn_closed := x7\<rparr>) = attestations_for s"
  by (simp_all add: attestations_for_def fun_eq_iff)

lemma attestations_for_add [simp]:
  "attestations_for (add_attestation i a s) j = attestations_for s j @ (if j = i then [a] else [])"
  by (simp add: attestations_for_def add_attestation_def)

lemma serve_attestations [simp]: "serve L s = (r, s') \<Longrightarrow> attestations_for s' = attestations_for s"
  by (auto simp: serve_def split: list.splits oracle_command.splits prod.splits recv_result.splits)

lemma on_message_genuine:
  assumes "decode_message L msg = Some m" "on_message L (message m) s = (r, s')" "genuine L seen s" "msg \<in> seen"
  shows "genuine L seen s'"
proof (cases "message m")
  case (SignedTicker t)
  then have m: "m = \<lparr>message_type = message_type m, message = SignedTicker t\<rparr>" by (cases m) simp
  have "attests L msg (st_id t) (st_signer t)"
    if "signature_try_from L (st_signature t) = Inr sig"
      "recover_address_from_msg L sig (rlp_ticker L (st_ticker t)) = Some (st_signer t)" for sig
    using that assms(1) m by (auto simp: attests_def)
  with assms SignedTicker show ?thesis
    by (auto simp: genuine_def on_signed_ticker_def Let_def split: sum.splits option.splits if_splits)
qed (use assms in \<open>auto simp: genuine_def split: option.splits\<close>)

lemma poll_loop_genuine:
  assumes "genuine L seen s" "set msgs \<subseteq> seen" "poll_loop L msgs s = (r, s')"
  shows "genuine L seen s' \<and> set (cn_inbox s') \<subseteq> set msgs"
  using assms
proof (induction msgs arbitrary: s)
  case Nil
  then show ?case
    by (subst (asm) poll_loop.simps) (auto simp: genuine_def split: prod.splits option.splits)
next
  case (Cons msg msgs)
  obtain out t where sv: "serve L s = (out, t)" by (cases "serve L s")
  then have t: "genuine L seen t" using Cons.prems(1) by (simp add: genuine_def)
  show ?case
  proof (cases "out = None \<and> decode_message L msg \<noteq> None")
    case False
    with sv Cons.prems(3) t show ?thesis
      by (subst (asm) poll_loop.simps) (auto simp: genuine_def split: option.splits)
  next
    case True
    then obtain m where m: "decode_message L msg = Some m" by auto
    obtain r' u where om: "on_message L (message m) t = (r', u)" by (cases "on_message L (message m) t")
    have u: "genuine L seen u" using on_message_genuine[OF m om t] Cons.prems(2) by simp
    show ?thesis
    proof (cases r')
      case None
      with True sv m om Cons.prems(3) have "poll_loop L msgs u = (r, s')"
        by (subst (asm) poll_loop.simps) simp
      with Cons.IH[OF u] Cons.prems(2) show ?thesis by auto
    next
      case (Some p)
      with True sv m om u Cons.prems(3) show ?thesis
        by (subst (asm) poll_loop.simps) (auto simp: genuine_def)
    qed
  qed
qed

lemma poll_next_genuine:
  assumes "genuine L seen s" "set (cn_inbox s) \<subseteq> seen" "poll_next L s = (r, s')"
  shows "genuine L seen s' \<and> set (cn_inbox s') \<subseteq> seen"
  using assms poll_loop_genuine[of L seen s "cn_inbox s" r s']
  by (auto simp: poll_next_def genuine_def split: option.splits)

definition messages_in :: "connection_event list \<Rightarrow> bytes set" where
  "messages_in evs = {m. MessageArrives m \<in> set evs}"

lemma run_connection_genuine:
  "run_connection L cap outgoing evs = (s, out) \<Longrightarrow>
     genuine L (messages_in evs) s \<and> set (cn_inbox s) \<subseteq> messages_in evs"
proof (induction evs arbitrary: s out rule: rev_induct)
  case Nil
  then show ?case by (auto simp: run_connection_def into_connection_def genuine_def attestations_for_def)
next
  case (snoc ev evs)
  obtain t o' where t: "run_connection L cap outgoing evs = (t, o')" by (cases "run_connection L cap outgoing evs")
  with snoc.prems have st: "connection_step L ev (t, o') = (s, out)" by (simp add: run_connection_def)
  have mono: "messages_in evs \<subseteq> messages_in (evs @ [ev])" by (auto simp: messages_in_def)
  from snoc.IH[OF t] mono have g: "genuine L (messages_in (evs @ [ev])) t"
    "set (cn_inbox t) \<subseteq> messages_in (evs @ [ev])" using genuine_mono by blast+
  show ?case
  proof (cases ev)
    case Polled
    obtain r u where pn: "poll_next L t = (r, u)" by (cases "poll_next L t")
    from poll_next_genuine[OF g pn] g pn st Polled show ?thesis by (auto split: if_splits)
  qed (use g st in \<open>auto simp: genuine_def messages_in_def\<close>)
qed

section \<open>Properties\<close>

text \<open>
  Property C16. Attestations cannot be forged by a peer without signatures: whatever arrives and
  however often the connection is polled, every address it holds as an attestation for an id was
  the signer of a signed ticker that arrived with that id, and the signature in it over the
  ticker's encoding recovers to that address.
\<close>

theorem attestations_are_signed:
  assumes "run_connection L cap is_outgoing events = (s, out)" "a \<in> set (attestations_for s i)"
  shows "\<exists>msg t sig. MessageArrives msg \<in> set events \<and>
    map_option message (decode_message L msg) = Some (SignedTicker t) \<and> st_id t = i \<and> st_signer t = a \<and>
    signature_try_from L (st_signature t) = Inr sig \<and>
    recover_address_from_msg L sig (rlp_ticker L (st_ticker t)) = Some a"
  using run_connection_genuine[OF assms(1)] assms(2)
  by (fastforce simp: genuine_def messages_in_def attests_def)

definition demo_signer :: "address signer" where
  "demo_signer = \<lparr>signer_address = 7, sign_message = (\<lambda>_. Inr 7)\<rparr>"

lemma demo_signer_ok: "signer_ok std_oracle_api demo_signer"
  by (simp add: signer_ok_def demo_signer_def std_oracle_api_def)

definition demo_ticker :: ticker where
  "demo_ticker = ticker_of (replicate 17 ''1.5'') [1, 2, 3, 4, 5, 6]"

lemma run_connection_append:
  "run_connection L cap outgoing (evs @ evs') = fold (connection_step L) evs' (run_connection L cap outgoing evs)"
  by (simp add: run_connection_def)

lemma peer_message_polled:
  assumes "cn_initial_ping s = None" "cn_commands s = []" "up_to_date (cn_signed_ticks s)" "cn_inbox s = []"
    and "decode_message L msg = Some m" "on_message L (message m) s = (Some r, s')" "live out"
  shows "fold (connection_step L) [MessageArrives msg, Polled] (s, out) = (s'\<lparr>cn_inbox := []\<rparr>, out @ [r])"
proof -
  have "serve L (s\<lparr>cn_inbox := [msg]\<rparr>) = (None, s\<lparr>cn_inbox := [msg]\<rparr>)"
    using assms by (simp add: serve_def)
  moreover have "on_message L (message m) (s\<lparr>cn_inbox := [msg]\<rparr>) = (Some r, s'\<lparr>cn_inbox := [msg]\<rparr>)"
    using assms(6)
    by (cases "message m") (auto simp: on_signed_ticker_def add_attestation_def attestations_for_def Let_def split: sum.splits option.splits if_splits)
  ultimately show ?thesis using assms by (simp add: poll_next_def poll_loop.simps)
qed

text \<open>A signed ticker, as its owner makes it, but under any id.\<close>

definition relabelled :: "('sig, 'z) oracle_api_scheme \<Rightarrow> ticker \<Rightarrow> 'sig \<Rightarrow> address \<Rightarrow> b256 \<Rightarrow> signed_ticker" where
  "relabelled L tk sig a i = (new_signed_ticker L tk sig a)\<lparr>st_id := i\<rparr>"

context oracle_api_ok
begin

lemma signed_ticker_accepted:
  assumes "signer_ok L k" "sign_message k (rlp_ticker L tk) = Inr sig"
  shows "on_message L (SignedTicker (relabelled L tk sig (signer_address k) i)) s =
    (Some (PollItem (encoded L (attestations_msg (attestations_for s i @ [signer_address k])))),
     add_attestation i (signer_address k) s)"
  using assms by (auto simp: relabelled_def new_signed_ticker_def on_signed_ticker_def Let_def signer_ok_def)

lemma replayed:
  assumes k: "signer_ok L k" "sign_message k (rlp_ticker L tk) = Inr sig"
    and msg_def: "msg = encoded L (signed_ticker_msg (relabelled L tk sig (signer_address k) i))"
  shows "\<exists>s. run_connection L cap False (concat (replicate n [MessageArrives msg, Polled]))
      = (s, map (\<lambda>j. PollItem (encoded L (attestations_msg (replicate (Suc j) (signer_address k))))) [0..<n]) \<and>
    attestations_for s i = replicate n (signer_address k) \<and>
    cn_initial_ping s = None \<and> cn_commands s = [] \<and> up_to_date (cn_signed_ticks s) \<and> cn_inbox s = []"
proof (induction n)
  case 0
  show ?case by (simp add: run_connection_def into_connection_def attestations_for_def)
next
  case (Suc n)
  let ?a = "signer_address k" and ?m = "signed_ticker_msg (relabelled L tk sig (signer_address k) i)"
  let ?out = "map (\<lambda>j. PollItem (encoded L (attestations_msg (replicate (Suc j) ?a)))) [0..<n]"
  from Suc obtain s where s:
    "run_connection L cap False (concat (replicate n [MessageArrives msg, Polled])) = (s, ?out)"
    "attestations_for s i = replicate n ?a" and idle: "cn_initial_ping s = None" "cn_commands s = []"
    "up_to_date (cn_signed_ticks s)" "cn_inbox s = []" by blast
  have dec: "decode_message L msg = Some ?m" by (simp add: msg_def)
  have acc: "on_message L (message ?m) s
      = (Some (PollItem (encoded L (attestations_msg (replicate n ?a @ [?a])))), add_attestation i ?a s)"
    using signed_ticker_accepted[OF k, of i s] s(2) by (simp add: signed_ticker_msg_def)
  have "live ?out" by (simp add: list_all_iff)
  from peer_message_polled[OF idle dec acc this] s(1)
  have "run_connection L cap False (concat (replicate n [MessageArrives msg, Polled]) @ [MessageArrives msg, Polled])
      = ((add_attestation i ?a s)\<lparr>cn_inbox := []\<rparr>, ?out @ [PollItem (encoded L (attestations_msg (replicate n ?a @ [?a])))])"
    by (simp only: run_connection_append)
  moreover have "concat (replicate (Suc n) [MessageArrives msg, Polled])
      = concat (replicate n [MessageArrives msg, Polled]) @ [MessageArrives msg, Polled]"
    by (induction n) auto
  ultimately show ?case using s(2) idle
    by (simp add: add_attestation_def replicate_append_same attestations_for_def)
qed

end

text \<open>
  Property C35. A connection counts what it is sent: a signed ticker that arrives \<open>n\<close> times leaves
  \<open>n\<close> attestations of its one signer, each arrival answered with the list so far; and the id they
  count for is whatever the sender wrote there, not the hash of the ticker that was signed.
\<close>

theorem attestations_are_replayable:
  assumes "oracle_api_ok L" "signer_ok L k" "sign_message k (rlp_ticker L tk) = Inr sig"
    and "msg = encoded L (signed_ticker_msg (relabelled L tk sig (signer_address k) i))"
    and "run_connection L cap False (concat (replicate n [MessageArrives msg, Polled])) = (s, out)"
  shows "attestations_for s i = replicate n (signer_address k) \<and>
    out = map (\<lambda>j. PollItem (encoded L (attestations_msg (replicate (Suc j) (signer_address k))))) [0..<n]"
  using oracle_api_ok.replayed [OF assms(1-4), where n = n and cap = cap] assms(5) by auto

theorem attestations_are_replayable_witness:
  "attestations_for (fst (run_connection std_oracle_api BROADCAST_CHANNEL_SIZE False (concat (replicate 2
     [MessageArrives (encoded std_oracle_api (signed_ticker_msg (relabelled std_oracle_api demo_ticker 7 7 5))), Polled])))) 5 = [7, 7]"
  using attestations_are_replayable [OF std_oracle.oracle_api_ok_axioms demo_signer_ok _ refl prod.collapse [symmetric],
      where n = 2 and i = 5 and tk = demo_ticker and sig = 7]
  by (simp add: demo_signer_def numeral_2_eq_2)

text \<open>A peer can stop the connection's task by a signature that is no signature.\<close>

lemma malformed_signature_panics:
  assumes "oracle_api_ok L" "signature_try_from L (st_signature t) = Inl e"
  shows "snd (run_connection L cap False [MessageArrives (encoded L (signed_ticker_msg t)), Polled])
    = [PollPanic ''Signature::try_from(..).unwrap()'']"
proof -
  have "on_message L (message (signed_ticker_msg t)) (into_connection cap False)
      = (Some (PollPanic ''Signature::try_from(..).unwrap()''), into_connection cap False)"
    using assms(2) by (simp add: signed_ticker_msg_def on_signed_ticker_def)
  from peer_message_polled [OF _ _ _ _ oracle_api_ok.decode_constructed(2) [OF assms(1)] this, of "[]"]
  show ?thesis by (simp add: run_connection_def into_connection_def)
qed

text \<open>A poll of an idle connection, without and with work to do.\<close>

definition idle :: "connection \<Rightarrow> bool" where
  "idle s \<longleftrightarrow> cn_initial_ping s = None \<and> cn_commands s = [] \<and> up_to_date (cn_signed_ticks s) \<and> cn_inbox s = [] \<and> \<not> cn_closed s"

lemma idle_new: "idle (into_connection cap False)"
  by (simp add: idle_def into_connection_def)

lemma command_polled:
  assumes "idle s" "live out"
  shows "fold (connection_step L) [CommandArrives (Attestation i tx), Polled] (s, out)
    = (s\<lparr>cn_pending_att := Some tx\<rparr>, out @ [PollItem (encoded L (attestations_msg (attestations_for s i)))])"
  using assms by (simp add: idle_def poll_next_def poll_loop.simps serve_def attestations_for_def)

lemma tick_polled:
  assumes "idle s" "live out" "0 < rx_cap (cn_signed_ticks s)"
  shows "fold (connection_step L) [TickBroadcast t, Polled] (s, out)
    = (s\<lparr>cn_signed_ticks := delivered t (cn_signed_ticks s)\<rparr>, out @ [PollItem (encoded L (signed_ticker_msg t))])"
  using assms by (simp add: idle_def poll_next_def poll_loop.simps serve_def)

lemma peer_attestations_polled:
  assumes "oracle_api_ok L" "idle s" "live out"
  shows "fold (connection_step L) [MessageArrives (encoded L (attestations_msg as)), Polled] (s, out)
    = (case cn_pending_att s of None \<Rightarrow> s
         | Some tx \<Rightarrow> s\<lparr>cn_pending_att := None, cn_answers := cn_answers s @ [(tx, as)]\<rparr>, out @ [PollPending])"
  using assms
  by (simp add: idle_def poll_next_def poll_loop.simps serve_def attestations_msg_def
      oracle_api_ok.decode_constructed(1) [unfolded attestations_msg_def] split: option.split)

text \<open>
  Property C27. Gossip between two honest nodes: the node that asks for attestations of an id first
  sends its own, then its signed ticker; the peer verifies the ticker and answers with the sender
  as attestation, and that answer completes the request. The request is completed by the next
  attestations of the peer, for whatever id: nothing ties them to the id that was asked for.
\<close>

theorem gossip_answers_request:
  assumes "oracle_api_ok L" "signer_ok L k" "sign_message k (rlp_ticker L tk) = Inr sig" "0 < cap"
    and "t = new_signed_ticker L tk sig (signer_address k)"
    and "asker = [CommandArrives (Attestation i tx), Polled, TickBroadcast t, Polled]"
  shows "\<exists>m1 m2 r. snd (run_connection L cap False asker) = [PollItem m1, PollItem m2] \<and>
    snd (run_connection L cap False [MessageArrives m1, Polled, MessageArrives m2, Polled]) = [PollPending, PollItem r] \<and>
    cn_answers (fst (run_connection L cap False (asker @ [MessageArrives r, Polled]))) = [(tx, [signer_address k])]"
proof -
  let ?n = "into_connection cap False" and ?a = "signer_address k"
  let ?m1 = "encoded L (attestations_msg [])" and ?m2 = "encoded L (signed_ticker_msg t)"
  let ?r = "encoded L (attestations_msg [?a])" and ?p = "(into_connection cap False)\<lparr>cn_pending_att := Some tx\<rparr>"
  let ?q = "?p\<lparr>cn_signed_ticks := delivered t (subscribe_to cap [])\<rparr>"
  have t: "t = relabelled L tk sig ?a (keccak256 L (rlp_ticker L tk))"
    by (simp add: assms(5) relabelled_def new_signed_ticker_def)
  have none: "attestations_for ?n j = []" for j by (simp add: into_connection_def attestations_for_def)
  have p: "idle ?p" "idle ?q" using idle_new by (simp_all add: idle_def)
  have asked: "run_connection L cap False asker = (?q, [PollItem ?m1, PollItem ?m2])"
    using command_polled [OF idle_new, of "[]" L i tx] tick_polled [OF p(1), of "[PollItem ?m1]" L t] assms(4)
    by (simp add: run_connection_def assms(6) none)
  have first: "run_connection L cap False [MessageArrives ?m1, Polled] = (?n, [PollPending])"
    using peer_attestations_polled [OF assms(1) idle_new, of "[]" "[]"]
    by (simp add: run_connection_def into_connection_def)
  have "on_message L (message (signed_ticker_msg t)) ?n
      = (Some (PollItem ?r), add_attestation (keccak256 L (rlp_ticker L tk)) ?a ?n)"
    using oracle_api_ok.signed_ticker_accepted [OF assms(1-3), of _ ?n] none
    by (simp add: signed_ticker_msg_def t)
  from peer_message_polled [OF _ _ _ _ oracle_api_ok.decode_constructed(2) [OF assms(1)] this, of "[PollPending]"]
  have second: "snd (run_connection L cap False ([MessageArrives ?m1, Polled] @ [MessageArrives ?m2, Polled]))
      = [PollPending, PollItem ?r]"
    unfolding run_connection_append first using idle_new by (simp add: idle_def)
  have "cn_answers (fst (run_connection L cap False (asker @ [MessageArrives ?r, Polled]))) = [(tx, [?a])]"
    unfolding run_connection_append asked
    using peer_attestations_polled [OF assms(1) p(2), of "[PollItem ?m1, PollItem ?m2]" "[?a]"]
    by (simp add: into_connection_def)
  with asked second show ?thesis by (intro exI [of _ ?m1] exI [of _ ?m2] exI [of _ ?r]) simp
qed

theorem gossip_answers_request_witness:
  "\<exists>r. cn_answers (fst (run_connection std_oracle_api BROADCAST_CHANNEL_SIZE False
     [CommandArrives (Attestation 99 0), Polled, TickBroadcast (new_signed_ticker std_oracle_api demo_ticker 7 7), Polled,
      MessageArrives r, Polled])) = [(0, [7])]"
  using gossip_answers_request [OF std_oracle.oracle_api_ok_axioms demo_signer_ok _ _ refl refl,
      where cap = BROADCAST_CHANNEL_SIZE and tk = demo_ticker and sig = 7 and i = 99 and tx = 0]
  by (auto simp: demo_signer_def BROADCAST_CHANNEL_SIZE_def)

definition demo_events :: "connection_event list" where
  "demo_events = concat (replicate 1 [MessageArrives
     (encoded std_oracle_api (signed_ticker_msg (relabelled std_oracle_api demo_ticker 7 7 5))), Polled])"

theorem attestations_are_signed_witness:
  "\<exists>msg t. MessageArrives msg \<in> set demo_events \<and>
     map_option message (decode_message std_oracle_api msg) = Some (SignedTicker t) \<and> st_id t = 5 \<and> st_signer t = 7"
proof -
  obtain s out where run: "run_connection std_oracle_api BROADCAST_CHANNEL_SIZE False demo_events = (s, out)"
    "attestations_for s 5 = replicate 1 (signer_address demo_signer)"
    using oracle_api_ok.replayed [OF std_oracle.oracle_api_ok_axioms demo_signer_ok _ refl,
        where tk = demo_ticker and sig = 7 and i = 5 and n = 1 and cap = BROADCAST_CHANNEL_SIZE]
    by (auto simp: demo_signer_def demo_events_def)
  then have "7 \<in> set (attestations_for s 5)" by (simp add: demo_signer_def)
  from attestations_are_signed [OF run(1) this] show ?thesis by blast
qed

end
