(* ===== verification/Oracle_Gossip.thy ===== *)
theory Oracle_Gossip
  imports Oracle_Connection
begin

text \<open>
  Gossip over a connection of the oracle, whatever the order in which tickers are broadcast,
  commands and messages arrive and the connection is polled: which tickers it sends, what a pending
  poll leaves behind, and what a peer makes of everything the connection put out.
\<close>

section \<open>What a connection puts out\<close>

text \<open>The ticker of a message, and the tickers a connection has sent; those that were broadcast.\<close>

definition ticker_in :: "('sig, 'z) oracle_api_scheme \<Rightarrow> bytes \<Rightarrow> signed_ticker option" where
  "ticker_in L msg = (case map_option message (decode_message L msg) of Some (SignedTicker t) \<Rightarrow> Some t | _ \<Rightarrow> None)"

fun sent_ticker :: "('sig, 'z) oracle_api_scheme \<Rightarrow> poll_result \<Rightarrow> signed_ticker option" where
  "sent_ticker L (PollItem msg) = ticker_in L msg"
| "sent_ticker L _ = None"

abbreviation sent_tickers :: "('sig, 'z) oracle_api_scheme \<Rightarrow> poll_result list \<Rightarrow> signed_ticker list" where
  "sent_tickers L \<equiv> List.map_filter (sent_ticker L)"

fun broadcast_ticker :: "connection_event \<Rightarrow> signed_ticker option" where
  "broadcast_ticker (TickBroadcast t) = Some t"
| "broadcast_ticker _ = None"

abbreviation broadcast_tickers :: "connection_event list \<Rightarrow> signed_ticker list" where
  "broadcast_tickers \<equiv> List.map_filter broadcast_ticker"

lemma map_filter_snoc [simp]: "List.map_filter f (xs @ [x]) = List.map_filter f xs @ (case f x of None \<Rightarrow> [] | Some y \<Rightarrow> [y])"
  by (simp add: List.map_filter_def split: option.split)

lemma broadcast_tickers_append [simp]: "broadcast_tickers (xs @ ys) = broadcast_tickers xs @ broadcast_tickers ys"
  by (simp add: List.map_filter_def)

text \<open>The messages the code constructs.\<close>

inductive own_message :: "oracle_message \<Rightarrow> bool" where
  "own_message ping_msg"
| "own_message pong_msg"
| "own_message (attestations_msg as)"
| "own_message (signed_ticker_msg t)"

definition own_result :: "('sig, 'z) oracle_api_scheme \<Rightarrow> poll_result \<Rightarrow> bool" where
  "own_result L r \<longleftrightarrow> (\<forall>out. r = PollItem out \<longrightarrow> (\<exists>m. own_message m \<and> out = encoded L m))"

lemma own_result_simps [simp]:
  "own_result L PollPending" "own_result L PollEnd" "own_result L (PollPanic e)"
  "own_result L (PollItem (encoded L ping_msg))" "own_result L (PollItem (encoded L pong_msg))"
  "own_result L (PollItem (encoded L (attestations_msg as)))" "own_result L (PollItem (encoded L (signed_ticker_msg t)))"
  by (auto simp: own_result_def intro: own_message.intros)

section \<open>One poll\<close>

text \<open>
  The tickers of the results and those still unread, after a poll, are among the unread ones before
  it, in order, and all of them for a receiver that does not lag.
\<close>

definition conserves :: "'r receiver \<Rightarrow> 'r list \<Rightarrow> 'r receiver \<Rightarrow> bool" where
  "conserves rx sent rx' \<longleftrightarrow> subseq (sent @ unread rx') (unread rx) \<and>
     (\<not> lagging rx \<longrightarrow> sent @ unread rx' = unread rx \<and> \<not> lagging rx') \<and>
     rx_cap rx' = rx_cap rx \<and> rx_log rx' = rx_log rx \<and> (rx_pos rx \<le> length (rx_log rx) \<longrightarrow> rx_pos rx' \<le> length (rx_log rx))"

lemma conserves_refl [simp]: "conserves rx [] rx"
  by (simp add: conserves_def)

lemma conserves_trans: "conserves rx [] rx' \<Longrightarrow> conserves rx' ts rx'' \<Longrightarrow> conserves rx ts rx''"
  by (auto simp: conserves_def intro: subseq_order.trans)

lemma conserves_recv:
  assumes "recv rx = (v, rx')"
  shows "conserves rx (case v of RecvValue x \<Rightarrow> [x] | _ \<Rightarrow> []) rx'"
proof -
  have "\<nexists>n. v = RecvLagged n" if "\<not> lagging rx"
    using assms that by (auto simp: recv_cases split: if_splits)
  then show ?thesis
    using recv.read_subseq [OF assms] recv.read_exact [OF assms] recv_frame [OF assms] recv_not_lagging [OF assms]
    by (simp add: conserves_def)
qed

context oracle_api_ok
begin

lemma decode_own: "own_message m \<Longrightarrow> decode_message L (encoded L m) = Some m"
  by (induction rule: own_message.induct) simp_all

lemma ticker_in_own [simp]:
  "ticker_in L (encoded L ping_msg) = None" "ticker_in L (encoded L pong_msg) = None"
  "ticker_in L (encoded L (attestations_msg as)) = None" "ticker_in L (encoded L (signed_ticker_msg t)) = Some t"
  unfolding ticker_in_def decode_constructed
  by (simp_all add: ping_msg_def pong_msg_def attestations_msg_def signed_ticker_msg_def)

lemma serve_conserves:
  assumes "serve L s = (r, s')"
  shows "conserves (cn_signed_ticks s) (case r of None \<Rightarrow> [] | Some m \<Rightarrow> (case ticker_in L m of None \<Rightarrow> [] | Some t \<Rightarrow> [t])) (cn_signed_ticks s') \<and>
    (\<forall>m. r = Some m \<longrightarrow> own_result L (PollItem m))"
proof (cases "cn_commands s")
  case Nil
  obtain v rx where v: "recv (cn_signed_ticks s) = (v, rx)" by (cases "recv (cn_signed_ticks s)")
  from conserves_recv [OF v] assms Nil v show ?thesis by (cases v) (auto simp: serve_def)
next
  case (Cons c cs)
  with assms show ?thesis by (cases c) (auto simp: serve_def)
qed

lemma on_message_conserves:
  assumes "on_message L m s = (r, s')"
  shows "cn_signed_ticks s' = cn_signed_ticks s \<and> (\<forall>p. r = Some p \<longrightarrow> sent_ticker L p = None \<and> own_result L p)"
  using assms
  by (cases m) (auto simp: on_signed_ticker_def add_attestation_def Let_def split: sum.splits option.splits if_splits)

lemma poll_loop_conserves:
  "poll_loop L msgs s = (r, s') \<Longrightarrow>
     conserves (cn_signed_ticks s) (case sent_ticker L r of None \<Rightarrow> [] | Some t \<Rightarrow> [t]) (cn_signed_ticks s') \<and> own_result L r"
proof (induction msgs arbitrary: s)
  case Nil
  obtain q u where sv: "serve L s = (q, u)" by (cases "serve L s")
  from serve_conserves [OF sv] sv Nil show ?case
    by (auto simp: poll_loop.simps [of L "[]" s] split: option.splits if_splits)
next
  case (Cons msg msgs)
  obtain q u where sv: "serve L s = (q, u)" by (cases "serve L s")
  show ?case
  proof (cases "q = None \<and> decode_message L msg \<noteq> None")
    case False
    with serve_conserves [OF sv] sv Cons.prems show ?thesis
      by (auto simp: poll_loop.simps [of L "msg # msgs" s] split: option.splits)
  next
    case True
    then obtain m where m: "decode_message L msg = Some m" by auto
    obtain p t where om: "on_message L (message m) u = (p, t)" by (cases "on_message L (message m) u")
    have u: "conserves (cn_signed_ticks s) [] (cn_signed_ticks u)" using serve_conserves [OF sv] True by simp
    show ?thesis
    proof (cases p)
      case None
      with True sv m om Cons.prems have "poll_loop L msgs t = (r, s')"
        by (simp add: poll_loop.simps [of L "msg # msgs" s])
      from Cons.IH [OF this] u on_message_conserves [OF om] show ?thesis
        by (auto intro: conserves_trans)
    next
      case (Some p')
      with True sv m om Cons.prems u on_message_conserves [OF om] show ?thesis
        by (auto simp: poll_loop.simps [of L "msg # msgs" s])
    qed
  qed
qed

lemma poll_next_conserves:
  assumes "poll_next L s = (r, s')" "cn_initial_ping s \<in> {None, Some ping_msg}"
  shows "conserves (cn_signed_ticks s) (case sent_ticker L r of None \<Rightarrow> [] | Some t \<Rightarrow> [t]) (cn_signed_ticks s') \<and> own_result L r"
  using assms poll_loop_conserves [of "cn_inbox s" s r s'] by (auto simp: poll_next_def split: option.splits)

end

section \<open>A run of polls\<close>

text \<open>At no point of the run are more tickers unread than the channel retains.\<close>

definition keeps_up :: "('sig, 'z) oracle_api_scheme \<Rightarrow> nat \<Rightarrow> bool \<Rightarrow> connection_event list \<Rightarrow> bool" where
  "keeps_up L cap is_outgoing events \<longleftrightarrow>
     list_all (\<lambda>pre. \<not> lagging (cn_signed_ticks (fst (run_connection L cap is_outgoing pre)))) (prefixes events)"

lemma keeps_up_snoc:
  "keeps_up L cap is_outgoing (evs @ [ev]) \<longleftrightarrow> keeps_up L cap is_outgoing evs \<and>
     \<not> lagging (cn_signed_ticks (fst (run_connection L cap is_outgoing (evs @ [ev]))))"
  by (auto simp: keeps_up_def list_all_iff)

definition ticks_inv :: "('sig, 'z) oracle_api_scheme \<Rightarrow> nat \<Rightarrow> bool \<Rightarrow> connection_event list \<Rightarrow> connection \<times> poll_result list \<Rightarrow> bool" where
  "ticks_inv L cap is_outgoing events = (\<lambda>(s, out).
     (let rx = cn_signed_ticks s in
      rx_cap rx = cap \<and> rx_log rx = broadcast_tickers events \<and> rx_pos rx \<le> length (rx_log rx) \<and>
      subseq (sent_tickers L out @ unread rx) (broadcast_tickers events) \<and>
      (keeps_up L cap is_outgoing events \<longrightarrow> sent_tickers L out @ unread rx = broadcast_tickers events)) \<and>
     cn_initial_ping s \<in> {None, Some ping_msg} \<and> list_all (own_result L) out)"

lemma serve_ping:
  assumes "serve L s = (q, s')"
  shows "cn_initial_ping s' = cn_initial_ping s"
proof (cases "cn_commands s")
  case Nil
  obtain v rx where "recv (cn_signed_ticks s) = (v, rx)" by (cases "recv (cn_signed_ticks s)")
  with Nil assms show ?thesis by (cases v) (auto simp: serve_def)
next
  case (Cons c cs)
  with assms show ?thesis by (cases c) (auto simp: serve_def)
qed

lemma on_message_ping: "on_message L m s = (p, s') \<Longrightarrow> cn_initial_ping s' = cn_initial_ping s"
  by (cases m) (auto simp: on_signed_ticker_def add_attestation_def Let_def split: sum.splits option.splits if_splits)

lemma poll_loop_ping: "poll_loop L msgs s = (r, s') \<Longrightarrow> cn_initial_ping s' = cn_initial_ping s"
proof (induction msgs arbitrary: s)
  case Nil
  then show ?case by (auto simp: poll_loop.simps [of L "[]" s] serve_ping split: prod.splits option.splits)
next
  case (Cons msg msgs)
  obtain q u where sv: "serve L s = (q, u)" by (cases "serve L s")
  with Cons.prems serve_ping [OF sv] show ?case
    by (auto simp: poll_loop.simps [of L "msg # msgs" s] dest!: Cons.IH on_message_ping
        split: prod.splits option.splits)
qed

lemma poll_next_ping: "poll_next L s = (r, s') \<Longrightarrow> cn_initial_ping s' = None"
  by (auto simp: poll_next_def poll_loop_ping split: option.splits)

context oracle_api_ok
begin

lemma run_ticks: "ticks_inv L cap is_outgoing events (run_connection L cap is_outgoing events)"
proof (induction events rule: rev_induct)
  case Nil
  show ?case
    by (simp add: ticks_inv_def run_connection_def Let_def List.map_filter_simps)
      (simp add: into_connection_def subscribe_to_def)
next
  case (snoc ev evs)
  obtain s out where run: "run_connection L cap is_outgoing evs = (s, out)" by (cases "run_connection L cap is_outgoing evs")
  then have st: "run_connection L cap is_outgoing (evs @ [ev]) = connection_step L ev (s, out)"
    by (simp add: run_connection_append)
  from snoc run have inv: "ticks_inv L cap is_outgoing evs (s, out)" by simp
  show ?case
  proof (cases ev)
    case (TickBroadcast t)
    then have "unread (sent_to t (cn_signed_ticks s)) = unread (cn_signed_ticks s) @ [t]"
      using inv by (auto simp: ticks_inv_def Let_def intro: unread_sent_to)
    moreover have "subseq (sent_tickers L out @ unread (cn_signed_ticks s) @ [t]) (broadcast_tickers evs @ [t])"
      using inv by (simp add: ticks_inv_def Let_def subseq_append flip: append_assoc)
    ultimately show ?thesis using inv st [unfolded TickBroadcast]
      by (auto simp: ticks_inv_def Let_def TickBroadcast keeps_up_snoc sent_to_def)
  next
    case Polled
    show ?thesis
    proof (cases "live out")
      case True
      obtain r s' where p: "poll_next L s = (r, s')" by (cases "poll_next L s")
      have cons: "conserves (cn_signed_ticks s) (case sent_ticker L r of None \<Rightarrow> [] | Some t \<Rightarrow> [t]) (cn_signed_ticks s')"
        and own: "own_result L r"
        using poll_next_conserves [OF p] inv by (auto simp: ticks_inv_def)
      have "\<not> lagging (cn_signed_ticks s)" if "keeps_up L cap is_outgoing evs"
        using that run by (force simp: keeps_up_def list_all_iff)
      moreover have "subseq (sent_tickers L out @ (case sent_ticker L r of None \<Rightarrow> [] | Some t \<Rightarrow> [t]) @ unread (cn_signed_ticks s'))
          (sent_tickers L out @ unread (cn_signed_ticks s))"
        using cons by (simp add: conserves_def subseq_append')
      ultimately show ?thesis
        using inv cons own poll_next_ping [OF p] True Polled p
          st [unfolded Polled]
        by (auto simp: ticks_inv_def Let_def keeps_up_snoc conserves_def intro: subseq_order.trans)
    next
      case False
      with inv Polled st show ?thesis by (auto simp: ticks_inv_def Let_def keeps_up_snoc)
    qed
  qed (use inv st in \<open>auto simp: ticks_inv_def Let_def keeps_up_snoc\<close>)
qed

end

section \<open>A pending poll\<close>

lemma serve_none:
  assumes "serve L s = (None, s')"
  shows "cn_commands s = [] \<and> s' = s\<lparr>cn_signed_ticks := snd (recv (cn_signed_ticks s))\<rparr> \<and>
    (\<nexists>t. fst (recv (cn_signed_ticks s)) = RecvValue t)"
proof (cases "cn_commands s")
  case Nil
  obtain v rx where v: "recv (cn_signed_ticks s) = (v, rx)" by (cases "recv (cn_signed_ticks s)")
  with Nil assms show ?thesis by (cases v) (auto simp: serve_def)
next
  case (Cons c cs)
  with assms show ?thesis by (cases c) (auto simp: serve_def)
qed

lemma recv_skips:
  assumes "\<nexists>t. fst (recv rx) = RecvValue t" "rx_pos rx \<le> length (rx_log rx)"
  shows "length (unread (snd (recv rx))) = (if lagging rx then rx_cap rx else 0)"
    "\<not> lagging (snd (recv rx))" "rx_pos (snd (recv rx)) \<le> length (rx_log (snd (recv rx)))"
  using assms by (auto simp: recv_cases lagging_def unread_def split: if_splits)

lemma poll_loop_pending_serve: "poll_loop L msgs s = (PollPending, s') \<Longrightarrow> \<exists>u. serve L s = (None, u)"
  by (cases "serve L s"; cases "fst (serve L s)") (simp_all add: poll_loop.simps [of L msgs s])

lemma poll_loop_pending:
  assumes "poll_loop L msgs s = (PollPending, s')" "rx_pos (cn_signed_ticks s) \<le> length (rx_log (cn_signed_ticks s))"
  shows "cn_commands s' = [] \<and> cn_inbox s' = [] \<and>
    length (unread (cn_signed_ticks s')) = (if lagging (cn_signed_ticks s) then rx_cap (cn_signed_ticks s) else 0)"
  using assms
proof (induction msgs arbitrary: s)
  case Nil
  from poll_loop_pending_serve [OF Nil.prems(1)] obtain u where none: "serve L s = (None, u)" ..
  with Nil.prems have "s' = u\<lparr>cn_inbox := []\<rparr>" by (simp add: poll_loop.simps [of L "[]" s])
  with recv_skips(1) [OF _ Nil.prems(2)] serve_none [OF none] show ?case by simp
next
  case (Cons msg msgs)
  from poll_loop_pending_serve [OF Cons.prems(1)] obtain u where none: "serve L s = (None, u)" ..
  with Cons.prems(1) obtain m where m: "decode_message L msg = Some m"
    by (auto simp: poll_loop.simps [of L "msg # msgs" s] split: option.splits)
  obtain p t where om: "on_message L (message m) u = (p, t)" by (cases "on_message L (message m) u")
  have p: "p = None"
  proof (rule ccontr)
    assume "p \<noteq> None"
    then obtain r where r: "p = Some r" by auto
    with none m om Cons.prems(1) have "r = PollPending"
      by (simp add: poll_loop.simps [of L "msg # msgs" s])
    with r om show False
      by (cases "message m") (auto simp: on_signed_ticker_def Let_def split: sum.splits option.splits if_splits)
  qed
  with none m om Cons.prems(1) have loop: "poll_loop L msgs t = (PollPending, s')"
    by (simp add: poll_loop.simps [of L "msg # msgs" s])
  let ?rx = "snd (recv (cn_signed_ticks s))"
  have t: "cn_signed_ticks t = ?rx"
    using om serve_none [OF none]
    by (cases "message m") (auto simp: on_signed_ticker_def add_attestation_def Let_def split: sum.splits option.splits if_splits)
  have skip: "length (unread ?rx) = (if lagging (cn_signed_ticks s) then rx_cap (cn_signed_ticks s) else 0)"
    "\<not> lagging ?rx" "rx_pos ?rx \<le> length (rx_log ?rx)"
    using recv_skips [OF _ Cons.prems(2)] serve_none [OF none] by auto
  from poll_loop_pending_serve [OF loop] obtain u' where "serve L t = (None, u')" ..
  from serve_none [OF this] t skip(2) have "unread ?rx = []" by (auto simp: recv_cases split: if_splits)
  with Cons.IH [OF loop] t skip show ?case by auto
qed

text \<open>
  Property C23. What a pending poll of a connection leaves behind: no command and no message, and no
  ticker either, unless the connection lagged behind the broadcast when it was polled. Then the lag
  error is dropped and everything the channel retains stays unread although the poll is pending,
  and nothing wakes the connection for it before the next ticker, command or message.
\<close>

theorem pending_poll_leaves:
  assumes "poll_next L s = (PollPending, s')" "rx_pos (cn_signed_ticks s) \<le> length (rx_log (cn_signed_ticks s))"
  shows "cn_commands s' = [] \<and> cn_inbox s' = [] \<and>
    length (unread (cn_signed_ticks s')) = (if lagging (cn_signed_ticks s) then rx_cap (cn_signed_ticks s) else 0)"
  using assms poll_loop_pending [of L "cn_inbox s" s s'] by (auto simp: poll_next_def split: option.splits)

definition lagging_connection :: connection where
  "lagging_connection = (into_connection 2 False)\<lparr>cn_signed_ticks := fold sent_to
     [new_signed_ticker std_oracle_api demo_ticker 7 7, new_signed_ticker std_oracle_api demo_ticker 7 7,
      new_signed_ticker std_oracle_api demo_ticker 7 7] (subscribe_to 2 [])\<rparr>"

theorem pending_poll_leaves_witness:
  "length (unread (cn_signed_ticks (snd (poll_next std_oracle_api lagging_connection)))) = 2"
proof -
  have "fst (poll_next std_oracle_api lagging_connection) = PollPending"
    by (simp add: poll_next_def lagging_connection_def into_connection_def poll_loop.simps serve_def
        recv_def recv_at_def subscribe_to_def sent_to_def)
  then have "poll_next std_oracle_api lagging_connection = (PollPending, snd (poll_next std_oracle_api lagging_connection))"
    by (metis prod.collapse)
  from pending_poll_leaves [OF this] show ?thesis
    by (simp add: lagging_connection_def lagging_def unread_def subscribe_to_def sent_to_def)
qed

section \<open>Every ticker, in order\<close>

lemma keeps_up_small:
  assumes "oracle_api_ok L" "length (broadcast_tickers events) \<le> cap"
  shows "keeps_up L cap is_outgoing events"
  unfolding keeps_up_def list_all_iff
proof
  fix pre assume "pre \<in> set (prefixes events)"
  then obtain suf where suf: "events = pre @ suf" by (auto simp: prefix_def)
  obtain s out where run: "run_connection L cap is_outgoing pre = (s, out)" by (cases "run_connection L cap is_outgoing pre")
  with oracle_api_ok.run_ticks [OF assms(1), of cap is_outgoing pre]
  have "rx_cap (cn_signed_ticks s) = cap" "rx_log (cn_signed_ticks s) = broadcast_tickers pre"
    by (simp_all add: ticks_inv_def Let_def)
  moreover have "length (broadcast_tickers pre) \<le> cap" using assms(2) by (simp add: suf List.map_filter_def)
  ultimately show "\<not> lagging (cn_signed_ticks (fst (run_connection L cap is_outgoing pre)))"
    by (simp add: run lagging_def unread_def)
qed

text \<open>
  Property C21. A connection forwards the broadcast faithfully: in every schedule of broadcasts,
  commands, messages and polls, the tickers it has sent and those it has still to send are tickers
  broadcast since it was established, in order and each at most once; and they are all of them,
  unless at some point more were unread than the channel retains, which cannot happen for the
  first \<open>cap\<close> tickers.
\<close>

theorem ticks_are_forwarded:
  assumes "oracle_api_ok L" "run_connection L cap is_outgoing events = (s, out)"
  shows "subseq (sent_tickers L out @ unread (cn_signed_ticks s)) (broadcast_tickers events) \<and>
    (keeps_up L cap is_outgoing events \<or> length (broadcast_tickers events) \<le> cap \<longrightarrow>
       sent_tickers L out @ unread (cn_signed_ticks s) = broadcast_tickers events)"
  using oracle_api_ok.run_ticks [OF assms(1), of cap is_outgoing events] keeps_up_small [OF assms(1), of events cap is_outgoing]
  by (auto simp: assms(2) ticks_inv_def Let_def)

theorem ticks_are_forwarded_witness:
  "\<exists>s out. run_connection std_oracle_api BROADCAST_CHANNEL_SIZE True
       [Polled, TickBroadcast (new_signed_ticker std_oracle_api demo_ticker 7 7), Polled] = (s, out) \<and>
     sent_tickers std_oracle_api out @ unread (cn_signed_ticks s) = [new_signed_ticker std_oracle_api demo_ticker 7 7]"
proof -
  let ?events = "[Polled, TickBroadcast (new_signed_ticker std_oracle_api demo_ticker 7 7), Polled]"
  obtain s out where run: "run_connection std_oracle_api BROADCAST_CHANNEL_SIZE True ?events = (s, out)" by fastforce
  from ticks_are_forwarded [OF std_oracle.oracle_api_ok_axioms run] run show ?thesis
    by (simp add: List.map_filter_simps BROADCAST_CHANNEL_SIZE_def)
qed

section \<open>From one connection to another\<close>

text \<open>What a connection put out, arriving at its peer, which is polled after every message.\<close>

definition delivers :: "poll_result list \<Rightarrow> connection_event list" where
  "delivers rs = concat (map (\<lambda>r. case r of PollItem m \<Rightarrow> [MessageArrives m, Polled] | _ \<Rightarrow> []) rs)"

text \<open>The message of the ticker is verified: it adds its signer to the attestations of its id.\<close>

definition accepted :: "('sig, 'z) oracle_api_scheme \<Rightarrow> address \<Rightarrow> signed_ticker \<Rightarrow> bool" where
  "accepted L a t \<longleftrightarrow> (\<forall>s. on_message L (SignedTicker t) s =
     (Some (PollItem (encoded L (attestations_msg (attestations_for s (st_id t) @ [a])))), add_attestation (st_id t) a s))"

text \<open>A connection that no one asked anything, between messages.\<close>

definition at_rest :: "connection \<times> poll_result list \<Rightarrow> bool" where
  "at_rest = (\<lambda>(s, out). idle s \<and> cn_pending_att s = None \<and> live out)"

lemma add_attestation_frame [simp]:
  "cn_initial_ping (add_attestation i a s) = cn_initial_ping s" "cn_commands (add_attestation i a s) = cn_commands s"
  "cn_signed_ticks (add_attestation i a s) = cn_signed_ticks s" "cn_inbox (add_attestation i a s) = cn_inbox s"
  "cn_closed (add_attestation i a s) = cn_closed s" "cn_answers (add_attestation i a s) = cn_answers s"
  "cn_pending_att (add_attestation i a s) = cn_pending_att s"
  by (simp_all add: add_attestation_def)

lemma peer_message_ignored:
  assumes "idle s" "decode_message L msg = Some m" "\<And>s :: connection. cn_pending_att s = None \<Longrightarrow> on_message L (message m) s = (None, s)"
    "live out" "cn_pending_att s = None"
  shows "fold (connection_step L) [MessageArrives msg, Polled] (s, out) = (s, out @ [PollPending])"
  using assms by (simp add: idle_def poll_next_def poll_loop.simps serve_def)

context oracle_api_ok
begin

lemma peer_takes:
  assumes "at_rest (s, out)" "own_message m" "\<And>t. ticker_in L (encoded L m) = Some t \<Longrightarrow> accepted L a t"
  shows "\<exists>s' r. fold (connection_step L) [MessageArrives (encoded L m), Polled] (s, out) = (s', out @ [r]) \<and>
    at_rest (s', out @ [r]) \<and> (\<forall>i. attestations_for s' i = attestations_for s i @
      (case ticker_in L (encoded L m) of None \<Rightarrow> [] | Some t \<Rightarrow> if st_id t = i then [a] else []))"
  using assms(2,3)
proof (induction rule: own_message.cases)
  case 1
  have "on_message L (message ping_msg) s = (Some (PollItem (encoded L pong_msg)), s)" by (simp add: ping_msg_def)
  from peer_message_polled [OF _ _ _ _ decode_constructed(3) this] assms(1) 1 show ?thesis
    by (simp add: at_rest_def idle_def)
next
  case 2
  have "on_message L (message pong_msg) s = (None, s)" for s by (simp add: pong_msg_def)
  from peer_message_ignored [OF _ decode_constructed(4) this] assms(1) 2 show ?thesis
    by (simp add: at_rest_def)
next
  case (3 as)
  have "on_message L (message (attestations_msg as)) s = (None, s)" if "cn_pending_att s = None" for s
    using that by (simp add: attestations_msg_def)
  from peer_message_ignored [OF _ decode_constructed(1) this] assms(1) 3 show ?thesis
    by (simp add: at_rest_def)
next
  case (4 t)
  then have "accepted L a t" by simp
  then have acc: "on_message L (message (signed_ticker_msg t)) s =
      (Some (PollItem (encoded L (attestations_msg (attestations_for s (st_id t) @ [a])))), add_attestation (st_id t) a s)"
    by (simp add: accepted_def signed_ticker_msg_def)
  from peer_message_polled [OF _ _ _ _ decode_constructed(2) acc, of out] assms(1) 4 show ?thesis
    by (auto simp: at_rest_def idle_def)
qed

lemma peer_counts:
  assumes "list_all (own_result L) rs" "\<forall>t \<in> set (sent_tickers L rs). accepted L a t"
  shows "\<exists>s out. run_connection L cap False (delivers rs) = (s, out) \<and> at_rest (s, out) \<and>
    (\<forall>i. attestations_for s i = replicate (length (filter (\<lambda>t. st_id t = i) (sent_tickers L rs))) a)"
  using assms
proof (induction rs rule: rev_induct)
  case Nil
  show ?case using idle_new
    by (simp add: run_connection_def delivers_def at_rest_def List.map_filter_simps)
      (simp add: into_connection_def attestations_for_def)
next
  case (snoc r rs)
  then obtain s out where s: "run_connection L cap False (delivers rs) = (s, out)" "at_rest (s, out)"
    "\<forall>i. attestations_for s i = replicate (length (filter (\<lambda>t. st_id t = i) (sent_tickers L rs))) a" by auto
  show ?case
  proof (cases r)
    case (PollItem out')
    with snoc.prems(1) obtain m where m: "own_message m" "out' = encoded L m" by (auto simp: own_result_def)
    have "accepted L a t" if "ticker_in L (encoded L m) = Some t" for t
      using that snoc.prems(2) PollItem m by simp
    from peer_takes [OF s(2) m(1) this] obtain s' q where
      "fold (connection_step L) [MessageArrives (encoded L m), Polled] (s, out) = (s', out @ [q])"
      "at_rest (s', out @ [q])" "\<forall>i. attestations_for s' i = attestations_for s i @
        (case ticker_in L (encoded L m) of None \<Rightarrow> [] | Some t \<Rightarrow> if st_id t = i then [a] else [])" by blast
    with s PollItem m show ?thesis
      by (auto simp: delivers_def run_connection_append replicate_append_same split: option.splits)
  qed (use s in \<open>simp_all add: delivers_def\<close>)
qed

end

end
