(* ===== verification/Oracle_Task.thy ===== *)
theory Oracle_Task
  imports Binance Oracle_Gossip
begin

text \<open>
  The oracle as one future: the discovery and protocol events of its network
  (oracle/src/network/discovery.rs, oracle/src/network/mod.rs), the ExEx it polls
  (oracle/src/exex.rs), and the poll that drains the network, signs and broadcasts the ready
  tickers, and drives the ExEx (oracle/src/oracle.rs). The routing table of discv5 is a parameter,
  and so is the data feed, a stream given by what a poll of it does, as the code is generic in it.
\<close>

section \<open>Discovery\<close>

record ('tab, 'enr, 'sock) discovery =
  dc_table :: 'tab
  dc_events :: "('enr, 'sock) disc_event source"

text \<open>\<open>Discovery::add_node\<close> is the \<open>add_node\<close> of discv5 after a conversion of the record.\<close>

fun discovery_events ::
  "('enr \<Rightarrow> 'tab \<Rightarrow> err + 'tab) \<Rightarrow> ('enr, 'sock) disc_event list \<Rightarrow> ('tab, 'enr, 'sock) discovery \<Rightarrow> (err + unit) poll \<times> ('tab, 'enr, 'sock) discovery" where
  "discovery_events add_node [] s =
     (if src_closed (dc_events s) then Ready (Inr ()) else Pending, s\<lparr>dc_events := (dc_events s)\<lparr>src_items := []\<rparr>\<rparr>)"
| "discovery_events add_node (Discovered enr # evs) s =
     (case add_node enr (dc_table s) of
        Inl e \<Rightarrow> (Ready (Inl e), s\<lparr>dc_events := (dc_events s)\<lparr>src_items := evs\<rparr>\<rparr>)
      | Inr table \<Rightarrow> discovery_events add_node evs (s\<lparr>dc_table := table\<rparr>))"
| "discovery_events add_node (SessionEstablished _ _ # evs) s = discovery_events add_node evs s"
| "discovery_events add_node (OtherEvent # evs) s = discovery_events add_node evs s"

definition discovery_poll ::
  "('enr \<Rightarrow> 'tab \<Rightarrow> err + 'tab) \<Rightarrow> ('tab, 'enr, 'sock) discovery \<Rightarrow> (err + unit) poll \<times> ('tab, 'enr, 'sock) discovery" where
  "discovery_poll add_node s = discovery_events add_node (src_items (dc_events s)) s"

section \<open>The network\<close>

text \<open>\<open>ProtocolEvent::Established { direction, peer_id, .. }\<close>: it is only logged.\<close>

datatype 'peer protocol_event = Established bool 'peer

record ('tab, 'enr, 'sock, 'peer) oracle_network =
  nw_discovery :: "('tab, 'enr, 'sock) discovery"
  nw_proto_events :: "'peer protocol_event source"

fun proto_events_loop :: "'peer protocol_event list \<Rightarrow> 'peer protocol_event source \<Rightarrow> 'peer protocol_event source" where
  "proto_events_loop [] s = s\<lparr>src_items := []\<rparr>"
| "proto_events_loop (Established _ _ # evs) s = proto_events_loop evs s"

text \<open>\<open>OracleNetwork::poll\<close>: never ready but for an error, pending also when the protocol events end.\<close>

definition network_poll ::
  "('enr \<Rightarrow> 'tab \<Rightarrow> err + 'tab) \<Rightarrow> ('tab, 'enr, 'sock, 'peer) oracle_network \<Rightarrow> ((err + unit) poll \<times> ('tab, 'enr, 'sock, 'peer) oracle_network) option" where
  "network_poll add_node s =
     (case poll_until_pending (\<lambda>d. Some (discovery_poll add_node d)) (nw_discovery s) of
        None \<Rightarrow> None
      | Some (Some e, d) \<Rightarrow> Some (Ready (Inl e), s\<lparr>nw_discovery := d\<rparr>)
      | Some (None, d) \<Rightarrow> Some (Pending, s\<lparr>nw_discovery := d,
            nw_proto_events := proto_events_loop (src_items (nw_proto_events s)) (nw_proto_events s)\<rparr>))"

text \<open>
  \<open>OracleNetwork::new\<close>: the address discovery listens on, and the RLPx address it announces. The
  oracle's \<open>start\<close> passes the ports in the order of the parameters.
\<close>

definition network_addresses :: "u16 \<Rightarrow> u16 \<Rightarrow> string \<times> string" where
  "network_addresses tcp_port udp_port =
     (''0.0.0.0:'' @ dec_string (unat udp_port), ''0.0.0.0:'' @ dec_string (unat tcp_port))"

text \<open>
  \<open>OracleProtoHandler\<close> accepts every peer in either direction; \<open>into_connection\<close> reports the
  connection on the protocol events before it hands it out. \<open>cap\<close> is the capacity of \<open>to_peers\<close>.
\<close>

definition establish ::
  "nat \<Rightarrow> bool \<Rightarrow> 'peer \<Rightarrow> ('tab, 'enr, 'sock, 'peer) oracle_network \<Rightarrow> connection \<times> ('tab, 'enr, 'sock, 'peer) oracle_network" where
  "establish cap is_outgoing peer n =
     (let evs = nw_proto_events n in
      (into_connection cap is_outgoing,
       if src_closed evs then n
       else n\<lparr>nw_proto_events := evs\<lparr>src_items := src_items evs @ [Established is_outgoing peer]\<rparr>\<rparr>))"

lemma establish_network [simp]:
  "nw_discovery (snd (establish cap is_outgoing peer n)) = nw_discovery n"
  "fst (establish cap is_outgoing peer n) = into_connection cap is_outgoing"
  by (simp_all add: establish_def Let_def)

section \<open>The ExEx\<close>

record ('c, 'h, 'ou) exex_task =
  ex_notifications :: "(err + 'c exex_notification) source"
  ex_state :: "('ou, 'h) state_exex"

fun exex_items ::
  "('c, 'h, 'ou) state_api \<Rightarrow> (err + 'c exex_notification) list \<Rightarrow> ('c, 'h, 'ou) exex_task \<Rightarrow> (err + unit) poll \<times> ('c, 'h, 'ou) exex_task" where
  "exex_items A [] s =
     (if src_closed (ex_notifications s) then Ready (Inr ()) else Pending,
      s\<lparr>ex_notifications := (ex_notifications s)\<lparr>src_items := []\<rparr>\<rparr>)"
| "exex_items A (Inl e # ns) s = (Ready (Inl e), s\<lparr>ex_notifications := (ex_notifications s)\<lparr>src_items := ns\<rparr>\<rparr>)"
| "exex_items A (Inr notification # ns) s =
     (case state_step A notification (ex_state s) of
        (Inl e, st) \<Rightarrow> (Ready (Inl e), s\<lparr>ex_notifications := (ex_notifications s)\<lparr>src_items := ns\<rparr>, ex_state := st\<rparr>)
      | (Inr _, st) \<Rightarrow> exex_items A ns (s\<lparr>ex_state := st\<rparr>))"

text \<open>\<open>ExEx::poll\<close>.\<close>

definition exex_poll :: "('c, 'h, 'ou) state_api \<Rightarrow> ('c, 'h, 'ou) exex_task \<Rightarrow> (err + unit) poll \<times> ('c, 'h, 'ou) exex_task" where
  "exex_poll A s = exex_items A (src_items (ex_notifications s)) s"

section \<open>The oracle\<close>

record ('c, 'h, 'ou, 'tab, 'enr, 'sock, 'peer, 'd) oracle_future =
  or_network :: "('tab, 'enr, 'sock, 'peer) oracle_network"
  or_exex :: "('c, 'h, 'ou) exex_task"
  or_data_feed :: 'd
  or_to_peers :: "signed_ticker list" \<comment> \<open>everything sent on the broadcast channel\<close>

text \<open>\<open>ExEx::new\<close> and \<open>Oracle::new\<close>.\<close>

definition new_exex_task :: "(err + 'c exex_notification) source \<Rightarrow> 'ou \<Rightarrow> ('c, 'h, 'ou) exex_task" where
  "new_exex_task notifications default_outcome =
     \<lparr>ex_notifications = notifications, ex_state = new_state_exex default_outcome\<rparr>"

definition new_oracle ::
  "('c, 'h, 'ou) exex_task \<Rightarrow> ('tab, 'enr, 'sock, 'peer) oracle_network \<Rightarrow> 'd \<Rightarrow> signed_ticker list
     \<Rightarrow> ('c, 'h, 'ou, 'tab, 'enr, 'sock, 'peer, 'd) oracle_future" where
  "new_oracle exex network data_feed to_peers =
     \<lparr>or_network = network, or_exex = exex, or_data_feed = data_feed, or_to_peers = to_peers\<rparr>"

text \<open>
  The data feed loop, which the end of the feed leaves like a pending poll: sending to the peers
  fails without any, which is ignored. A feed that is always ready keeps the loop for ever.
\<close>

type_synonym 'd feed_stream = "'d \<Rightarrow> (err + data_feeds) option poll \<times> 'd"

partial_function (option) feed_loop ::
  "'d feed_stream \<Rightarrow> ('sig, 'z) oracle_api_scheme \<Rightarrow> 'sig signer \<Rightarrow> ('c, 'h, 'ou, 'tab, 'enr, 'sock, 'peer, 'd) oracle_future
     \<Rightarrow> (err option \<times> ('c, 'h, 'ou, 'tab, 'enr, 'sock, 'peer, 'd) oracle_future) option" where
  "feed_loop poll_feed L k s =
     (case poll_feed (or_data_feed s) of
        (item, d) \<Rightarrow>
          (case item of
             Pending \<Rightarrow> Some (None, s\<lparr>or_data_feed := d\<rparr>)
           | Ready item \<Rightarrow>
               (case item of
                  None \<Rightarrow> Some (None, s\<lparr>or_data_feed := d\<rparr>)
                | Some item \<Rightarrow>
                    (case item of
                       Inl e \<Rightarrow> Some (Some e, s\<lparr>or_data_feed := d\<rparr>)
                     | Inr ticker_data \<Rightarrow>
                         (case ticker_data of BinanceFeed ticker \<Rightarrow>
                            (case sign_message k (rlp_ticker L ticker) of
                               Inl e \<Rightarrow> Some (Some e, s\<lparr>or_data_feed := d\<rparr>)
                             | Inr signature \<Rightarrow> feed_loop poll_feed L k (s\<lparr>or_data_feed := d,
                                 or_to_peers := or_to_peers s @ [new_signed_ticker L ticker signature (signer_address k)]\<rparr>)))))))"

text \<open>\<open>Oracle::poll\<close>.\<close>

definition oracle_poll ::
  "'d feed_stream \<Rightarrow> ('sig, 'z) oracle_api_scheme \<Rightarrow> 'sig signer \<Rightarrow> ('c, 'h, 'ou) state_api \<Rightarrow> ('enr \<Rightarrow> 'tab \<Rightarrow> err + 'tab) \<Rightarrow>
     ('c, 'h, 'ou, 'tab, 'enr, 'sock, 'peer, 'd) oracle_future \<Rightarrow> ((err + unit) poll \<times> ('c, 'h, 'ou, 'tab, 'enr, 'sock, 'peer, 'd) oracle_future) option" where
  "oracle_poll poll_feed L k A add_node s =
     (case poll_until_pending (network_poll add_node) (or_network s) of
        None \<Rightarrow> None
      | Some (Some e, n) \<Rightarrow> Some (Ready (Inl e), s\<lparr>or_network := n\<rparr>)
      | Some (None, n) \<Rightarrow>
          (case feed_loop poll_feed L k (s\<lparr>or_network := n\<rparr>) of
             None \<Rightarrow> None
           | Some (Some e, s) \<Rightarrow> Some (Ready (Inl e), s)
           | Some (None, s) \<Rightarrow>
               (case poll_until_pending (\<lambda>x. Some (exex_poll A x)) (or_exex s) of
                  None \<Rightarrow> None
                | Some (Some e, x) \<Rightarrow> Some (Ready (Inl e), s\<lparr>or_exex := x\<rparr>)
                | Some (None, x) \<Rightarrow> Some (Pending, s\<lparr>or_exex := x\<rparr>))))"

section \<open>The loops as what they do\<close>

text \<open>Adding the discovered nodes, in order.\<close>

fun add_nodes :: "('enr \<Rightarrow> 'tab \<Rightarrow> err + 'tab) \<Rightarrow> ('enr, 'sock) disc_event list \<Rightarrow> 'tab \<Rightarrow> err + 'tab" where
  "add_nodes add_node [] tab = Inr tab"
| "add_nodes add_node (Discovered enr # evs) tab = and_then (add_node enr tab) (add_nodes add_node evs)"
| "add_nodes add_node (_ # evs) tab = add_nodes add_node evs tab"

lemma discovery_events_ok:
  "add_nodes add_node evs (dc_table s) = Inr tab \<Longrightarrow> discovery_events add_node evs s =
     (if src_closed (dc_events s) then Ready (Inr ()) else Pending,
      s\<lparr>dc_table := tab, dc_events := drained (dc_events s)\<rparr>)"
  by (induction add_node evs s rule: discovery_events.induct)
    (auto simp: drained_def res split: sum.splits)

lemma discovery_drain:
  assumes "add_nodes add_node (src_items (dc_events d)) (dc_table d) = Inr tab"
  shows "poll_until_pending (\<lambda>d. Some (discovery_poll add_node d)) d =
    (if src_closed (dc_events d) then None else Some (None, d\<lparr>dc_table := tab, dc_events := drained (dc_events d)\<rparr>))"
proof (cases "src_closed (dc_events d)")
  case True
  let ?D = "\<lambda>d. src_closed (dc_events d) \<and> (\<exists>tab. add_nodes add_node (src_items (dc_events d)) (dc_table d) = Inr tab)"
  have "poll_until_pending (\<lambda>d. Some (discovery_poll add_node d)) d = None"
    by (rule poll_until_pending_spins [where D = ?D])
      (use True assms in \<open>auto simp: discovery_poll_def discovery_events_ok\<close>)
  with True show ?thesis by simp
next
  case False
  with assms show ?thesis
    by (simp add: poll_until_pending_simps(2) discovery_poll_def discovery_events_ok)
qed

lemma proto_events_drain [simp]: "proto_events_loop evs s = drained s"
  by (induction evs s rule: proto_events_loop.induct) (simp_all add: drained_def)

lemma network_drain:
  assumes "add_nodes add_node (src_items (dc_events (nw_discovery n))) (dc_table (nw_discovery n)) = Inr tab"
  shows "poll_until_pending (network_poll add_node) n =
    (if src_closed (dc_events (nw_discovery n)) then None
     else Some (None, n\<lparr>nw_discovery := (nw_discovery n)\<lparr>dc_table := tab, dc_events := drained (dc_events (nw_discovery n))\<rparr>,
       nw_proto_events := drained (nw_proto_events n)\<rparr>))"
  using discovery_drain [OF assms]
  by (simp add: poll_until_pending_simps(1,2) network_poll_def)

lemma exex_items_eq:
  "(case exex_items A ns s of (r, s') \<Rightarrow> (r, ex_state s')) =
     (case run_exex (state_step A) ns (ex_state s) of
        (Inl e, st) \<Rightarrow> (Ready (Inl e), st)
      | (Inr _, st) \<Rightarrow> (if src_closed (ex_notifications s) then Ready (Inr ()) else Pending, st))"
  by (induction A ns s rule: exex_items.induct) (auto split: prod.splits sum.splits)

lemma exex_items_drained:
  assumes "run_exex (state_step A) ns (ex_state s) = (Inr u, st)"
  shows "exex_items A ns s = (if src_closed (ex_notifications s) then Ready (Inr ()) else Pending,
    s\<lparr>ex_notifications := drained (ex_notifications s), ex_state := st\<rparr>)"
  using assms
  by (induction A ns s rule: exex_items.induct) (auto simp: drained_def split: prod.splits sum.splits)

lemma exex_drain:
  "map_option (\<lambda>(r, x). (r, ex_state x)) (poll_until_pending (\<lambda>x. Some (exex_poll A x)) x) =
     (case in_memory_exex A (src_items (ex_notifications x)) (ex_state x) of
        (Inl e, st) \<Rightarrow> Some (Some e, st)
      | (Inr _, st) \<Rightarrow> if src_closed (ex_notifications x) then None else Some (None, st))"
proof -
  obtain r st where run: "run_exex (state_step A) (src_items (ex_notifications x)) (ex_state x) = (r, st)"
    by (cases "run_exex (state_step A) (src_items (ex_notifications x)) (ex_state x)")
  obtain q y where q: "exex_poll A x = (q, y)" by (cases "exex_poll A x")
  show ?thesis
  proof (cases r)
    case (Inl e)
    with exex_items_eq [of A "src_items (ex_notifications x)" x] run q
    have "q = Ready (Inl e)" "ex_state y = st" by (simp_all add: exex_poll_def)
    with q run Inl show ?thesis
      by (simp add: poll_until_pending_simps(3) in_memory_exex_def)
  next
    case (Inr u)
    show ?thesis
    proof (cases "src_closed (ex_notifications x)")
      case True
      let ?D = "\<lambda>x. src_closed (ex_notifications x) \<and>
        (\<exists>u st. run_exex (state_step A) (src_items (ex_notifications x)) (ex_state x) = (Inr u, st))"
      have "poll_until_pending (\<lambda>x. Some (exex_poll A x)) x = None"
        by (rule poll_until_pending_spins [where D = ?D])
          (use True run Inr in \<open>auto simp: exex_poll_def exex_items_drained\<close>)
      with True run Inr show ?thesis by (simp add: in_memory_exex_def)
    next
      case False
      with run Inr show ?thesis
        by (simp add: poll_until_pending_simps(2) exex_poll_def exex_items_drained in_memory_exex_def)
    qed
  qed
qed

text \<open>The tickers a feed has ready: what its polls give until it is pending or has ended.\<close>

inductive yields :: "'d feed_stream \<Rightarrow> 'd \<Rightarrow> ticker list \<Rightarrow> 'd \<Rightarrow> bool" for poll_feed where
  stop: "poll_feed d = (r, d') \<Longrightarrow> r = Pending \<or> r = Ready None \<Longrightarrow> yields poll_feed d [] d'"
| ticker: "poll_feed d = (Ready (Some (Inr (BinanceFeed t))), d') \<Longrightarrow> yields poll_feed d' ts d'' \<Longrightarrow> yields poll_feed d (t # ts) d''"

lemma feed_loop_ok:
  assumes "yields poll_feed d ticks d'" "\<forall>t \<in> set ticks. sign_message k (rlp_ticker L t) = Inr (sg t)" "or_data_feed s = d"
  shows "feed_loop poll_feed L k s = Some (None, s\<lparr>or_data_feed := d',
       or_to_peers := or_to_peers s @ map (\<lambda>t. new_signed_ticker L t (sg t) (signer_address k)) ticks\<rparr>)"
  using assms
proof (induction arbitrary: s rule: yields.induct)
  case (stop d r d')
  then show ?case by (subst feed_loop.simps) auto
next
  case (ticker d t d' ts d'')
  then show ?case by (subst feed_loop.simps) simp
qed

lemma poll_source_ticker:
  "src_items src = Inr (BinanceFeed t) # xs \<Longrightarrow>
     poll_source src = (Ready (Some (Inr (BinanceFeed t))), src\<lparr>src_items := xs\<rparr>)"
  by (simp add: poll_source_def)

lemma source_yields:
  "src_items src = map (\<lambda>t. Inr (BinanceFeed t)) ticks \<Longrightarrow> yields poll_source src ticks (drained src)"
proof (induction ticks arbitrary: src)
  case Nil
  then show ?case
    by (intro yields.stop [where r = "if src_closed src then Ready None else Pending"]) (auto simp: poll_source_def drained_def)
next
  case (Cons t ts)
  let ?src = "src\<lparr>src_items := map (\<lambda>t. Inr (BinanceFeed t)) ts\<rparr>"
  have "drained ?src = drained src" by (simp add: drained_def)
  moreover have "yields poll_source ?src ts (drained ?src)" by (rule Cons.IH) simp
  ultimately show ?case
    using Cons.prems poll_source_ticker [of src t "map (\<lambda>t. Inr (BinanceFeed t)) ts"] by (auto intro: yields.ticker)
qed

section \<open>The Binance feed of the oracle\<close>

text \<open>\<open>DataFeederStream\<close> as the feed of the oracle, whose error \<open>?\<close> turns into a report.\<close>

definition binance_feed :: "('e data_feeder_error \<Rightarrow> err) \<Rightarrow> ('msg, 'e) feed_api \<Rightarrow> ('msg, 'e) binance_connection feed_stream" where
  "binance_feed to_report F s =
     (case data_feed_poll F s of
        (r, s) \<Rightarrow>
          (case r of
             Ready (Some (Inl e)) \<Rightarrow> (Ready (Some (Inl (to_report e))), s)
           | Ready (Some (Inr feed)) \<Rightarrow> (Ready (Some (Inr feed)), s)
           | Ready None \<Rightarrow> (Ready None, s)
           | Pending \<Rightarrow> (Pending, s)))"

text \<open>The ticker of a frame, if it has one.\<close>

definition frame_ticker :: "('msg, 'e) feed_api \<Rightarrow> 'e + 'msg \<Rightarrow> ticker option" where
  "frame_ticker F x = (case x of
       Inl _ \<Rightarrow> None
     | Inr msg \<Rightarrow>
         (case into_text F msg of
            Inl _ \<Rightarrow> None
          | Inr text \<Rightarrow> (case from_json F text of Inl _ \<Rightarrow> None | Inr response \<Rightarrow> Some (rs_data response))))"

definition ready_frames :: "('msg, 'e) binance_connection \<Rightarrow> ('e + 'msg) list" where
  "ready_frames s = src_items (fd_inner (bc_inner s))"

text \<open>
  Polled until it is pending, a connected feed gives the tickers of its ready frames up to the first
  frame without one.
\<close>

lemmas binance_feed_polls = binance_feed_def data_feed_poll_def binance_poll_def poll_inner_def feeder_poll_def Let_def

lemma binance_yields:
  assumes "bc_reconnection s = None" "ready_frames s = frames"
  shows "\<exists>s'. yields (binance_feed to_report F) s
    (List.map_filter (frame_ticker F) (takeWhile (\<lambda>x. frame_ticker F x \<noteq> None) frames)) s'"
  using assms
proof (induction frames arbitrary: s)
  case Nil
  then have "fst (binance_feed to_report F s) \<in> {Pending, Ready None}"
    by (auto simp: ready_frames_def binance_feed_polls poll_source_def)
  then show ?case
    by (auto simp: List.map_filter_simps prod_eq_iff intro!: exI [of _ "snd (binance_feed to_report F s)"]
        yields.stop [where r = "fst (binance_feed to_report F s)"])
next
  case (Cons x xs)
  let ?s = "s\<lparr>bc_inner := (bc_inner s)\<lparr>fd_inner := (fd_inner (bc_inner s))\<lparr>src_items := xs\<rparr>\<rparr>\<rparr>"
  show ?case
  proof (cases "frame_ticker F x")
    case None
    with Cons.prems have "fst (binance_feed to_report F s) = Pending"
      by (auto simp: frame_ticker_def ready_frames_def binance_feed_polls poll_source_def split: sum.splits)
    with None show ?thesis
      by (auto simp: List.map_filter_simps intro!: exI [of _ "snd (binance_feed to_report F s)"] yields.stop [where r = Pending] prod_eqI)
  next
    case (Some t)
    with Cons.prems have "binance_feed to_report F s = (Ready (Some (Inr (BinanceFeed t))), ?s)"
      by (auto simp: frame_ticker_def ready_frames_def binance_feed_polls poll_source_def split: sum.splits)
    moreover have "bc_reconnection ?s = None" "ready_frames ?s = xs" using Cons.prems by (simp_all add: ready_frames_def)
    from Cons.IH [OF this] obtain s' where "yields (binance_feed to_report F) ?s
      (List.map_filter (frame_ticker F) (takeWhile (\<lambda>x. frame_ticker F x \<noteq> None) xs)) s'" ..
    ultimately show ?thesis using Some by (auto simp: List.map_filter_simps intro: yields.ticker)
  qed
qed

section \<open>What a poll broadcasts\<close>

text \<open>What a poll has broadcast by the time it returns.\<close>

lemma oracle_poll_broadcasts:
  assumes "add_nodes add_node (src_items (dc_events (nw_discovery (or_network s)))) (dc_table (nw_discovery (or_network s))) = Inr tab"
    and "yields poll_feed (or_data_feed s) ticks d"
    and "\<forall>t \<in> set ticks. sign_message k (rlp_ticker L t) = Inr (sg t)"
    and "oracle_poll poll_feed L k A add_node s = Some (r, s')"
  shows "or_to_peers s' = or_to_peers s @ map (\<lambda>t. new_signed_ticker L t (sg t) (signer_address k)) ticks"
  using assms(4)
  by (auto simp: oracle_poll_def network_drain [OF assms(1)] feed_loop_ok [OF assms(2,3)]
      split: if_splits option.splits)

section \<open>Properties\<close>

lemma signed_ticker_attests:
  assumes "oracle_api_ok L" "signer_ok L k" "sign_message k (rlp_ticker L tk) = Inr sig"
  defines "t \<equiv> new_signed_ticker L tk sig (signer_address k)"
  shows "attests L (encoded L (signed_ticker_msg t)) (st_id t) (signer_address k)"
  using assms(2,3) oracle_api_ok.decode_constructed(2) [OF assms(1), of t] oracle_api_ok.signature_rt [OF assms(1)]
  by (auto simp: attests_def signed_ticker_msg_def t_def new_signed_ticker_def signer_ok_def)

text \<open>
  Property C17. One poll of the oracle, when the nodes it discovered can be added and the ready
  tickers signed: it broadcasts every ready ticker in order, each signed so that a peer's
  connection accepts its signature, and does with the ready notifications what the ExEx does; it
  is pending afterwards, or returns their first error. Its loops have no exit once the discovery
  channel is closed, nor once the notifications have ended.
\<close>

theorem oracle_poll_returns:
  assumes "oracle_api_ok L" "signer_ok L k"
    and "add_nodes add_node (src_items (dc_events (nw_discovery (or_network s)))) (dc_table (nw_discovery (or_network s))) = Inr tab"
    and "yields poll_feed (or_data_feed s) ticks d"
    and "\<forall>t \<in> set ticks. sign_message k (rlp_ticker L t) = Inr (sg t)"
    and "new = map (\<lambda>t. new_signed_ticker L t (sg t) (signer_address k)) ticks"
  shows "map_option (\<lambda>(r, s'). (r, ex_state (or_exex s'), or_to_peers s')) (oracle_poll poll_feed L k A add_node s) =
      (if src_closed (dc_events (nw_discovery (or_network s))) then None
       else case in_memory_exex A (src_items (ex_notifications (or_exex s))) (ex_state (or_exex s)) of
           (Inl e, st) \<Rightarrow> Some (Ready (Inl e), st, or_to_peers s @ new)
         | (Inr _, st) \<Rightarrow> if src_closed (ex_notifications (or_exex s)) then None
             else Some (Pending, st, or_to_peers s @ new)) \<and>
    (\<forall>t \<in> set new. attests L (encoded L (signed_ticker_msg t)) (st_id t) (signer_address k))"
proof
  show "\<forall>t \<in> set new. attests L (encoded L (signed_ticker_msg t)) (st_id t) (signer_address k)"
    using signed_ticker_attests [OF assms(1,2)] assms(5,6) by auto
  let ?run = "in_memory_exex A (src_items (ex_notifications (or_exex s))) (ex_state (or_exex s))"
  let ?closed = "src_closed (ex_notifications (or_exex s))"
  show "map_option (\<lambda>(r, s'). (r, ex_state (or_exex s'), or_to_peers s')) (oracle_poll poll_feed L k A add_node s) =
      (if src_closed (dc_events (nw_discovery (or_network s))) then None
       else case ?run of (Inl e, st) \<Rightarrow> Some (Ready (Inl e), st, or_to_peers s @ new)
         | (Inr _, st) \<Rightarrow> if ?closed then None else Some (Pending, st, or_to_peers s @ new))"
  proof (cases "src_closed (dc_events (nw_discovery (or_network s)))")
    case False
    obtain r st where run: "?run = (r, st)" by (cases ?run)
    have drained: "map_option (\<lambda>(r, x). (r, ex_state x)) (poll_until_pending (\<lambda>x. Some (exex_poll A x)) (or_exex s))
        = (case r of Inl e \<Rightarrow> Some (Some e, st) | Inr _ \<Rightarrow> if ?closed then None else Some (None, st))"
      using exex_drain [of A "or_exex s"] run by (simp split: sum.split)
    show ?thesis
    proof (cases r)
      case (Inl e)
      with drained obtain x where "poll_until_pending (\<lambda>x. Some (exex_poll A x)) (or_exex s) = Some (Some e, x)"
        "ex_state x = st" by auto
      with False run Inl show ?thesis
        by (simp add: oracle_poll_def network_drain [OF assms(3)] feed_loop_ok [OF assms(4,5)] assms(6))
    next
      case (Inr u)
      show ?thesis
      proof (cases ?closed)
        case True
        with drained Inr have "poll_until_pending (\<lambda>x. Some (exex_poll A x)) (or_exex s) = None" by simp
        with False run Inr True show ?thesis
          by (simp add: oracle_poll_def network_drain [OF assms(3)] feed_loop_ok [OF assms(4,5)])
      next
        case ready: False
        with drained Inr obtain x where "poll_until_pending (\<lambda>x. Some (exex_poll A x)) (or_exex s) = Some (None, x)"
          "ex_state x = st" by auto
        with False run Inr ready show ?thesis
          by (simp add: oracle_poll_def network_drain [OF assms(3)] feed_loop_ok [OF assms(4,5)] assms(6))
      qed
    qed
  qed (simp add: oracle_poll_def network_drain [OF assms(3)])
qed

definition demo_oracle :: "(u64 \<times> nat list, nat, nat list, nat list, nat, unit, unit, (err + data_feeds) source) oracle_future" where
  "demo_oracle = new_oracle
     (new_exex_task \<lparr>src_items = [Inr (ChainCommitted (1, [8]))], src_closed = False\<rparr> [])
     (snd (establish BROADCAST_CHANNEL_SIZE True () \<lparr>nw_discovery = \<lparr>dc_table = [], dc_events = \<lparr>src_items = [Discovered 3, OtherEvent], src_closed = False\<rparr>\<rparr>,
        nw_proto_events = \<lparr>src_items = [], src_closed = False\<rparr>\<rparr>))
     \<lparr>src_items = map (\<lambda>t. Inr (BinanceFeed t)) [demo_ticker], src_closed = False\<rparr> []"

lemmas demo_oracle_defs = demo_oracle_def new_oracle_def new_exex_task_def

theorem oracle_poll_returns_witness:
  "map_option (\<lambda>(r, s'). (r, execution_outcome (ex_state (or_exex s')), map st_signer (or_to_peers s')))
     (oracle_poll poll_source std_oracle_api demo_signer demo_state_api (\<lambda>n t. Inr (n # t)) demo_oracle) = Some (Pending, [8], [7])"
proof -
  have "map_option (\<lambda>(r, s'). (r, ex_state (or_exex s'), or_to_peers s'))
      (oracle_poll poll_source std_oracle_api demo_signer demo_state_api (\<lambda>n t. Inr (n # t)) demo_oracle)
    = Some (Pending, (new_state_exex [])\<lparr>execution_outcome := [8], finished_heights := [1]\<rparr>,
        [new_signed_ticker std_oracle_api demo_ticker 7 7])"
    using oracle_poll_returns [OF std_oracle.oracle_api_ok_axioms demo_signer_ok, where s = demo_oracle
        and add_node = "\<lambda>n t. Inr (n # t)" and tab = "[3]" and ticks = "[demo_ticker]" and sg = "\<lambda>_. 7"
        and poll_feed = poll_source and d = "drained (or_data_feed demo_oracle)" and A = demo_state_api
        and new = "[new_signed_ticker std_oracle_api demo_ticker 7 7]"]
      source_yields [of "or_data_feed demo_oracle" "[demo_ticker]"]
    by (simp add: demo_oracle_defs demo_signer_def in_memory_exex_def state_step_def demo_state_api_def
        std_exex_api_def new_state_exex_def)
  then show ?thesis by (auto simp: new_signed_ticker_def new_state_exex_def)
qed

lemma demo_exex_drains:
  "\<exists>x. poll_until_pending (\<lambda>x. Some (exex_poll demo_state_api x)) (or_exex demo_oracle) = Some (None, x)"
  using exex_drain [of demo_state_api "or_exex demo_oracle"]
  by (auto simp: demo_oracle_defs in_memory_exex_def state_step_def demo_state_api_def std_exex_api_def new_state_exex_def)

text \<open>An oracle with the network and the ExEx of the demo, polled with tickers to sign.\<close>

lemma demo_poll:
  assumes "nw_discovery (or_network s) = nw_discovery (or_network demo_oracle)" "or_exex s = or_exex demo_oracle"
    and "yields poll_feed (or_data_feed s) ticks d"
  shows "\<exists>s'. oracle_poll poll_feed std_oracle_api demo_signer demo_state_api (\<lambda>n t. Inr (n # t)) s = Some (Pending, s') \<and>
    or_to_peers s' = or_to_peers s @ map (\<lambda>t. new_signed_ticker std_oracle_api t 7 7) ticks"
proof -
  let ?add = "\<lambda>n t. Inr (n # t) :: err + nat list"
  have net: "add_nodes ?add (src_items (dc_events (nw_discovery (or_network s)))) (dc_table (nw_discovery (or_network s))) = Inr [3]"
    and running: "\<not> src_closed (dc_events (nw_discovery (or_network s)))"
    by (simp_all add: assms(1) demo_oracle_defs)
  have sign: "\<forall>t \<in> set ticks. sign_message demo_signer (rlp_ticker std_oracle_api t) = Inr 7"
    by (simp add: demo_signer_def)
  from demo_exex_drains obtain x where
    "poll_until_pending (\<lambda>x. Some (exex_poll demo_state_api x)) (or_exex demo_oracle) = Some (None, x)" ..
  then show ?thesis
    by (simp add: oracle_poll_def network_drain [OF net] running feed_loop_ok [OF assms(3) sign] assms(2))
      (simp add: demo_signer_def)
qed

end
