(* ===== verification/Discv5_Start.thy ===== *)
theory Discv5_Start
  imports Poll_Loops
begin

text \<open>
  Starting discv5, as the discv5 ExEx does it (discv5/src/network/mod.rs, cli_ext.rs, main.rs): the
  functions of the library that the code calls, as a parameter, the constructor and operations of
  \<open>DiscV5ExEx\<close>, the arguments, and the closure \<open>main\<close> installs.
\<close>

section \<open>The library\<close>

text \<open>
  Starting discv5 with the address it listens on and the RLPx address it announces gives its table
  and the events that are ready; the conversion of a node record; the operations of the table.
\<close>

record ('tab, 'enr, 'renr, 'sock) discv5_api =
  dv_start :: "string \<Rightarrow> string \<Rightarrow> err + 'tab \<times> ('enr, 'sock) disc_event source"
  dv_reth_enr :: "'enr \<Rightarrow> 'renr"
  dv_add_node :: "'renr \<Rightarrow> 'tab \<Rightarrow> err + 'tab"
  dv_local_enr :: "'tab \<Rightarrow> 'enr"
  dv_connected_peers :: "'tab \<Rightarrow> nat"

section \<open>The network of the discv5 ExEx\<close>

record ('tab, 'enr, 'sock) disc_v5 =
  d5_inner :: 'tab
  d5_events :: "('enr, 'sock) disc_event source"

text \<open>The discovery and the RLPx address.\<close>

definition discv5_addresses :: "u16 \<Rightarrow> u16 \<Rightarrow> string \<times> string" where
  "discv5_addresses udp_port tcp_port =
     (''127.0.0.1:'' @ dec_string (unat udp_port), ''127.0.0.1:'' @ dec_string (unat tcp_port))"

definition discv5_new :: "('tab, 'enr, 'renr, 'sock) discv5_api \<Rightarrow> u16 \<Rightarrow> u16 \<Rightarrow> err + ('tab, 'enr, 'sock) disc_v5" where
  "discv5_new V udp_port tcp_port =
     (case discv5_addresses udp_port tcp_port of (discv5_addr, rlpx_addr) \<Rightarrow>
        and_then (dv_start V discv5_addr rlpx_addr) (\<lambda>(discv5, events). Inr \<lparr>d5_inner = discv5, d5_events = events\<rparr>))"

definition discv5_add_node :: "('tab, 'enr, 'renr, 'sock) discv5_api \<Rightarrow> 'enr \<Rightarrow> ('tab, 'enr, 'sock) disc_v5 \<Rightarrow> err + ('tab, 'enr, 'sock) disc_v5" where
  "discv5_add_node V enr s =
     and_then (dv_add_node V (dv_reth_enr V enr) (d5_inner s)) (\<lambda>inner. Inr (s\<lparr>d5_inner := inner\<rparr>))"

definition discv5_local_enr :: "('tab, 'enr, 'renr, 'sock) discv5_api \<Rightarrow> ('tab, 'enr, 'sock) disc_v5 \<Rightarrow> 'enr" where
  "discv5_local_enr V s = dv_local_enr V (d5_inner s)"

section \<open>Arguments and start\<close>

definition DEFAULT_DISCOVERY_PORT :: u16 where "DEFAULT_DISCOVERY_PORT = 30304"

definition DEFAULT_RLPX_PORT :: u16 where "DEFAULT_RLPX_PORT = 30303"

text \<open>Options by their long names; the parser of a port is a parameter, a missing port has its default.\<close>

definition port_arg :: "(string \<Rightarrow> err + u16) \<Rightarrow> (string \<Rightarrow> string option) \<Rightarrow> string \<Rightarrow> u16 \<Rightarrow> err + u16" where
  "port_arg parse_port flags name default_port =
     (case flags name of None \<Rightarrow> Inr default_port | Some v \<Rightarrow> parse_port v)"

text \<open>A parser of decimal ports in range.\<close>

definition std_parse_port :: "string \<Rightarrow> err + u16" where
  "std_parse_port s = (case dec_parse s of
       Some n \<Rightarrow> if n < 65536 then Inr (word_of_nat n) else Inl (Eyre ''port out of range'')
     | None \<Rightarrow> Inl (Eyre ''invalid digit''))"

record discv5_args_ext =
  da_tcp_port :: u16
  da_udp_port :: u16

definition parse_discv5_args_ext :: "(string \<Rightarrow> err + u16) \<Rightarrow> (string \<Rightarrow> string option) \<Rightarrow> err + discv5_args_ext" where
  "parse_discv5_args_ext parse_port flags =
     and_then (port_arg parse_port flags ''exex-discv5.tcp-port'' DEFAULT_RLPX_PORT) (\<lambda>tcp_port.
     and_then (port_arg parse_port flags ''exex-discv5.udp-port'' DEFAULT_DISCOVERY_PORT) (\<lambda>udp_port.
       Inr \<lparr>da_tcp_port = tcp_port, da_udp_port = udp_port\<rparr>))"

text \<open>\<open>ExEx::new\<close> of the discv5 ExEx, on the notifications and event channel of its context.\<close>

definition new_discv5_exex ::
  "(err + 'c exex_notification) source \<Rightarrow> 'h events \<Rightarrow> ('tab, 'enr, 'sock) disc_v5 \<Rightarrow> ('c, 'h, 'enr, 'sock) discv5_exex" where
  "new_discv5_exex notifications ev disc_v5 =
     \<lparr>dx_events = ev, dx_notifications = notifications, dx_disc_v5 = d5_events disc_v5\<rparr>"

text \<open>\<open>main\<close> passes the TCP port first, where the constructor has the UDP port.\<close>

definition discv5_main ::
  "('tab, 'enr, 'renr, 'sock) discv5_api \<Rightarrow> (err + 'c exex_notification) source \<Rightarrow> 'h events \<Rightarrow> discv5_args_ext
     \<Rightarrow> err + ('c, 'h, 'enr, 'sock) discv5_exex" where
  "discv5_main V notifications ev args =
     (let tcp_port = da_tcp_port args; udp_port = da_udp_port args in
      and_then (discv5_new V tcp_port udp_port) (\<lambda>disc_v5. Inr (new_discv5_exex notifications ev disc_v5)))"

text \<open>So discovery listens on the TCP port, and the UDP port is announced for RLPx.\<close>

lemma discv5_ports_swapped:
  "discv5_main V notifications ev args =
     (case dv_start V (''127.0.0.1:'' @ dec_string (unat (da_tcp_port args))) (''127.0.0.1:'' @ dec_string (unat (da_udp_port args))) of
        Inl e \<Rightarrow> Inl e
      | Inr (table, events) \<Rightarrow> Inr \<lparr>dx_events = ev, dx_notifications = notifications, dx_disc_v5 = events\<rparr>)"
  by (auto simp: discv5_main_def discv5_new_def discv5_addresses_def new_discv5_exex_def and_then_def split: sum.split)

end
