(* ===== verification/Oracle_Start.thy ===== *)
theory Oracle_Start
  imports Oracle_Task Discv5_Start
begin

text \<open>
  How an oracle comes to be: its arguments (oracle/src/cli_ext.rs), the discovery service and the
  network (the constructors of oracle/src/network), the subprotocol and its handler
  (oracle/src/network/proto), the data feed (oracle/src/offchain_data/mod.rs), and \<open>start\<close> and the
  closure \<open>main\<close> installs (oracle/src/main.rs). The parser of ports is a parameter, as is discv5.
\<close>

section \<open>Arguments\<close>

definition DEFAULT_BINANCE_SYMBOLS :: string where "DEFAULT_BINANCE_SYMBOLS = ''btcusdc,ethusdc''"

record oracle_ext =
  ox_tcp_port :: u16
  ox_udp_port :: u16
  ox_binance_symbols :: "string list"

text \<open>\<open>use_value_delimiter\<close>: a value is split at the commas, the default as well.\<close>

fun split_at :: "char \<Rightarrow> string \<Rightarrow> string list" where
  "split_at c [] = [[]]"
| "split_at c (x # xs) = (if x = c then [] # split_at c xs else (x # hd (split_at c xs)) # tl (split_at c xs))"

text \<open>The default ports are those of the discv5 ExEx.\<close>

definition parse_oracle_ext :: "(string \<Rightarrow> err + u16) \<Rightarrow> (string \<Rightarrow> string option) \<Rightarrow> err + oracle_ext" where
  "parse_oracle_ext parse_port flags =
     and_then (port_arg parse_port flags ''disc.tcp-port'' DEFAULT_RLPX_PORT) (\<lambda>tcp_port.
     and_then (port_arg parse_port flags ''disc.udp-port'' DEFAULT_DISCOVERY_PORT) (\<lambda>udp_port.
       Inr \<lparr>ox_tcp_port = tcp_port, ox_udp_port = udp_port,
            ox_binance_symbols = split_at CHR '','' (case flags ''data.symbols'' of None \<Rightarrow> DEFAULT_BINANCE_SYMBOLS | Some v \<Rightarrow> v)\<rparr>))"

lemma split_at_hd_tl [simp]: "hd (split_at c xs) # tl (split_at c xs) = split_at c xs"
  by (induction xs) simp_all

lemma split_at_append:
  "c \<notin> set xs \<Longrightarrow> split_at c (xs @ ys) = (xs @ hd (split_at c ys)) # tl (split_at c ys)"
  by (induction xs) auto

text \<open>Symbols without a comma come back from the list they are given in.\<close>

lemma split_join:
  "xs \<noteq> [] \<Longrightarrow> \<forall>x \<in> set xs. c \<notin> set x \<Longrightarrow> split_at c (join_with [c] xs) = xs"
proof (induction "[c]" xs rule: join_with.induct)
  case (2 x)
  then show ?case using split_at_append [of c x "[]"] by simp
next
  case (3 x y xs)
  then show ?case by (simp add: split_at_append)
qed simp

section \<open>Discovery and the network\<close>

definition new_discovery :: "('tab, 'enr, 'renr, 'sock) discv5_api \<Rightarrow> string \<Rightarrow> string \<Rightarrow> err + ('tab, 'enr, 'sock) discovery" where
  "new_discovery V disc_addr rlpx_addr =
     and_then (dv_start V disc_addr rlpx_addr) (\<lambda>(discv5, events). Inr \<lparr>dc_table = discv5, dc_events = events\<rparr>)"

text \<open>\<open>Discovery::add_node\<close>, which the poll of discovery calls.\<close>

definition discovery_add_node :: "('tab, 'enr, 'renr, 'sock) discv5_api \<Rightarrow> 'enr \<Rightarrow> 'tab \<Rightarrow> err + 'tab" where
  "discovery_add_node V enr table = dv_add_node V (dv_reth_enr V enr) table"

definition local_enr :: "('tab, 'enr, 'renr, 'sock) discv5_api \<Rightarrow> ('tab, 'enr, 'sock) discovery \<Rightarrow> 'enr" where
  "local_enr V s = dv_local_enr V (dc_table s)"

definition has_peers :: "('tab, 'enr, 'renr, 'sock) discv5_api \<Rightarrow> ('tab, 'enr, 'sock) discovery \<Rightarrow> bool" where
  "has_peers V s \<longleftrightarrow> dv_connected_peers V (dc_table s) > 0"

definition new_network ::
  "('tab, 'enr, 'renr, 'sock) discv5_api \<Rightarrow> 'peer protocol_event source \<Rightarrow> u16 \<Rightarrow> u16 \<Rightarrow> err + ('tab, 'enr, 'sock, 'peer) oracle_network" where
  "new_network V proto_events tcp_port udp_port =
     (case network_addresses tcp_port udp_port of (disc_addr, rlpx_addr) \<Rightarrow>
        and_then (new_discovery V disc_addr rlpx_addr) (\<lambda>discovery.
          Inr \<lparr>nw_discovery = discovery, nw_proto_events = proto_events\<rparr>))"

section \<open>The subprotocol\<close>

text \<open>Name, version and number of messages.\<close>

definition capability :: "string \<times> nat" where
  "capability = (''custom_rlpx'', 1)"

definition protocol :: "(string \<times> nat) \<times> nat" where
  "protocol = (capability, 4)"

text \<open>Every message the code can encode has an identifier below the number announced.\<close>

lemma encoded_id_below: "unat (hd (encoded L m)) < snd protocol"
  by (cases "message_type m") (simp_all add: encoded_def protocol_def)

text \<open>
  The handler has the sender halves of two channels, whose receiver halves are in the network and in
  the connections; its own is the capacity of the channel \<open>to_peers\<close>. It accepts every peer, and a
  connection without the subprotocol is kept.
\<close>

record proto_handler =
  ph_capacity :: nat

definition new_proto_handler :: "proto_handler \<times> 'peer protocol_event source \<times> signed_ticker list" where
  "new_proto_handler = (\<lparr>ph_capacity = BROADCAST_CHANNEL_SIZE\<rparr>, \<lparr>src_items = [], src_closed = False\<rparr>, [])"

definition on_incoming :: "string \<Rightarrow> proto_handler \<Rightarrow> proto_handler option" where
  "on_incoming socket_addr h = Some h"

definition on_outgoing :: "string \<Rightarrow> 'peer \<Rightarrow> proto_handler \<Rightarrow> proto_handler option" where
  "on_outgoing socket_addr peer_id h = Some h"

datatype on_not_supported = KeepAlive | Disconnect

definition on_unsupported_by_peer :: "'peer \<Rightarrow> on_not_supported" where
  "on_unsupported_by_peer peer_id = KeepAlive"

section \<open>Starting the oracle\<close>

definition new_data_feeder_stream ::
  "(string \<Rightarrow> nat \<Rightarrow> 'e + ('e + 'msg) source) \<Rightarrow> string list \<Rightarrow> 'e data_feeder_error + ('msg, 'e) binance_connection" where
  "new_data_feeder_stream conn symbols =
     (case new_binance_connection conn symbols of Inl e \<Rightarrow> Inl (BinanceError e) | Inr binance \<Rightarrow> Inr binance)"

text \<open>
  \<open>start\<close>: the subprotocol is added to the network of the node (\<open>net\<close>, the subprotocols it has)
  before discovery is started, which may fail.
\<close>

definition start_oracle ::
  "('tab, 'enr, 'renr, 'sock) discv5_api \<Rightarrow> (err + 'c exex_notification) source \<Rightarrow> 'ou \<Rightarrow> proto_handler list \<Rightarrow> u16 \<Rightarrow> u16 \<Rightarrow> 'd
     \<Rightarrow> (err + ('c, 'h, 'ou, 'tab, 'enr, 'sock, 'peer, 'd) oracle_future) \<times> proto_handler list" where
  "start_oracle V notifications default_outcome net tcp_port udp_port data_feeder =
     (case new_proto_handler of (subproto, proto_events, to_peers) \<Rightarrow>
        (let net = net @ [subproto];
             exex = new_exex_task notifications default_outcome in
         (and_then (new_network V proto_events tcp_port udp_port) (\<lambda>network.
            Inr (new_oracle exex network data_feeder to_peers)), net)))"

text \<open>The closure that \<open>main\<close> installs as the ExEx.\<close>

definition oracle_main ::
  "('tab, 'enr, 'renr, 'sock) discv5_api \<Rightarrow> (string \<Rightarrow> nat \<Rightarrow> 'e + ('e + 'msg) source) \<Rightarrow> ('e data_feeder_error \<Rightarrow> err)
     \<Rightarrow> (err + 'c exex_notification) source \<Rightarrow> 'ou \<Rightarrow> proto_handler list \<Rightarrow> oracle_ext
     \<Rightarrow> (err + ('c, 'h, 'ou, 'tab, 'enr, 'sock, 'peer, ('msg, 'e) binance_connection) oracle_future) \<times> proto_handler list" where
  "oracle_main V conn to_report notifications default_outcome net args =
     (let tcp_port = ox_tcp_port args; udp_port = ox_udp_port args in
      case new_data_feeder_stream conn (ox_binance_symbols args) of
        Inl e \<Rightarrow> (Inl (to_report e), net)
      | Inr data_feed \<Rightarrow> start_oracle V notifications default_outcome net tcp_port udp_port data_feed)"

section \<open>Properties\<close>

text \<open>
  How the oracle starts, for symbols given without a comma in them: it fails when the
  ten attempts to connect to the combined stream of exactly these symbols fail, without touching
  the network of the node; otherwise its subprotocol is added, and it fails only when discv5 does,
  started to listen on the UDP port and to announce the TCP port. The oracle it starts with is
  connected, has nothing to poll but what discv5 and the node have ready, and has broadcast nothing.
\<close>

lemma oracle_starts:
  assumes "parse_oracle_ext parse_port flags = Inr args"
    and "flags ''data.symbols'' = Some (join_with '','' symbols)" "symbols \<noteq> []" "\<forall>x \<in> set symbols. CHR '','' \<notin> set x"
  defines "url \<equiv> ''wss://stream.binance.com/stream?streams='' @ join_with ''/'' (map (\<lambda>symbol. symbol @ ''@ticker'') symbols)"
    and "any \<equiv> ''0.0.0.0:''"
  shows "oracle_main V conn to_report notifications default_outcome net args =
     (case find (\<lambda>i. \<not> isl (conn url i)) [0..<10] of
        None \<Rightarrow> (Inl (to_report (BinanceError MaxRetriesExceeded)), net)
      | Some i \<Rightarrow>
          (case dv_start V (any @ dec_string (unat (ox_udp_port args))) (any @ dec_string (unat (ox_tcp_port args))) of
             Inl e \<Rightarrow> Inl e
           | Inr (table, events) \<Rightarrow> Inr
               \<lparr>or_network = \<lparr>nw_discovery = \<lparr>dc_table = table, dc_events = events\<rparr>,
                  nw_proto_events = \<lparr>src_items = [], src_closed = False\<rparr>\<rparr>,
                or_exex = \<lparr>ex_notifications = notifications, ex_state = new_state_exex default_outcome\<rparr>,
                or_data_feed = \<lparr>bc_inner = \<lparr>fd_inner = projr (conn url i), fd_symbols = symbols\<rparr>, bc_reconnection = None\<rparr>,
                or_to_peers = []\<rparr>,
           net @ [\<lparr>ph_capacity = 200\<rparr>]))"
proof -
  have symbols: "ox_binance_symbols args = symbols"
    using assms(1,2) split_join [OF assms(3), of "CHR '',''"] assms(4) by (auto simp: parse_oracle_ext_def and_then_Inr_iff)
  have feeder: "new_feeder conn symbols = (case find (\<lambda>i. \<not> isl (conn url i)) [0..<10] of
      None \<Rightarrow> Inl MaxRetriesExceeded | Some i \<Rightarrow> Inr \<lparr>fd_inner = projr (conn url i), fd_symbols = symbols\<rparr>)"
    using connect_loop_eq [of 0 "conn url" 0]
    by (simp add: new_feeder_def connect_with_retries_def max_retries_def url_def feed_url_def split: option.split)
  show ?thesis
    by (auto simp: oracle_main_def Let_def symbols new_data_feeder_stream_def new_binance_connection_def feeder
        start_oracle_def new_proto_handler_def new_network_def network_addresses_def new_discovery_def any_def
        new_oracle_def new_exex_task_def BROADCAST_CHANNEL_SIZE_def and_then_def split: option.split sum.split)
qed

text \<open>
  The arguments of the test \<open>test_oracle_ext\<close>; the connection succeeds at the third attempt, and the
  table of discv5 shows the addresses it was started with.
\<close>

definition test_flags :: "string \<Rightarrow> string option" where
  "test_flags = [''disc.tcp-port'' \<mapsto> ''30304'', ''disc.udp-port'' \<mapsto> ''30303'', ''data.symbols'' \<mapsto> ''btcusdt,ethusdt'']"

lemma test_oracle_ext:
  "parse_oracle_ext std_parse_port test_flags =
     Inr \<lparr>ox_tcp_port = 30304, ox_udp_port = 30303, ox_binance_symbols = [''btcusdt'', ''ethusdt'']\<rparr>"
  by (simp add: parse_oracle_ext_def test_flags_def port_arg_def std_parse_port_def dec_parse_def char_digit_def)

definition demo_discv5 :: "(string list, string, string, unit) discv5_api" where
  "demo_discv5 = \<lparr>dv_start = (\<lambda>disc rlpx. Inr ([disc, rlpx], \<lparr>src_items = [], src_closed = False\<rparr>)),
     dv_reth_enr = (\<lambda>enr. enr), dv_add_node = (\<lambda>enr table. Inr (enr # table)), dv_local_enr = hd, dv_connected_peers = length\<rparr>"

definition third_time :: "string \<Rightarrow> nat \<Rightarrow> unit + (unit + unit) source" where
  "third_time url i = (if i < 2 then Inl () else Inr \<lparr>src_items = [], src_closed = False\<rparr>)"

lemma start_digits: "digit_char 0 = CHR ''0''" "digit_char 3 = CHR ''3''" "digit_char 4 = CHR ''4''"
  by code_simp+

lemma oracle_starts_witness:
  "\<exists>s :: (nat, nat, nat list, string list, string, unit, unit, (unit, unit) binance_connection) oracle_future.
     oracle_main demo_discv5 third_time (\<lambda>_. Eyre ''feed'') \<lparr>src_items = [], src_closed = False\<rparr> [] []
       \<lparr>ox_tcp_port = 30304, ox_udp_port = 30303, ox_binance_symbols = [''btcusdt'', ''ethusdt'']\<rparr>
     = (Inr s, [\<lparr>ph_capacity = 200\<rparr>]) \<and>
     dc_table (nw_discovery (or_network s)) = [''0.0.0.0:30303'', ''0.0.0.0:30304'']"
proof -
  have ports: "dec_string 30303 = ''30303''" "dec_string 30304 = ''30304''"
    by (simp_all add: dec_string.simps start_digits)
  have "find (\<lambda>i. \<not> isl (third_time url i)) [0..<10] = Some 2" for url
    by (simp add: third_time_def upt_conv_Cons)
  with oracle_starts [OF test_oracle_ext, where symbols = "[''btcusdt'', ''ethusdt'']" and conn = third_time and V = demo_discv5
      and net = "[]" and to_report = "\<lambda>_. Eyre ''feed''" and notifications = "\<lparr>src_items = [], src_closed = False\<rparr>"
      and default_outcome = "[]"] ports
  show ?thesis by (auto simp: test_flags_def demo_discv5_def)
qed

end
