(* ===== verification/Oracle_Node.thy ===== *)
theory Oracle_Node
  imports Oracle_Start
begin

text \<open>
  The oracle inside a node: the future that \<open>start\<close> gives, polled by the executor, and the
  connections the subprotocol handler opens to any number of peers, all subscribed to what the
  oracle broadcasts. Polls of the oracle, peers, and the world around them interleave.
\<close>

section \<open>The node\<close>

record ('c, 'h, 'ou, 'tab, 'enr, 'sock, 'peer, 'd) oracle_node =
  nd_oracle :: "('c, 'h, 'ou, 'tab, 'enr, 'sock, 'peer, 'd) oracle_future"
  nd_connections :: "(connection \<times> poll_result list) list"
  nd_result :: "(err + unit) poll" \<comment> \<open>of the last poll of the oracle\<close>

definition new_node ::
  "('c, 'h, 'ou, 'tab, 'enr, 'sock, 'peer, 'd) oracle_future \<Rightarrow> ('c, 'h, 'ou, 'tab, 'enr, 'sock, 'peer, 'd) oracle_node" where
  "new_node oracle_future = \<lparr>nd_oracle = oracle_future, nd_connections = [], nd_result = Pending\<rparr>"

text \<open>Tickers sent on the broadcast channel reach the receiver of every connection.\<close>

definition broadcast_to ::
  "('sig, 'z) oracle_api_scheme \<Rightarrow> signed_ticker list \<Rightarrow> connection \<times> poll_result list \<Rightarrow> connection \<times> poll_result list" where
  "broadcast_to L ts = fold (connection_step L) (map TickBroadcast ts)"

text \<open>
  A peer connects, in either direction; the oracle is polled, until it has returned; something
  happens on a connection; discovery events, protocol events, notifications or frames become ready
  or end.
\<close>

inductive node_step ::
  "'d feed_stream \<Rightarrow> ('sig, 'z) oracle_api_scheme \<Rightarrow> 'sig signer \<Rightarrow> ('c, 'h, 'ou) state_api \<Rightarrow> ('enr \<Rightarrow> 'tab \<Rightarrow> err + 'tab) \<Rightarrow> proto_handler
     \<Rightarrow> ('c, 'h, 'ou, 'tab, 'enr, 'sock, 'peer, 'd) oracle_node \<Rightarrow> ('c, 'h, 'ou, 'tab, 'enr, 'sock, 'peer, 'd) oracle_node \<Rightarrow> bool"
  for poll_feed L k A add_node h where
  peer_dials: "on_incoming addr h = Some handler \<Longrightarrow>
     establish (ph_capacity handler) False peer (or_network (nd_oracle s)) = (c, network) \<Longrightarrow>
     node_step poll_feed L k A add_node h s
       (s\<lparr>nd_oracle := (nd_oracle s)\<lparr>or_network := network\<rparr>, nd_connections := nd_connections s @ [(c, [])]\<rparr>)"
| peer_dialled: "on_outgoing addr peer h = Some handler \<Longrightarrow>
     establish (ph_capacity handler) True peer (or_network (nd_oracle s)) = (c, network) \<Longrightarrow>
     node_step poll_feed L k A add_node h s
       (s\<lparr>nd_oracle := (nd_oracle s)\<lparr>or_network := network\<rparr>, nd_connections := nd_connections s @ [(c, [])]\<rparr>)"
| oracle_polled: "nd_result s = Pending \<Longrightarrow> oracle_poll poll_feed L k A add_node (nd_oracle s) = Some (r, or') \<Longrightarrow>
     sent = drop (length (or_to_peers (nd_oracle s))) (or_to_peers or') \<Longrightarrow>
     node_step poll_feed L k A add_node h s
       (s\<lparr>nd_oracle := or', nd_connections := map (broadcast_to L sent) (nd_connections s), nd_result := r\<rparr>)"
| on_connection: "i < length (nd_connections s) \<Longrightarrow> broadcast_ticker ev = None \<Longrightarrow>
     node_step poll_feed L k A add_node h s
       (s\<lparr>nd_connections := (nd_connections s)[i := connection_step L ev (nd_connections s ! i)]\<rparr>)"
| inputs: "node_step poll_feed L k A add_node h s
       (s\<lparr>nd_oracle := (nd_oracle s)\<lparr>or_network := (or_network (nd_oracle s))
            \<lparr>nw_discovery := (nw_discovery (or_network (nd_oracle s)))\<lparr>dc_events := evs\<rparr>, nw_proto_events := pevs\<rparr>,
          or_exex := (or_exex (nd_oracle s))\<lparr>ex_notifications := ns\<rparr>, or_data_feed := d\<rparr>\<rparr>)"

inductive_cases node_stepE: "node_step poll_feed L k A add_node h s s'"

section \<open>What is broadcast\<close>

text \<open>Signed by \<open>k\<close>.\<close>

definition signed_by :: "('sig, 'z) oracle_api_scheme \<Rightarrow> 'sig signer \<Rightarrow> signed_ticker \<Rightarrow> bool" where
  "signed_by L k t \<longleftrightarrow> (\<exists>ticker signature. sign_message k (rlp_ticker L ticker) = Inr signature \<and>
     t = new_signed_ticker L ticker signature (signer_address k))"

definition extends_signed ::
  "('sig, 'z) oracle_api_scheme \<Rightarrow> 'sig signer \<Rightarrow> signed_ticker list \<Rightarrow> signed_ticker list \<Rightarrow> bool" where
  "extends_signed L k ts ts' \<longleftrightarrow> (\<exists>new. ts' = ts @ new \<and> list_all (signed_by L k) new)"

lemma extends_signed_refl [simp]: "extends_signed L k ts ts"
  by (simp add: extends_signed_def)

lemma extends_signed_trans:
  "extends_signed L k ts ts' \<Longrightarrow> extends_signed L k ts' ts'' \<Longrightarrow> extends_signed L k ts ts''"
  by (auto simp: extends_signed_def)

lemma extends_signed_step:
  "sign_message k (rlp_ticker L ticker) = Inr signature \<Longrightarrow>
     extends_signed L k (ts @ [new_signed_ticker L ticker signature (signer_address k)]) ts' \<Longrightarrow> extends_signed L k ts ts'"
  by (auto simp: extends_signed_def signed_by_def) blast

text \<open>However a feed behaves, a loop that returns has only sent tickers it signed.\<close>

lemma feed_loop_signed:
  assumes "feed_loop poll_feed L k s = Some (r, s')"
  shows "extends_signed L k (or_to_peers s) (or_to_peers s')"
proof -
  have "extends_signed L k (or_to_peers s) (or_to_peers (snd (r, s')))"
  proof (rule feed_loop.raw_induct [where P = "\<lambda>p L k s q. extends_signed L k (or_to_peers s) (or_to_peers (snd q))", OF _ assms],
      goal_cases)
    case (1 f p L k s q)
    note IH = 1(1)
    show ?case
      using 1(2) by (auto split: prod.splits poll.splits option.splits sum.splits data_feeds.splits
          dest!: IH intro: extends_signed_step)
  qed
  then show ?thesis by simp
qed

lemma oracle_poll_signed:
  "oracle_poll poll_feed L k A add_node s = Some (r, s') \<Longrightarrow> extends_signed L k (or_to_peers s) (or_to_peers s')"
  by (auto simp: oracle_poll_def split: option.splits prod.splits dest!: feed_loop_signed)

lemma signed_by_accepted:
  assumes "oracle_api_ok L" "signer_ok L k" "signed_by L k t"
  shows "accepted L (signer_address k) t"
proof -
  from assms(3) obtain ticker signature where "sign_message k (rlp_ticker L ticker) = Inr signature"
    "t = new_signed_ticker L ticker signature (signer_address k)" by (auto simp: signed_by_def)
  with oracle_api_ok.signed_ticker_accepted [OF assms(1,2), of ticker signature "st_id t"] show ?thesis
    by (simp add: accepted_def relabelled_def)
qed

section \<open>Each connection of a node is a connection of its own\<close>

lemma broadcast_to_run:
  "broadcast_to L ts (run_connection L cap is_outgoing events) = run_connection L cap is_outgoing (events @ map TickBroadcast ts)"
  by (simp add: broadcast_to_def run_connection_append)

lemma broadcast_tickers_sent [simp]: "broadcast_tickers (map TickBroadcast ts) = ts"
  by (induction ts) (simp_all add: List.map_filter_simps)

text \<open>
  The invariant: the tickers are signed, and every connection has run on the tickers broadcast since
  it was established, in some schedule.
\<close>

definition runs_on :: "('sig, 'z) oracle_api_scheme \<Rightarrow> nat \<Rightarrow> signed_ticker list \<Rightarrow> connection \<times> poll_result list \<Rightarrow> bool" where
  "runs_on L cap since c \<longleftrightarrow> (\<exists>is_outgoing events. c = run_connection L cap is_outgoing events \<and> broadcast_tickers events = since)"

definition follows :: "('sig, 'z) oracle_api_scheme \<Rightarrow> nat \<Rightarrow> signed_ticker list \<Rightarrow> connection \<times> poll_result list \<Rightarrow> bool" where
  "follows L cap log c \<longleftrightarrow> (\<exists>before since. log = before @ since \<and> runs_on L cap since c)"

definition node_inv ::
  "('sig, 'z) oracle_api_scheme \<Rightarrow> 'sig signer \<Rightarrow> nat \<Rightarrow> ('c, 'h, 'ou, 'tab, 'enr, 'sock, 'peer, 'd) oracle_node \<Rightarrow> bool" where
  "node_inv L k cap s \<longleftrightarrow> list_all (signed_by L k) (or_to_peers (nd_oracle s)) \<and>
     (\<forall>c \<in> set (nd_connections s). follows L cap (or_to_peers (nd_oracle s)) c)"

lemma follows_new: "follows L cap log (into_connection cap is_outgoing, [])"
proof -
  have "runs_on L cap [] (into_connection cap is_outgoing, [])"
    unfolding runs_on_def
    by (intro exI [of _ is_outgoing] exI [of _ "[]"]) (simp add: run_connection_def List.map_filter_simps)
  then show ?thesis unfolding follows_def by (intro exI [of _ log] exI [of _ "[]"]) simp
qed

lemma runs_on_event:
  assumes "runs_on L cap since c" "broadcast_ticker ev = None"
  shows "runs_on L cap since (connection_step L ev c)"
proof -
  from assms(1) obtain is_outgoing events where "c = run_connection L cap is_outgoing events" "broadcast_tickers events = since"
    by (auto simp: runs_on_def)
  with assms(2) show ?thesis unfolding runs_on_def
    by (intro exI [of _ is_outgoing] exI [of _ "events @ [ev]"]) (simp add: run_connection_append)
qed

lemma runs_on_broadcast:
  assumes "runs_on L cap since c"
  shows "runs_on L cap (since @ ts) (broadcast_to L ts c)"
proof -
  from assms obtain is_outgoing events where "c = run_connection L cap is_outgoing events" "broadcast_tickers events = since"
    by (auto simp: runs_on_def)
  then show ?thesis unfolding runs_on_def
    by (intro exI [of _ is_outgoing] exI [of _ "events @ map TickBroadcast ts"]) (simp add: broadcast_to_run)
qed

lemma follows_event: "follows L cap log c \<Longrightarrow> broadcast_ticker ev = None \<Longrightarrow> follows L cap log (connection_step L ev c)"
  unfolding follows_def using runs_on_event by blast

lemma follows_broadcast: "follows L cap log c \<Longrightarrow> follows L cap (log @ ts) (broadcast_to L ts c)"
  unfolding follows_def by (metis append_assoc runs_on_broadcast)

lemma node_inv_connect:
  assumes "node_inv L k (ph_capacity h) s" "establish (ph_capacity h) is_outgoing peer n = (c, network)"
  shows "node_inv L k (ph_capacity h)
    (s\<lparr>nd_oracle := (nd_oracle s)\<lparr>or_network := network\<rparr>, nd_connections := nd_connections s @ [(c, [])]\<rparr>)"
proof -
  from assms(2) have "c = into_connection (ph_capacity h) is_outgoing" by (auto simp: establish_def Let_def)
  with assms(1) show ?thesis by (simp add: node_inv_def follows_new)
qed

lemma node_step_inv:
  assumes "node_step poll_feed L k A add_node h s s'" "node_inv L k (ph_capacity h) s"
  shows "node_inv L k (ph_capacity h) s'"
  using assms(1)
proof (cases rule: node_step.cases)
  case (peer_dials addr handler peer c network)
  with node_inv_connect [OF assms(2)] show ?thesis by (simp add: on_incoming_def)
next
  case (peer_dialled addr peer handler c network)
  with node_inv_connect [OF assms(2)] show ?thesis by (simp add: on_outgoing_def)
next
  case (oracle_polled r or' sent)
  then obtain new where new: "or_to_peers or' = or_to_peers (nd_oracle s) @ new" "list_all (signed_by L k) new"
    by (auto simp: extends_signed_def dest!: oracle_poll_signed)
  with oracle_polled have "sent = new" by simp
  with oracle_polled(1) new assms(2) show ?thesis
    by (simp add: node_inv_def follows_broadcast)
next
  case (on_connection i ev)
  have "follows L (ph_capacity h) (or_to_peers (nd_oracle s)) (connection_step L ev (nd_connections s ! i))"
    using assms(2) on_connection(2,3) by (simp add: node_inv_def follows_event)
  with assms(2) on_connection(1) show ?thesis
    using set_update_subset_insert [of "nd_connections s" i "connection_step L ev (nd_connections s ! i)"]
    unfolding node_inv_def by auto
next
  case (inputs evs pevs ns d)
  with assms(2) show ?thesis by (simp add: node_inv_def)
qed

lemma node_steps_inv:
  assumes "(node_step poll_feed L k A add_node h)\<^sup>*\<^sup>* (new_node start) s" "or_to_peers start = []"
  shows "node_inv L k (ph_capacity h) s"
  using assms(1)
proof (induction rule: rtranclp_induct)
  case base
  with assms(2) show ?case by (simp add: node_inv_def new_node_def)
next
  case (step s t)
  from step.IH show ?case by (rule node_step_inv [OF step.hyps(2)])
qed

section \<open>Properties\<close>

text \<open>
  Property C19. The oracle of a node and its peers, in every run of the node: all tickers that were
  broadcast are signed by the oracle. Whatever happened in between, each of its connections has put
  out tickers broadcast since it was established, in order and each at most once, and, with those it
  has still to send, all of them as long as they are no more than the channel retains (200 at
  least). A peer that receives what a connection put out holds for every ticker among it exactly
  one attestation by the oracle's signer, and no other.
\<close>

theorem node_gossips:
  assumes "oracle_api_ok L" "signer_ok L k" "or_to_peers start = []"
    and "(node_step poll_feed L k A add_node h)\<^sup>*\<^sup>* (new_node start) s" "(c, out) \<in> set (nd_connections s)"
  shows "list_all (signed_by L k) (or_to_peers (nd_oracle s)) \<and>
    (\<exists>before since. or_to_peers (nd_oracle s) = before @ since \<and>
      subseq (sent_tickers L out @ unread (cn_signed_ticks c)) since \<and>
      (length since \<le> ph_capacity h \<longrightarrow> sent_tickers L out @ unread (cn_signed_ticks c) = since)) \<and>
    (\<forall>i. attestations_for (fst (run_connection L cap False (delivers out))) i =
      replicate (length (filter (\<lambda>t. st_id t = i) (sent_tickers L out))) (signer_address k))"
proof -
  from node_steps_inv [OF assms(4,3)] assms(5) obtain before since where
    signed: "list_all (signed_by L k) (or_to_peers (nd_oracle s))" and
    log: "or_to_peers (nd_oracle s) = before @ since" and
    run: "runs_on L (ph_capacity h) since (c, out)" by (auto simp: node_inv_def follows_def)
  from run obtain is_outgoing events where events: "run_connection L (ph_capacity h) is_outgoing events = (c, out)"
    "broadcast_tickers events = since" by (auto simp: runs_on_def)
  from oracle_api_ok.run_ticks [OF assms(1), of "ph_capacity h" is_outgoing events] events
    keeps_up_small [OF assms(1), of events "ph_capacity h" is_outgoing]
  have sent: "subseq (sent_tickers L out @ unread (cn_signed_ticks c)) since"
    "length since \<le> ph_capacity h \<Longrightarrow> sent_tickers L out @ unread (cn_signed_ticks c) = since"
    "list_all (own_result L) out" by (simp_all add: ticks_inv_def Let_def)
  have "set (sent_tickers L out) \<subseteq> set since"
    using list_emb_set [OF sent(1)] by auto
  then have "accepted L (signer_address k) t" if "t \<in> set (sent_tickers L out)" for t
    using that signed log by (auto simp: list_all_iff intro: signed_by_accepted [OF assms(1,2)])
  with oracle_api_ok.peer_counts [OF assms(1) sent(3), of "signer_address k" cap]
  have "\<forall>i. attestations_for (fst (run_connection L cap False (delivers out))) i =
      replicate (length (filter (\<lambda>t. st_id t = i) (sent_tickers L out))) (signer_address k)" by auto
  with signed log sent(1,2) show ?thesis by (intro conjI exI [of _ before] exI [of _ since]) simp_all
qed

text \<open>A peer is dialled, the oracle polled, and the connection twice.\<close>

abbreviation demo_signed :: signed_ticker where
  "demo_signed \<equiv> new_signed_ticker std_oracle_api demo_ticker 7 7"

abbreviation demo_connection :: "connection \<times> poll_result list" where
  "demo_connection \<equiv> run_connection std_oracle_api 200 True [TickBroadcast demo_signed, Polled, Polled]"

lemma demo_connection_sent: "sent_tickers std_oracle_api (snd demo_connection) = [demo_signed]"
proof -
  have "keeps_up std_oracle_api 200 True [TickBroadcast demo_signed, Polled, Polled]"
    by (rule keeps_up_small [OF std_oracle.oracle_api_ok_axioms]) (simp add: List.map_filter_simps)
  moreover have "unread (cn_signed_ticks (fst demo_connection)) = []"
    by (simp add: run_connection_def into_connection_def poll_next_def poll_loop.simps serve_def
        recv_def recv_at_def subscribe_to_def sent_to_def unread_def)
  ultimately show ?thesis
    using std_oracle.run_ticks [of 200 True "[TickBroadcast demo_signed, Polled, Polled]"]
    by (simp add: ticks_inv_def Let_def List.map_filter_simps case_prod_beta)
qed

lemma demo_node_run:
  "\<exists>s. (node_step poll_source std_oracle_api demo_signer demo_state_api (\<lambda>n t. Inr (n # t)) \<lparr>ph_capacity = 200\<rparr>)\<^sup>*\<^sup>* (new_node demo_oracle) s \<and>
     nd_connections s = [demo_connection]"
proof -
  let ?step = "node_step poll_source std_oracle_api demo_signer demo_state_api (\<lambda>n t. Inr (n # t)) \<lparr>ph_capacity = 200\<rparr>"
  let ?s = "new_node demo_oracle"
  obtain c network where est: "establish 200 True () (or_network demo_oracle) = (c, network)" by fastforce
  then have c: "c = into_connection 200 True" and net: "nw_discovery network = nw_discovery (or_network demo_oracle)"
    using establish_network [of 200 True "()" "or_network demo_oracle"] by simp_all
  let ?s1 = "?s\<lparr>nd_oracle := demo_oracle\<lparr>or_network := network\<rparr>, nd_connections := [(c, [])]\<rparr>"
  have 1: "?step ?s ?s1"
    using node_step.peer_dialled [of "[]" "()" "\<lparr>ph_capacity = 200\<rparr>" "\<lparr>ph_capacity = 200\<rparr>" ?s c network] est
    by (simp add: on_outgoing_def new_node_def)
  obtain o' where poll: "oracle_poll poll_source std_oracle_api demo_signer demo_state_api (\<lambda>n t. Inr (n # t))
      (demo_oracle\<lparr>or_network := network\<rparr>) = Some (Pending, o')" "or_to_peers o' = [demo_signed]"
    using demo_poll [of "demo_oracle\<lparr>or_network := network\<rparr>" poll_source "[demo_ticker]"] net
      source_yields [of "or_data_feed demo_oracle" "[demo_ticker]"] by (auto simp: demo_oracle_defs)
  let ?c2 = "run_connection std_oracle_api 200 True [TickBroadcast demo_signed]"
  let ?s2 = "?s1\<lparr>nd_oracle := o', nd_connections := [?c2], nd_result := Pending\<rparr>"
  have 2: "?step ?s1 ?s2"
    using node_step.oracle_polled [of ?s1 poll_source std_oracle_api demo_signer demo_state_api "\<lambda>n t. Inr (n # t)" Pending o'
        "[demo_signed]" "\<lparr>ph_capacity = 200\<rparr>"] poll
    by (simp add: new_node_def demo_oracle_defs c broadcast_to_def run_connection_def)
  let ?c3 = "run_connection std_oracle_api 200 True [TickBroadcast demo_signed, Polled]"
  have 3: "?step ?s2 (?s2\<lparr>nd_connections := [?c3]\<rparr>)"
    using node_step.on_connection [of 0 ?s2 Polled] by (simp add: run_connection_def)
  have 4: "?step (?s2\<lparr>nd_connections := [?c3]\<rparr>) (?s2\<lparr>nd_connections := [demo_connection]\<rparr>)"
    using node_step.on_connection [of 0 "?s2\<lparr>nd_connections := [?c3]\<rparr>" Polled] by (simp add: run_connection_def)
  note step = converse_rtranclp_into_rtranclp [where r = ?step] r_into_rtranclp [where r = ?step]
  have "nd_connections (?s2\<lparr>nd_connections := [demo_connection]\<rparr>) = [demo_connection]" by (simp add: new_node_def)
  with step(1) [OF 1 step(1) [OF 2 step(1) [OF 3 step(2) [OF 4]]]] show ?thesis by blast
qed

theorem node_gossips_witness:
  "attestations_for (fst (run_connection std_oracle_api 200 False (delivers (snd demo_connection)))) (st_id demo_signed) = [7]"
proof -
  from demo_node_run obtain s where run: "(node_step poll_source std_oracle_api demo_signer demo_state_api
      (\<lambda>n t. Inr (n # t)) \<lparr>ph_capacity = 200\<rparr>)\<^sup>*\<^sup>* (new_node demo_oracle) s" "nd_connections s = [demo_connection]" by blast
  then have "(fst demo_connection, snd demo_connection) \<in> set (nd_connections s)" by simp
  from node_gossips [OF std_oracle.oracle_api_ok_axioms demo_signer_ok _ run(1) this, where cap = 200] show ?thesis
    by (simp add: demo_connection_sent demo_oracle_defs demo_signer_def)
qed

end
