(* ===== verification/Oracle_Link.thy ===== *)
theory Oracle_Link
  imports Oracle_Gossip
begin

text \<open>
  Two oracles linked by a connection: whatever one side puts out arrives at the other, in order,
  while each side also gets tickers to send and commands of its own. What one side attests is
  bounded by what the other one broadcast.
\<close>

section \<open>What a connection makes of the tickers that arrive\<close>

fun arrived_ticker :: "('sig, 'z) oracle_api_scheme \<Rightarrow> connection_event \<Rightarrow> signed_ticker option" where
  "arrived_ticker L (MessageArrives m) = ticker_in L m"
| "arrived_ticker L _ = None"

abbreviation arrived_tickers :: "('sig, 'z) oracle_api_scheme \<Rightarrow> connection_event list \<Rightarrow> signed_ticker list" where
  "arrived_tickers L \<equiv> List.map_filter (arrived_ticker L)"

definition signers_of :: "b256 \<Rightarrow> signed_ticker list \<Rightarrow> address list" where
  "signers_of i ts = map st_signer (filter (\<lambda>t. st_id t = i) ts)"

lemma signers_of_simps [simp]:
  "signers_of i [] = []" "signers_of i (t # ts) = (if st_id t = i then [st_signer t] else []) @ signers_of i ts"
  "signers_of i (ts @ us) = signers_of i ts @ signers_of i us"
  by (simp_all add: signers_of_def)

lemma signers_of_mono: "subseq ts us \<Longrightarrow> subseq (signers_of i ts) (signers_of i us)"
  unfolding signers_of_def by (intro subseq_map subseq_filter)

text \<open>The attestations for an id, and the signers of the tickers that are still to be read.\<close>

definition heard :: "('sig, 'z) oracle_api_scheme \<Rightarrow> b256 \<Rightarrow> connection \<Rightarrow> bytes list \<Rightarrow> address list" where
  "heard L i s msgs = attestations_for s i @ signers_of i (List.map_filter (ticker_in L) msgs)"

lemma subseq_insert: "subseq (xs @ zs) (xs @ ys @ zs)"
  by (simp add: subseq_append' list_emb_append2)

lemma heard_Cons:
  "heard L i s (msg # msgs) = attestations_for s i @ signers_of i (case ticker_in L msg of None \<Rightarrow> [] | Some t \<Rightarrow> [t])
     @ signers_of i (List.map_filter (ticker_in L) msgs)"
  by (simp add: heard_def List.map_filter_simps split: option.split)

lemma on_message_heard:
  assumes "decode_message L msg = Some m" "on_message L (message m) s = (r, s')"
  shows "subseq (heard L i s' msgs) (heard L i s (msg # msgs))"
proof (cases "message m")
  case (SignedTicker t)
  with assms(1) have "ticker_in L msg = Some t" by (simp add: ticker_in_def)
  moreover have "s' = s \<or> s' = add_attestation (st_id t) (st_signer t) s"
    using assms(2) by (auto simp: SignedTicker on_signed_ticker_def Let_def split: sum.splits option.splits if_splits)
  then have "attestations_for s' i = attestations_for s i \<or>
      st_id t = i \<and> attestations_for s' i = attestations_for s i @ [st_signer t]" by (auto split: if_splits)
  moreover have "subseq (attestations_for s i @ signers_of i (List.map_filter (ticker_in L) msgs))
      (attestations_for s i @ signers_of i [t] @ signers_of i (List.map_filter (ticker_in L) msgs))" by (rule subseq_insert)
  ultimately show ?thesis unfolding heard_Cons unfolding heard_def by (elim disjE conjE) simp_all
qed (use assms in \<open>auto simp: heard_def ticker_in_def List.map_filter_simps split: option.splits\<close>)

lemma heard_skip: "subseq (heard L i s msgs) (heard L i s (msg # msgs))"
  unfolding heard_Cons using subseq_insert by (simp add: heard_def)

lemma heard_frame:
  "attestations_for s' = attestations_for s \<Longrightarrow> heard L i s' msgs = heard L i s msgs"
  by (simp add: heard_def)

lemma poll_loop_heard:
  "poll_loop L msgs s = (r, s') \<Longrightarrow> subseq (heard L i s' (cn_inbox s')) (heard L i s msgs)"
proof (induction msgs arbitrary: s)
  case Nil
  then show ?case
    by (auto simp: poll_loop.simps [of L "[]" s] heard_def split: prod.splits option.splits)
next
  case (Cons msg msgs)
  obtain out t where sv: "serve L s = (out, t)" by (cases "serve L s")
  have t: "heard L i t ms = heard L i s ms" for ms by (rule heard_frame) (simp add: serve_attestations [OF sv])
  show ?case
  proof (cases "out = None \<and> decode_message L msg \<noteq> None")
    case False
    then show ?thesis
      using Cons.prems sv t heard_skip [of L i t msgs msg] heard_frame
      by (auto simp: poll_loop.simps [of L "msg # msgs" s] heard_frame [of "_\<lparr>cn_inbox := _\<rparr>"] split: option.splits)
  next
    case True
    then obtain m where m: "decode_message L msg = Some m" by auto
    obtain r' u where om: "on_message L (message m) t = (r', u)" by (cases "on_message L (message m) t")
    from on_message_heard [OF m om, of i msgs] t [of "msg # msgs"] have u: "subseq (heard L i u msgs) (heard L i s (msg # msgs))" by simp
    show ?thesis
    proof (cases r')
      case None
      with True sv m om Cons.prems have "poll_loop L msgs u = (r, s')"
        by (simp add: poll_loop.simps [of L "msg # msgs" s])
      from Cons.IH [OF this] u show ?thesis by (rule subseq_order.trans)
    next
      case (Some p)
      with True sv m om u Cons.prems show ?thesis
        by (auto simp: poll_loop.simps [of L "msg # msgs" s] heard_frame [of "_\<lparr>cn_inbox := _\<rparr>"])
    qed
  qed
qed

lemma poll_next_heard:
  assumes "poll_next L s = (r, s')"
  shows "subseq (heard L i s' (cn_inbox s')) (heard L i s (cn_inbox s))"
  using assms poll_loop_heard [of L "cn_inbox s" s r s' i]
  by (auto simp: poll_next_def heard_def split: option.splits)

text \<open>Each ticker that arrived counts at most once, in the order of arrival.\<close>

lemma run_heard:
  "run_connection L cap is_outgoing events = (s, out) \<Longrightarrow>
     subseq (heard L i s (cn_inbox s)) (signers_of i (arrived_tickers L events))"
proof (induction events arbitrary: s out rule: rev_induct)
  case Nil
  then show ?case
    by (auto simp: run_connection_def into_connection_def heard_def attestations_for_def List.map_filter_simps)
next
  case (snoc ev events)
  obtain t o' where t: "run_connection L cap is_outgoing events = (t, o')" by (cases "run_connection L cap is_outgoing events")
  with snoc.prems have st: "connection_step L ev (t, o') = (s, out)" by (simp add: run_connection_append)
  note IH = snoc.IH [OF t]
  show ?case
  proof (cases ev)
    case (MessageArrives m)
    with st have "heard L i s (cn_inbox s) = heard L i t (cn_inbox t) @ signers_of i (case ticker_in L m of None \<Rightarrow> [] | Some x \<Rightarrow> [x])"
      by (auto simp: heard_def)
    with IH MessageArrives show ?thesis by (auto simp: subseq_append split: option.splits)
  next
    case Polled
    obtain r u where pn: "poll_next L t = (r, u)" by (cases "poll_next L t")
    from poll_next_heard [OF pn, of i] IH pn st Polled show ?thesis
      by (auto split: if_splits intro: subseq_order.trans)
  qed (use IH st in \<open>auto simp: heard_def\<close>)
qed

section \<open>Two sides\<close>

text \<open>
  An event is for the side that dialled (\<open>True\<close>) or for the other; what the side puts out arrives at
  once, after what arrived before.
\<close>

type_synonym link = "(connection \<times> poll_result list) \<times> (connection \<times> poll_result list)"

definition arrivals :: "poll_result list \<Rightarrow> connection_event list" where
  "arrivals rs = List.map_filter (\<lambda>r. case r of PollItem m \<Rightarrow> Some (MessageArrives m) | _ \<Rightarrow> None) rs"

definition side_step ::
  "('sig, 'z) oracle_api_scheme \<Rightarrow> connection_event \<Rightarrow> (connection \<times> poll_result list) \<times> (connection \<times> poll_result list)
     \<Rightarrow> (connection \<times> poll_result list) \<times> (connection \<times> poll_result list)" where
  "side_step L ev = (\<lambda>(a, b). let a' = connection_step L ev a in
     (a', fold (connection_step L) (arrivals (drop (length (snd a)) (snd a'))) b))"

fun link_step :: "('sig, 'z) oracle_api_scheme \<Rightarrow> bool \<times> connection_event \<Rightarrow> link \<Rightarrow> link" where
  "link_step L (True, ev) l = side_step L ev l"
| "link_step L (False, ev) l = prod.swap (side_step L ev (prod.swap l))"

text \<open>The events that come from outside the link: no message arrives but those of the other side.\<close>

fun from_outside :: "connection_event \<Rightarrow> bool" where
  "from_outside (MessageArrives _) = False"
| "from_outside _ = True"

definition run_link :: "('sig, 'z) oracle_api_scheme \<Rightarrow> nat \<Rightarrow> (bool \<times> connection_event) list \<Rightarrow> link" where
  "run_link L cap events = fold (link_step L) events ((into_connection cap True, []), (into_connection cap False, []))"

abbreviation events_of :: "bool \<Rightarrow> (bool \<times> connection_event) list \<Rightarrow> connection_event list" where
  "events_of side events \<equiv> map snd (filter (\<lambda>e. fst e = side) events)"

lemma arrived_tickers_append [simp]: "arrived_tickers L (xs @ ys) = arrived_tickers L xs @ arrived_tickers L ys"
  by (simp add: List.map_filter_def)

lemma sent_tickers_append [simp]: "sent_tickers L (xs @ ys) = sent_tickers L xs @ sent_tickers L ys"
  by (simp add: List.map_filter_def)

lemma arrivals_tickers [simp]: "arrived_tickers L (arrivals rs) = sent_tickers L rs" "broadcast_tickers (arrivals rs) = []"
  by (induction rs) (auto simp: arrivals_def List.map_filter_simps split: poll_result.split option.split)

lemma side_steps:
  "side_step L (TickBroadcast t) ((s, out), b) = ((s\<lparr>cn_signed_ticks := sent_to t (cn_signed_ticks s)\<rparr>, out), b)"
  "side_step L (CommandArrives c) ((s, out), b) = ((s\<lparr>cn_commands := cn_commands s @ [c]\<rparr>, out), b)"
  "live out \<Longrightarrow> poll_next L s = (PollItem m, s') \<Longrightarrow>
     side_step L Polled ((s, out), (r, out')) = ((s', out @ [PollItem m]), (r\<lparr>cn_inbox := cn_inbox r @ [m]\<rparr>, out'))"
  "live out \<Longrightarrow> poll_next L s = (PollPending, s') \<Longrightarrow> side_step L Polled ((s, out), b) = ((s', out @ [PollPending]), b)"
  by (simp_all add: side_step_def arrivals_def List.map_filter_simps)

lemmas poll_simps = idle_def poll_next_def poll_loop.simps serve_def at_rest_def

text \<open>
  Each side has run on its own events and on the messages of the other: the tickers it was to send
  are its own events', the tickers that arrived are those the other side sent.
\<close>

definition is_side ::
  "('sig, 'z) oracle_api_scheme \<Rightarrow> nat \<Rightarrow> bool \<Rightarrow> connection_event list \<Rightarrow> poll_result list \<Rightarrow> connection \<times> poll_result list \<Rightarrow> bool" where
  "is_side L cap side events incoming c \<longleftrightarrow> (\<exists>evs. c = run_connection L cap side evs \<and>
     broadcast_tickers evs = broadcast_tickers events \<and> arrived_tickers L evs = sent_tickers L incoming)"

lemma connection_step_out: "snd (connection_step L ev c) = snd c @ drop (length (snd c)) (snd (connection_step L ev c))"
  by (cases c; cases ev) (auto split: prod.split)

lemma side_step_sides:
  assumes "is_side L cap p evs (snd b) a" "is_side L cap q evs' (snd a) b" "side_step L ev (a, b) = (a', b')" "from_outside ev"
  shows "is_side L cap p (evs @ [ev]) (snd b') a' \<and> is_side L cap q evs' (snd a') b'"
proof -
  from assms(1) obtain xs where xs: "a = run_connection L cap p xs" "broadcast_tickers xs = broadcast_tickers evs"
    "arrived_tickers L xs = sent_tickers L (snd b)" by (auto simp: is_side_def)
  from assms(2) obtain ys where ys: "b = run_connection L cap q ys" "broadcast_tickers ys = broadcast_tickers evs'"
    "arrived_tickers L ys = sent_tickers L (snd a)" by (auto simp: is_side_def)
  let ?new = "drop (length (snd a)) (snd a')"
  from assms(3) have a': "a' = connection_step L ev a" and b': "b' = fold (connection_step L) (arrivals ?new) b"
    by (auto simp: side_step_def Let_def)
  have out: "snd a' = snd a @ ?new" unfolding a' by (rule connection_step_out)
  have "snd (fold (connection_step L) (arrivals rs) c) = snd c" for rs c
    by (induction rs arbitrary: c) (auto simp: arrivals_def List.map_filter_simps split: poll_result.split)
  then have b: "snd b' = snd b" by (simp add: b')
  have "a' = run_connection L cap p (xs @ [ev])" by (simp add: a' xs(1) run_connection_append)
  moreover have "arrived_ticker L ev = None" using assms(4) by (cases ev) simp_all
  ultimately have "is_side L cap p (evs @ [ev]) (snd b') a'"
    unfolding is_side_def b using xs by (intro exI [of _ "xs @ [ev]"]) simp
  moreover have "b' = run_connection L cap q (ys @ arrivals ?new)" by (simp add: b' ys(1) run_connection_append)
  then have "is_side L cap q evs' (snd a') b'"
    unfolding is_side_def using ys by (intro exI [of _ "ys @ arrivals ?new"]) (subst out, simp)
  ultimately show ?thesis ..
qed

lemma run_link_sides:
  assumes "list_all (from_outside \<circ> snd) events"
  shows "run_link L cap events = (a, b) \<Longrightarrow>
    is_side L cap True (events_of True events) (snd b) a \<and> is_side L cap False (events_of False events) (snd a) b"
  using assms
proof (induction events arbitrary: a b rule: rev_induct)
  case Nil
  then have "a = run_connection L cap True []" "b = run_connection L cap False []" "snd a = []" "snd b = []"
    by (auto simp: run_link_def run_connection_def)
  then show ?case unfolding is_side_def by (intro conjI exI [of _ "[]"]) (simp_all add: List.map_filter_simps)
next
  case (snoc e events)
  obtain side ev where e: "e = (side, ev)" by (cases e)
  obtain c d where cd: "run_link L cap events = (c, d)" by (cases "run_link L cap events")
  from snoc.IH [OF cd] snoc.prems(2) have
    sides: "is_side L cap True (events_of True events) (snd d) c" "is_side L cap False (events_of False events) (snd c) d"
    and ev: "from_outside ev" by (simp_all add: e)
  from snoc.prems(1) cd have st: "link_step L (side, ev) (c, d) = (a, b)" by (simp add: run_link_def e)
  show ?case
  proof (cases side)
    case True
    with st have "side_step L ev (c, d) = (a, b)" by simp
    from side_step_sides [OF sides this ev] True show ?thesis by (simp add: e)
  next
    case False
    with st have "side_step L ev (d, c) = (b, a)" by (cases "side_step L ev (d, c)") auto
    from side_step_sides [OF sides(2,1) this ev] False show ?thesis by (simp add: e)
  qed
qed

section \<open>Properties\<close>

text \<open>
  Property C22. Two oracles that run this code attest no more than was broadcast: however tickers,
  commands, polls and the messages between them interleave, the attestations that one side holds
  for an id are signers of tickers with that id that were broadcast at the other side, in the
  order of the broadcasts and each at most once.
\<close>

theorem linked_attestations:
  assumes "oracle_api_ok L" "list_all (from_outside \<circ> snd) events" "run_link L cap events = (a, b)"
  shows "subseq (attestations_for (fst a) i) (signers_of i (broadcast_tickers (events_of False events))) \<and>
    subseq (attestations_for (fst b) i) (signers_of i (broadcast_tickers (events_of True events)))"
proof -
  have bound: "subseq (attestations_for (fst c) i) (signers_of i (broadcast_tickers evs'))"
    if "is_side L cap p evs (snd d) c" "is_side L cap q evs' (snd c) d" for p q evs evs' c d
  proof -
    from that obtain xs ys where xs: "c = run_connection L cap p xs" "arrived_tickers L xs = sent_tickers L (snd d)"
      and ys: "d = run_connection L cap q ys" "broadcast_tickers ys = broadcast_tickers evs'" by (auto simp: is_side_def)
    have "subseq (attestations_for (fst c) i) (heard L i (fst c) (cn_inbox (fst c)))"
      using subseq_insert [of "attestations_for (fst c) i" "[]"] by (simp add: heard_def)
    also have "subseq \<dots> (signers_of i (sent_tickers L (snd d)))"
      using run_heard [of L cap p xs "fst c" "snd c" i] xs by simp
    also have "subseq (sent_tickers L (snd d)) (broadcast_tickers evs')"
      using oracle_api_ok.run_ticks [OF assms(1), of cap q ys] ys(1)
      by (auto simp: ys(2) [symmetric] ticks_inv_def Let_def case_prod_beta intro: subseq_order.trans)
    then have "subseq (signers_of i (sent_tickers L (snd d))) (signers_of i (broadcast_tickers evs'))"
      by (rule signers_of_mono)
    finally show ?thesis .
  qed
  from run_link_sides [OF assms(2,3)] show ?thesis by (auto intro: bound)
qed

text \<open>The side that listens broadcasts a ticker, which the other one reads after its ping.\<close>

abbreviation demo_link_ticker :: signed_ticker where
  "demo_link_ticker \<equiv> new_signed_ticker std_oracle_api demo_ticker 7 7"

definition demo_link_events :: "(bool \<times> connection_event) list" where
  "demo_link_events = [(False, TickBroadcast demo_link_ticker), (False, Polled), (True, Polled), (True, Polled)]"

lemma demo_link_run:
  "attestations_for (fst (fst (run_link std_oracle_api 200 demo_link_events))) (st_id demo_link_ticker) = [7]"
proof -
  let ?L = std_oracle_api and ?t = demo_link_ticker
  let ?A = "into_connection 200 True" and ?B = "into_connection 200 False"
  let ?tick = "encoded ?L (signed_ticker_msg ?t)"
  have decode: "decode_message ?L ?tick = Some (signed_ticker_msg ?t)" "message (signed_ticker_msg ?t) = SignedTicker ?t"
    using std_oracle.decode_constructed(2) by (simp_all add: signed_ticker_msg_def)
  have acc: "\<exists>r. on_message ?L (SignedTicker ?t) u = (Some (PollItem r), add_attestation (st_id ?t) 7 u)" for u
    using std_oracle.signed_ticker_accepted [OF demo_signer_ok, of demo_ticker 7 "st_id ?t" u]
    by (simp add: demo_signer_def relabelled_def new_signed_ticker_def)
  let ?A1 = "?A\<lparr>cn_inbox := [?tick], cn_initial_ping := None\<rparr>"
  have 1: "poll_next ?L (?B\<lparr>cn_signed_ticks := sent_to ?t (subscribe_to 200 [])\<rparr>)
      = (PollItem ?tick, ?B\<lparr>cn_signed_ticks := delivered ?t (subscribe_to 200 [])\<rparr>)"
    by (simp add: poll_simps) (simp add: poll_simps into_connection_def)
  have 2: "poll_next ?L (?A\<lparr>cn_inbox := [?tick]\<rparr>) = (PollItem (encoded ?L ping_msg), ?A1)"
    by (simp add: poll_next_def into_connection_def)
  obtain r where "on_message ?L (SignedTicker ?t) ?A1 = (Some (PollItem r), add_attestation (st_id ?t) 7 ?A1)" using acc by blast
  then have 3: "poll_next ?L ?A1 = (PollItem r, (add_attestation (st_id ?t) 7 ?A1)\<lparr>cn_inbox := []\<rparr>)"
    using decode by (simp add: poll_next_def into_connection_def poll_loop.simps [of _ "_ # _"] serve_def)
  show ?thesis
    using side_steps(3) [OF _ 1, of "[]" ?A "[]"] side_steps(3) [OF _ 2, of "[]"] side_steps(3) [OF _ 3, of "[PollItem (encoded ?L ping_msg)]"]
    by (simp add: run_link_def demo_link_events_def side_steps(1))
      (simp add: into_connection_def attestations_for_def add_attestation_def)
qed

theorem linked_attestations_witness:
  "subseq [7] (signers_of (st_id demo_link_ticker) (broadcast_tickers (events_of False demo_link_events)))"
proof -
  obtain a b where run: "run_link std_oracle_api 200 demo_link_events = (a, b)"
    by (cases "run_link std_oracle_api 200 demo_link_events")
  have "list_all (from_outside \<circ> snd) demo_link_events" by (simp add: demo_link_events_def)
  from linked_attestations [OF std_oracle.oracle_api_ok_axioms this run, of "st_id demo_link_ticker"] demo_link_run
  show ?thesis by (simp add: run)
qed

end
