(* ===== verification/Oracle_Tests.thy ===== *)
theory Oracle_Tests
  imports Oracle_Link Oracle_Start
begin

text \<open>
  The tests of the oracle's protocol (oracle/src/network/proto/mod.rs) and of the oracle as a whole
  (oracle/src/main.rs) as computations over the model, and proofs that their assertions hold for
  all keys and signatures they draw at random; and what happens to a request for attestations that
  comes too late.
\<close>

section \<open>Attesting several times\<close>

text \<open>
  \<open>sent_att\<close> and \<open>got_att\<close>: a ticker is broadcast at a side and its attestations are asked for there;
  then that side is polled for the command and the ticker, the other one for the reply, and the
  first again.
\<close>

definition attest_round :: "bool \<Rightarrow> signed_ticker \<Rightarrow> nat \<Rightarrow> (bool \<times> connection_event) list" where
  "attest_round side t tx =
     [(side, TickBroadcast t), (side, CommandArrives (Attestation (st_id t) tx)), (side, Polled), (side, Polled),
      (\<not> side, Polled), (side, Polled)]"

lemma round_polls:
  assumes "at_rest (s, out)" "0 < rx_cap (cn_signed_ticks s)"
  shows "poll_next L (s\<lparr>cn_signed_ticks := sent_to t (cn_signed_ticks s), cn_commands := [Attestation i tx]\<rparr>)
      = (PollItem (encoded L (attestations_msg (attestations_for s i))), s\<lparr>cn_signed_ticks := sent_to t (cn_signed_ticks s), cn_pending_att := Some tx\<rparr>)"
    and "poll_next L (s\<lparr>cn_signed_ticks := sent_to t (cn_signed_ticks s), cn_pending_att := Some tx\<rparr>)
      = (PollItem (encoded L (signed_ticker_msg t)), s\<lparr>cn_signed_ticks := delivered t (cn_signed_ticks s), cn_pending_att := Some tx\<rparr>)"
  using assms by (simp_all add: poll_simps)

lemma reply_polled:
  assumes "oracle_api_ok L" "at_rest (s, out)"
  shows "poll_next L (s\<lparr>cn_signed_ticks := delivered t (cn_signed_ticks s), cn_pending_att := Some tx, cn_inbox := [encoded L (attestations_msg as)]\<rparr>)
    = (PollPending, s\<lparr>cn_signed_ticks := delivered t (cn_signed_ticks s), cn_answers := cn_answers s @ [(tx, as)]\<rparr>)"
  using assms by (simp add: poll_simps attestations_msg_def oracle_api_ok.decode_constructed(1) [OF assms(1), unfolded attestations_msg_def])

lemma ask_and_tick_polled:
  assumes "oracle_api_ok L" "at_rest (s, out)" "accepted L a t"
  shows "poll_next L (s\<lparr>cn_inbox := [encoded L (attestations_msg as), encoded L (signed_ticker_msg t)]\<rparr>)
    = (PollItem (encoded L (attestations_msg (attestations_for s (st_id t) @ [a]))), add_attestation (st_id t) a s)"
proof -
  have "on_message L (SignedTicker t) u = (Some (PollItem (encoded L (attestations_msg (attestations_for u (st_id t) @ [a])))),
      add_attestation (st_id t) a u)" for u using assms(3) by (simp add: accepted_def)
  with assms(2) show ?thesis
    by (simp add: poll_simps attestations_msg_def oracle_api_ok.decode_constructed(1) [OF assms(1), unfolded attestations_msg_def]
        signed_ticker_msg_def oracle_api_ok.decode_constructed(2) [OF assms(1), unfolded signed_ticker_msg_def])
      (simp add: add_attestation_def attestations_for_def)
qed

text \<open>Everything the asking side polls, and the other side's reply.\<close>

lemma round_sides:
  assumes "oracle_api_ok L" "at_rest (s, out)" "at_rest (s', out')" "0 < rx_cap (cn_signed_ticks s)" "accepted L a t"
  defines "reply \<equiv> attestations_for s' (st_id t) @ [a]"
  shows "\<exists>o1 o2. link_step L (True, Polled) (prod.swap (side_step L Polled (prod.swap
      (fold (side_step L) [TickBroadcast t, CommandArrives (Attestation (st_id t) tx), Polled, Polled] ((s, out), (s', out'))))))
    = ((s\<lparr>cn_signed_ticks := delivered t (cn_signed_ticks s), cn_answers := cn_answers s @ [(tx, reply)]\<rparr>, o1),
       (add_attestation (st_id t) a s', o2)) \<and> live o1 \<and> live o2"
proof -
  let ?s2 = "s\<lparr>cn_signed_ticks := delivered t (cn_signed_ticks s), cn_pending_att := Some tx\<rparr>"
  let ?m1 = "encoded L (attestations_msg (attestations_for s (st_id t)))" and ?m2 = "encoded L (signed_ticker_msg t)"
  have rest: "cn_commands s = []" "cn_inbox s = []" "cn_inbox s' = []" "live out" "live out'"
    using assms(2,3) by (simp_all add: at_rest_def idle_def)
  note polls = round_polls(1) [OF assms(2,4), where L = L and t = t and i = "st_id t" and tx = tx]
    round_polls(2) [OF assms(2,4), where L = L and t = t and tx = tx]
  have sent: "fold (side_step L) [TickBroadcast t, CommandArrives (Attestation (st_id t) tx), Polled, Polled] ((s, out), (s', out'))
      = ((?s2, out @ [PollItem ?m1, PollItem ?m2]), (s'\<lparr>cn_inbox := [?m1, ?m2]\<rparr>, out'))"
    using rest polls by (simp add: side_steps)
  have replied: "side_step L Polled ((s'\<lparr>cn_inbox := [?m1, ?m2]\<rparr>, out'), (?s2, out @ [PollItem ?m1, PollItem ?m2]))
      = ((add_attestation (st_id t) a s', out' @ [PollItem (encoded L (attestations_msg reply))]),
         (?s2\<lparr>cn_inbox := [encoded L (attestations_msg reply)]\<rparr>, out @ [PollItem ?m1, PollItem ?m2]))"
    using side_steps(3) [OF rest(5) ask_and_tick_polled [OF assms(1,3,5)], where r = ?s2] rest(2) by (simp add: reply_def)
  show ?thesis
    unfolding sent using replied side_steps(4) [OF _ reply_polled [OF assms(1,2), where t = t and tx = tx and as = reply], where out = "out @ [PollItem ?m1, PollItem ?m2]"] rest
    by simp
qed

text \<open>The state between rounds: the side \<open>p\<close> at rest with what it attests and was answered.\<close>

definition between :: "nat \<Rightarrow> address list \<Rightarrow> (nat \<times> address list) list \<Rightarrow> b256 \<Rightarrow> connection \<times> poll_result list \<Rightarrow> bool" where
  "between cap as answers i p \<longleftrightarrow> at_rest p \<and> rx_cap (cn_signed_ticks (fst p)) = cap \<and>
     attestations_for (fst p) i = as \<and> cn_answers (fst p) = answers"

lemma attest_round_done:
  assumes "oracle_api_ok L" "0 < cap" "between cap as answers (st_id t) p" "between cap bs answers' (st_id t) q" "accepted L a t"
  shows "\<exists>p' q'. fold (link_step L) (attest_round side t tx) (if side then (p, q) else (q, p)) = (if side then (p', q') else (q', p')) \<and>
    between cap as (answers @ [(tx, bs @ [a])]) (st_id t) p' \<and> between cap (bs @ [a]) answers' (st_id t) q'"
proof -
  obtain s out where p: "p = (s, out)" by (cases p)
  obtain s' out' where q: "q = (s', out')" by (cases q)
  let ?A = "s\<lparr>cn_signed_ticks := delivered t (cn_signed_ticks s), cn_answers := cn_answers s @ [(tx, attestations_for s' (st_id t) @ [a])]\<rparr>"
  let ?B = "add_attestation (st_id t) a s'"
  from assms(2-4) have cap: "0 < rx_cap (cn_signed_ticks s)" and rest: "at_rest (s, out)" "at_rest (s', out')"
    by (simp_all add: between_def p q)
  from round_sides [OF assms(1) rest cap assms(5), of tx] obtain o1 o2 where final: "live o1" "live o2"
    "link_step L (True, Polled) (prod.swap (side_step L Polled (prod.swap
      (fold (side_step L) [TickBroadcast t, CommandArrives (Attestation (st_id t) tx), Polled, Polled] (p, q))))) = ((?A, o1), (?B, o2))"
    unfolding p q by blast
  have "between cap as (answers @ [(tx, bs @ [a])]) (st_id t) (?A, o1)" "between cap (bs @ [a]) answers' (st_id t) (?B, o2)"
    using assms(3,4) final(1,2) by (auto simp: between_def p q at_rest_def idle_def)
  moreover have "fold (link_step L) (attest_round side t tx) (if side then (p, q) else (q, p))
      = (if side then ((?A, o1), (?B, o2)) else ((?B, o2), (?A, o1)))"
    using final(3) by (cases side) (simp_all add: attest_round_def)
  ultimately show ?thesis by blast
qed

text \<open>The side that dialled pings, and has read the answer.\<close>

definition greeting :: "(bool \<times> connection_event) list" where
  "greeting = [(True, Polled), (False, Polled), (True, Polled)]"

lemma greeted:
  assumes "oracle_api_ok L"
  shows "\<exists>p q. run_link L cap greeting = (p, q) \<and> between cap [] [] i p \<and> between cap [] [] i q"
proof -
  let ?A = "into_connection cap True" and ?B = "into_connection cap False"
  let ?A' = "?A\<lparr>cn_initial_ping := None\<rparr>"
  let ?ping = "encoded L ping_msg" and ?pong = "encoded L pong_msg"
  have b: "at_rest (?B, [])" using idle_new by (simp add: at_rest_def) (simp add: into_connection_def)
  have a: "at_rest (?A', [])" by (simp add: at_rest_def idle_def) (simp add: into_connection_def)
  have 1: "poll_next L ?A = (PollItem ?ping, ?A')" by (simp add: poll_next_def into_connection_def)
  have 2: "poll_next L (?B\<lparr>cn_inbox := [?ping]\<rparr>) = (PollItem ?pong, ?B)"
    using b by (simp add: poll_simps ping_msg_def oracle_api_ok.decode_constructed(3) [OF assms, unfolded ping_msg_def])
  have 3: "poll_next L (?A'\<lparr>cn_inbox := [?pong]\<rparr>) = (PollPending, ?A')"
    using a by (simp add: poll_simps pong_msg_def oracle_api_ok.decode_constructed(4) [OF assms, unfolded pong_msg_def])
  have inboxes: "cn_inbox ?A' = []" "cn_inbox ?B = []" by (simp_all add: into_connection_def)
  have "run_link L cap greeting = ((?A', [PollItem ?ping, PollPending]), (?B, [PollItem ?pong]))"
    using side_steps(3) [OF _ 1, of "[]" ?B "[]"] side_steps(3) [OF _ 2, of "[]" ?A' "[PollItem ?ping]"]
      side_steps(4) [OF _ 3, of "[PollItem ?ping]"] inboxes
    by (simp add: run_link_def greeting_def)
  moreover have "between cap [] [] i (?A', [PollItem ?ping, PollPending])" "between cap [] [] i (?B, [PollItem ?pong])"
    using a b by (simp_all add: between_def at_rest_def) (simp_all add: into_connection_def attestations_for_def)
  ultimately show ?thesis by blast
qed

section \<open>The tests\<close>

definition can_attest_multiple_times ::
  "('sig, 'z) oracle_api_scheme \<Rightarrow> ticker \<Rightarrow> address \<Rightarrow> address \<Rightarrow> address \<Rightarrow> 'sig \<Rightarrow> 'sig \<Rightarrow> 'sig \<Rightarrow> bool" where
  "can_attest_multiple_times L mock_ticker signer0 signer1 signer2 sig0 sig1 sig2 =
     (let peer0_att = new_signed_ticker L mock_ticker sig0 signer0;
          peer1_att = new_signed_ticker L mock_ticker sig1 signer1;
          att = new_signed_ticker L mock_ticker sig2 signer2;
          (peer0_conn, peer1_conn) = run_link L BROADCAST_CHANNEL_SIZE
            (greeting @ attest_round True peer0_att 0 @ attest_round False peer1_att 0 @ attest_round True att 1)
      in cn_answers (fst peer1_conn) = [(0, [signer1])] \<and>
         (case cn_answers (fst peer0_conn) of
            [(_, first), (_, second)] \<Rightarrow> length first = 1 \<and> first ! 0 = signer0 \<and> length second = 2 \<and> second ! 1 = signer2
          | _ \<Rightarrow> False))"

text \<open>
  The test \<open>can_attest_multiple_times\<close> passes for all keys: two peers that attest each
  other's tickers, and a third ticker by another signer for the same id, which the peer adds to
  the attestations it answers with.
\<close>

lemma can_attest_multiple_times_passes:
  assumes "oracle_api_ok L" "signer_ok L k0" "signer_ok L k1" "signer_ok L k2"
    and "sign_message k0 (rlp_ticker L t) = Inr sig0" "sign_message k1 (rlp_ticker L t) = Inr sig1"
    and "sign_message k2 (rlp_ticker L t) = Inr sig2"
  shows "can_attest_multiple_times L t (signer_address k0) (signer_address k1) (signer_address k2) sig0 sig1 sig2"
proof -
  let ?cap = BROADCAST_CHANNEL_SIZE and ?i = "keccak256 L (rlp_ticker L t)"
  let ?st = "\<lambda>sig k. new_signed_ticker L t sig (signer_address k)"
  have ids: "st_id (?st sig k) = ?i" for sig k by (simp add: new_signed_ticker_def)
  have acc: "accepted L (signer_address k) (?st sig k)" if "signer_ok L k" "sign_message k (rlp_ticker L t) = Inr sig" for k sig
    using oracle_api_ok.signed_ticker_accepted [OF assms(1) that, of ?i]
    by (simp add: accepted_def relabelled_def new_signed_ticker_def)
  have cap: "0 < ?cap" by (simp add: BROADCAST_CHANNEL_SIZE_def)
  note round = attest_round_done [OF assms(1) cap, of _ _ "?st sig k" for sig k, unfolded ids]
  obtain p q where 0: "run_link L ?cap greeting = (p, q)" "between ?cap [] [] ?i p" "between ?cap [] [] ?i q"
    using greeted [OF assms(1)] by blast
  obtain p1 q1 where 1: "fold (link_step L) (attest_round True (?st sig0 k0) 0) (p, q) = (p1, q1)"
    "between ?cap [] [(0, [signer_address k0])] ?i p1" "between ?cap [signer_address k0] [] ?i q1"
    using round [OF 0(2,3) acc [OF assms(2,5)], of True 0] by auto
  obtain p2 q2 where 2: "fold (link_step L) (attest_round False (?st sig1 k1) 0) (p1, q1) = (p2, q2)"
    "between ?cap [signer_address k1] [(0, [signer_address k0])] ?i p2"
    "between ?cap [signer_address k0] [(0, [signer_address k1])] ?i q2"
    using round [OF 1(3,2) acc [OF assms(3,6)], of False 0] by auto
  obtain p3 q3 where 3: "fold (link_step L) (attest_round True (?st sig2 k2) 1) (p2, q2) = (p3, q3)"
    "between ?cap [signer_address k1] [(0, [signer_address k0]), (1, [signer_address k0, signer_address k2])] ?i p3"
    "between ?cap [signer_address k0, signer_address k2] [(0, [signer_address k1])] ?i q3"
    using round [OF 2(2,3) acc [OF assms(4,7)], of True 1] by auto
  have "run_link L ?cap (greeting @ attest_round True (?st sig0 k0) 0 @ attest_round False (?st sig1 k1) 0 @
      attest_round True (?st sig2 k2) 1) = (p3, q3)"
    using 0(1) 1(1) 2(1) 3(1) by (simp add: run_link_def)
  with 3(2,3) show ?thesis by (simp add: can_attest_multiple_times_def between_def)
qed

section \<open>A request that comes late\<close>

text \<open>The peer's reply is read before the attestations are asked for.\<close>

definition ask_late :: "signed_ticker \<Rightarrow> nat \<Rightarrow> (bool \<times> connection_event) list" where
  "ask_late t tx = [(True, TickBroadcast t), (True, Polled), (False, Polled), (True, Polled),
     (True, CommandArrives (Attestation (st_id t) tx)), (True, Polled), (False, Polled)]"

lemma idle_polled:
  "idle s \<Longrightarrow> live out \<Longrightarrow> side_step L Polled ((s, out), b) = ((s, out @ [PollPending]), b)"
  by (rule side_steps(4)) (simp_all add: poll_simps)

lemma idle_link_polled:
  assumes "idle s" "idle s'" "live out" "live out'" "\<forall>e \<in> set events. snd e = Polled"
  shows "\<exists>o1 o2. fold (link_step L) events ((s, out), (s', out')) = ((s, o1), (s', o2))"
  using assms
proof (induction events arbitrary: out out')
  case (Cons e events)
  obtain side where e: "e = (side, Polled)" using Cons.prems(5) by (cases e) simp
  show ?case
  proof (cases side)
    case True
    with Cons.IH [of "out @ [PollPending]" out'] Cons.prems show ?thesis by (simp add: e idle_polled)
  next
    case False
    with Cons.IH [of out "out' @ [PollPending]"] Cons.prems show ?thesis by (simp add: e idle_polled)
  qed
qed simp

text \<open>
  Then the request stays open, however often both sides are polled: the peer answers tickers, not
  requests, so only a further ticker can complete it.
\<close>

lemma late_request_stays_open:
  assumes "oracle_api_ok L" "0 < cap" "between cap as answers (st_id t) (s, out)" "between cap bs answers' (st_id t) (s', out')"
    and "accepted L a t" "\<forall>e \<in> set polls. snd e = Polled"
  shows "\<exists>c d. fold (link_step L) (ask_late t tx @ polls) ((s, out), (s', out')) = (c, d) \<and>
    cn_answers (fst c) = answers \<and> cn_pending_att (fst c) = Some tx \<and> attestations_for (fst d) (st_id t) = bs @ [a]"
proof -
  let ?tick = "encoded L (signed_ticker_msg t)" and ?ask = "encoded L (attestations_msg (attestations_for s (st_id t)))"
  let ?reply = "encoded L (attestations_msg (attestations_for s' (st_id t) @ [a]))"
  let ?s1 = "s\<lparr>cn_signed_ticks := delivered t (cn_signed_ticks s)\<rparr>" and ?t1 = "add_attestation (st_id t) a s'"
  let ?s2 = "?s1\<lparr>cn_pending_att := Some tx\<rparr>"
  have rest: "idle s" "idle s'" "live out" "live out'" "cn_pending_att s = None" "cn_pending_att s' = None"
    "0 < rx_cap (cn_signed_ticks s)" "cn_answers s = answers" "attestations_for s' (st_id t) = bs"
    using assms(2-4) by (auto simp: between_def at_rest_def)
  then have idle: "idle ?s1" "idle ?s2" "idle ?t1" by (simp_all add: idle_def)
  have inbox: "cn_inbox s = []" "cn_inbox s' = []" "cn_commands s = []" using rest(1,2) by (simp_all add: idle_def)
  have att: "decode_message L (encoded L (attestations_msg as)) = Some (attestations_msg as)"
    "message (attestations_msg as) = Attestations as" for as
    using oracle_api_ok.decode_constructed(1) [OF assms(1)] by (simp_all add: attestations_msg_def)
  have tick: "decode_message L ?tick = Some (signed_ticker_msg t)" "message (signed_ticker_msg t) = SignedTicker t"
    using oracle_api_ok.decode_constructed(2) [OF assms(1)] by (simp_all add: signed_ticker_msg_def)
  have acc: "on_message L (SignedTicker t) u = (Some (PollItem (encoded L (attestations_msg (attestations_for u (st_id t) @ [a])))),
      add_attestation (st_id t) a u)" for u using assms(5) by (simp add: accepted_def)
  have 1: "poll_next L (s\<lparr>cn_signed_ticks := sent_to t (cn_signed_ticks s)\<rparr>) = (PollItem ?tick, ?s1)"
    using rest by (simp add: poll_simps)
  have 2: "poll_next L (s'\<lparr>cn_inbox := [?tick]\<rparr>) = (PollItem ?reply, ?t1)"
    using rest(2) tick acc by (simp add: poll_simps) (simp add: add_attestation_def attestations_for_def)
  have 3: "poll_next L (?s1\<lparr>cn_inbox := [?reply]\<rparr>) = (PollPending, ?s1)"
    using idle(1) rest(5) att by (simp add: poll_simps)
  have 4: "poll_next L (?s1\<lparr>cn_commands := [Attestation (st_id t) tx]\<rparr>) = (PollItem ?ask, ?s2)"
    using idle(1) by (simp add: poll_simps)
  have 5: "poll_next L (?t1\<lparr>cn_inbox := [?ask]\<rparr>) = (PollPending, ?t1)"
    using idle(3) rest(6) att by (simp add: poll_simps)
  have "fold (link_step L) (ask_late t tx) ((s, out), (s', out')) =
      ((?s2, out @ [PollItem ?tick, PollPending, PollItem ?ask]), (?t1, out' @ [PollItem ?reply, PollPending]))"
    using rest(3,4) inbox side_steps(3) [OF _ 1, where out = out and r = s' and out' = out']
      side_steps(3) [OF _ 2, where out = out' and r = ?s1 and out' = "out @ [PollItem ?tick]"]
      side_steps(4) [OF _ 3, where out = "out @ [PollItem ?tick]"]
      side_steps(3) [OF _ 4, where out = "out @ [PollItem ?tick, PollPending]" and r = ?t1 and out' = "out' @ [PollItem ?reply]"]
      side_steps(4) [OF _ 5, where out = "out' @ [PollItem ?reply]"]
    by (simp add: ask_late_def side_steps(1,2))
  moreover have "live (out @ [PollItem ?tick, PollPending, PollItem ?ask])" "live (out' @ [PollItem ?reply, PollPending])"
    using rest(3,4) by simp_all
  from idle_link_polled [OF idle(2,3) this assms(6), of L] obtain o1 o2 where "fold (link_step L) polls
      ((?s2, out @ [PollItem ?tick, PollPending, PollItem ?ask]), (?t1, out' @ [PollItem ?reply, PollPending])) = ((?s2, o1), (?t1, o2))"
    by blast
  ultimately show ?thesis using rest(8,9) by simp
qed

section \<open>Messages\<close>

definition mock_ticker :: ticker where
  "mock_ticker = \<lparr>event_type = ''24hrTicker'', event_time = 1622548800000, symbol = ''BTCUSDT'', price_change = ''100.0'',
     price_change_percent = ''1.0'', weighted_avg_price = ''50000.0'', prev_close_price = ''49000.0'', last_price = ''50000.0'',
     last_quantity = ''0.1'', best_bid_price = ''49950.0'', best_bid_quantity = ''0.2'', best_ask_price = ''50050.0'',
     best_ask_quantity = ''0.3'', open_price = ''49000.0'', high_price = ''51000.0'', low_price = ''48000.0'', volume = ''1000.0'',
     quote_volume = ''50000000.0'', open_time = 1622462400000, close_time = 1622548800000, first_trade_id = 100000,
     last_trade_id = 100100, num_trades = 100\<rparr>"

definition test_msg :: "('sig, 'z) oracle_api_scheme \<Rightarrow> oracle_message \<Rightarrow> bool" where
  "test_msg L m = (case decode_message L (encoded L m) of
       None \<Rightarrow> False
     | Some decoded \<Rightarrow> message_type m = message_type decoded \<and> message m = message decoded)"

definition can_decode_msg :: "('sig, 'z) oracle_api_scheme \<Rightarrow> 'sig signer \<Rightarrow> bool" where
  "can_decode_msg L signer =
     (test_msg L ping_msg \<and> test_msg L pong_msg \<and>
      (let buffer = rlp_ticker L mock_ticker in
       case sign_message signer buffer of
         Inl _ \<Rightarrow> False
       | Inr signature \<Rightarrow> recover_address_from_msg L signature buffer = Some (signer_address signer) \<and>
           (let signed_ticker = new_signed_ticker L mock_ticker signature (signer_address signer)
            in test_msg L \<lparr>message_type = TickData, message = SignedTicker signed_ticker\<rparr>)))"

lemma can_decode_msg_passes:
  assumes "oracle_api_ok L" "signer_ok L k" "sign_message k (rlp_ticker L mock_ticker) = Inr sig"
  shows "can_decode_msg L k"
proof -
  note decode = oracle_api_ok.decode_constructed [OF assms(1)]
  from assms(2,3) have "recover_address_from_msg L sig (rlp_ticker L mock_ticker) = Some (signer_address k)"
    by (auto simp: signer_ok_def)
  with assms(3) show ?thesis
    by (simp add: can_decode_msg_def test_msg_def decode decode(2) [unfolded signed_ticker_msg_def])
qed

section \<open>Two oracles\<close>

text \<open>A stream of one ticker, which then ends.\<close>

definition e2e_ticker :: ticker where
  "e2e_ticker = \<lparr>event_type = ''24hrTicker'', event_time = 1698323450000, symbol = ''BTCUSDT'', price_change = ''100.00'',
     price_change_percent = ''2.5'', weighted_avg_price = ''40200.00'', prev_close_price = ''40000.00'', last_price = ''40100.00'',
     last_quantity = ''0.5'', best_bid_price = ''40095.00'', best_bid_quantity = ''1.0'', best_ask_price = ''40105.00'',
     best_ask_quantity = ''1.0'', open_price = ''39900.00'', high_price = ''40500.00'', low_price = ''39800.00'', volume = ''1500'',
     quote_volume = ''60000000'', open_time = 1698237050000, close_time = 1698323450000, first_trade_id = 1,
     last_trade_id = 2000, num_trades = 2000\<rparr>"

definition mock_stream :: "(err + data_feeds) source" where
  "mock_stream = \<lparr>src_items = [Inr (BinanceFeed e2e_ticker)], src_closed = True\<rparr>"

text \<open>
  What the test does with each oracle, but for the session between them: it starts it, lets it
  be polled, and looks at the first ticker on its broadcast channel.
\<close>

definition e2e_oracle ::
  "('sig, 'z) oracle_api_scheme \<Rightarrow> 'sig signer \<Rightarrow> ('c, 'h, 'ou) state_api \<Rightarrow> ('tab, 'enr, 'renr, 'sock) discv5_api \<Rightarrow> 'ou \<Rightarrow> u16 \<Rightarrow> u16 \<Rightarrow> bool" where
  "e2e_oracle L signer A V default_outcome tcp_port udp_port =
     (case start_oracle V \<lparr>src_items = [], src_closed = False\<rparr> default_outcome [] tcp_port udp_port mock_stream of
        (Inl _, _) \<Rightarrow> False
      | (Inr oracle_future, _) \<Rightarrow>
          (case oracle_poll poll_source L signer A (discovery_add_node V)
             (oracle_future :: ('c, 'h, 'ou, 'tab, 'enr, 'sock, unit, (err + data_feeds) source) oracle_future) of
             None \<Rightarrow> False
           | Some (_, oracle_future) \<Rightarrow>
               (case or_to_peers oracle_future of
                  [] \<Rightarrow> False
                | signed_ticker # _ \<Rightarrow> symbol (st_ticker signed_ticker) = ''BTCUSDT'' \<and> st_signer signed_ticker = signer_address signer)))"

definition e2e_oracles ::
  "('sig, 'z) oracle_api_scheme \<Rightarrow> 'sig signer \<Rightarrow> 'sig signer \<Rightarrow> ('c, 'h, 'ou) state_api \<Rightarrow> ('tab, 'enr, 'renr, 'sock) discv5_api \<Rightarrow> 'ou \<Rightarrow> bool" where
  "e2e_oracles L signer_1 signer_2 A V default_outcome =
     (e2e_oracle L signer_1 A V default_outcome 30303 30304 \<and> e2e_oracle L signer_2 A V default_outcome 30305 30306)"

lemma e2e_oracle_passes:
  fixes V :: "('tab, 'enr, 'renr, 'sock) discv5_api" and A :: "('c, 'h, 'ou) state_api"
  assumes "\<forall>disc rlpx. \<exists>table. dv_start V disc rlpx = Inr (table, \<lparr>src_items = [], src_closed = False\<rparr>)"
    and "sign_message k (rlp_ticker L e2e_ticker) = Inr sig"
  shows "e2e_oracle L k A V ou tcp udp"
proof -
  let ?any = "''0.0.0.0:''"
  let ?none = "\<lparr>src_items = [], src_closed = False\<rparr>"
  from assms(1) obtain table where start: "dv_start V (?any @ dec_string (unat udp)) (?any @ dec_string (unat tcp)) = Inr (table, ?none)"
    by blast
  define s :: "('c, 'h, 'ou, 'tab, 'enr, 'sock, unit, (err + data_feeds) source) oracle_future" where
    "s = new_oracle (new_exex_task ?none ou) \<lparr>nw_discovery = \<lparr>dc_table = table, dc_events = ?none\<rparr>, nw_proto_events = ?none\<rparr> mock_stream []"
  have started: "fst (start_oracle V ?none ou [] tcp udp mock_stream) = Inr s"
    using start by (simp add: start_oracle_def new_proto_handler_def new_network_def network_addresses_def new_discovery_def Let_def s_def)
  have net: "add_nodes (discovery_add_node V) (src_items (dc_events (nw_discovery (or_network s)))) (dc_table (nw_discovery (or_network s))) = Inr table"
    and running: "\<not> src_closed (dc_events (nw_discovery (or_network s)))"
    by (simp_all add: s_def new_oracle_def)
  have y: "yields poll_source (or_data_feed s) [e2e_ticker] (drained (or_data_feed s))"
    by (rule source_yields) (simp add: s_def new_oracle_def mock_stream_def)
  have sign: "\<forall>t \<in> set [e2e_ticker]. sign_message k (rlp_ticker L t) = Inr sig" using assms(2) by simp
  obtain x where "poll_until_pending (\<lambda>x. Some (exex_poll A x)) (or_exex s) = Some (None, x)"
    using exex_drain [of A "or_exex s"] by (auto simp: s_def new_oracle_def new_exex_task_def in_memory_exex_def)
  then obtain s' where poll: "oracle_poll poll_source L k A (discovery_add_node V) s = Some (Pending, s')"
    by (simp add: oracle_poll_def network_drain [OF net] running feed_loop_ok [OF y sign])
  from oracle_poll_broadcasts [OF net y sign poll] have "or_to_peers s' = [new_signed_ticker L e2e_ticker sig (signer_address k)]"
    by (simp add: s_def new_oracle_def)
  with poll started show ?thesis
    by (auto simp: e2e_oracle_def new_signed_ticker_def e2e_ticker_def split: prod.split)
qed

lemma e2e_oracles_pass:
  fixes V :: "('tab, 'enr, 'renr, 'sock) discv5_api" and A :: "('c, 'h, 'ou) state_api"
  assumes "\<forall>disc rlpx. \<exists>table. dv_start V disc rlpx = Inr (table, \<lparr>src_items = [], src_closed = False\<rparr>)"
    and "sign_message k1 (rlp_ticker L e2e_ticker) = Inr sig1" "sign_message k2 (rlp_ticker L e2e_ticker) = Inr sig2"
  shows "e2e_oracles L k1 k2 A V ou"
  unfolding e2e_oracles_def
  by (intro conjI e2e_oracle_passes [OF assms(1,2)] e2e_oracle_passes [OF assms(1,3)])

end
