(* ===== verification/Spec2Isabelle.thy ===== *)
theory Spec2Isabelle
  imports Rollup_Fork Rollup_Tests Exex_Sessions Codec_Received Remote_System Exex_Tests Backfill_Main Oracle_Node Oracle_Tests
begin

text \<open>
  A verification development for reth-exex-examples: the execution extensions (ExExes) of the
  repository, each a program that a reth node feeds with notifications of committed, reorged and
  reverted chains, and that reports the heights it has finished.

  \<^bold>\<open>Parts and how they interact.\<close> Every ExEx is a handler of notifications over a state of its own
  and an event channel. The contract is the locale \<open>exex_handler\<close> of \<open>Exex_Types\<close>: a height is
  reported for every committed chain that was processed without an error, in order, and for
  nothing else; \<open>run_exex\<close> is the loop \<open>while let Some(n) = notifications.try_next().await?\<close>. The
  locale is interpreted on the rollup, the OP bridge, the backfill ExEx, the minimal ExEx, the
  in-memory ExEx and the node side of the remote ExEx; \<open>persistent_exex\<close> extends it for the two
  that keep their state in a database file.

  \<^bold>\<open>Theories and the code they model\<close>, in the order of the imports:

  \<^item> \<open>Prelude\<close>: machine integers as words, errors as values (\<open>err + 'a\<close>, \<open>and_then\<close> for \<open>?\<close>), the
    collection \<open>res\<close>, decimal text, byte strings, association lists for hash maps.
  \<^item> \<open>Sql_Tables\<close>: SQLite tables as keyed rows; the locale \<open>keyed_store\<close> and its interpretation.
  \<^item> \<open>Broadcast\<close>: tokio's broadcast channel: a receiver's position in the log, lag and closing, for
    the remote ExEx and the oracle.
  \<^item> \<open>Rollup_Text\<close>, \<open>Rollup_Db\<close>, \<open>Rollup_Views\<close>, \<open>Rollup_Insert\<close>, \<open>Rollup_Revert\<close>, \<open>Rollup_Rows\<close>,
    \<open>Rollup_Props\<close>: rollup/src/db.rs. \<open>rollup_text\<close> are the conversions between values and the
    texts the database stores (a parameter with the laws of \<open>rollup_text_ok\<close>); \<open>Rollup_Db\<close> has the
    tables and the two transactions statement by statement; the views read a database as a map of
    accounts and a map of slots; then come the effects of an insertion and of a revert on the maps.
  \<^item> \<open>Rollup_Exec\<close>: rollup/src/execution.rs: header, decoding of block data, the execution loop.
  \<^item> \<open>Rollup_Main\<close>, \<open>Rollup_Main_Props\<close>: rollup/src/main.rs: events, commit, revert, the loop.
  \<^item> \<open>Rollup_Blobs\<close>, \<open>Rollup_Replay\<close>, \<open>Rollup_Reorg\<close>, \<open>Rollup_Fork\<close>, \<open>Rollup_Tests\<close>: submissions by
    blobs and by calldata, executing again after a revert, whole chains that are undone (the relation
    \<open>undone\<close>), reorgs (\<open>alike\<close>: databases the rollup cannot tell apart), and the test of
    execution.rs with its submitter.
  \<^item> \<open>Op_Bridge\<close>: op-bridge/src/main.rs.
  \<^item> \<open>Exex_Sessions\<close>: \<open>Rollup::new\<close>, \<open>Database::new\<close> on an existing file, \<open>init\<close> of the bridge and the
    closures that both \<open>main\<close> functions install: runs from a database file to a database file.
  \<^item> \<open>Codec_Types\<close>, \<open>Codec_Prims\<close>, \<open>Codec_Encode\<close>, \<open>Codec_Decode\<close>, \<open>Codec_Props\<close>, \<open>Codec_Accept\<close>,
    \<open>Codec_Received\<close>: remote/src/codec.rs and the messages of remote/proto/exex.proto; \<open>travels\<close> is
    the round trip of one conversion, closed under lists and options; \<open>Codec_Accept\<close> has the types of
    the messages, and that exactly those decode (\<open>codec_prims_total\<close>: slices of the right width do);
    \<open>Codec_Received\<close> types what decodes.
  \<^item> \<open>Remote\<close>, \<open>Remote_System\<close>: remote/bin/exex.rs and remote/bin/consumer.rs: the node loop, the
    tasks that forward the broadcast to the clients, and the clients, as a step relation over the
    log of what was broadcast; the invariant \<open>sub_inv\<close> relates the messages on their way to that
    log; then all of them as the one system that \<open>main\<close> starts.
  \<^item> \<open>Backfill\<close>, \<open>Backfill_Main\<close>: backfill/src/main.rs and rpc.rs: the ExEx, its permits and jobs and
    the tasks it spawns as a step relation, with a task in one of three phases (an instance of
    \<open>linorder\<close>: tasks only move forward); \<open>backfill_inv\<close> is its invariant and \<open>backfill_weight\<close> the
    measure that every step without a new request decreases; then the \<open>select!\<close> loop over
    notifications, messages and requests, and what \<open>main\<close> sets up.
  \<^item> \<open>Small_Exex\<close>: minimal/src/main.rs and in-memory-state/src/main.rs (repeated in
    oracle/src/exex.rs), the execution outcome being a parameter with the laws of
    \<open>outcome_history\<close>; \<open>canonical\<close> is the chain that the in-memory ExEx is to follow.
  \<^item> \<open>Exex_Tests\<close>: the tests of the OP bridge, the in-memory ExEx and the minimal ExEx.
  \<^item> \<open>Poll_Loops\<close>, \<open>Discv5_Start\<close>: discv5/src: polls that poll other futures in loops, and the
    arguments and constructors. A channel is a \<open>source\<close>: the items that are ready and whether it
    ends after them. A loop that may spin is a partial function whose value \<open>None\<close> is a poll that
    never returns, tokio's cooperative budget apart.
  \<^item> \<open>Oracle_Proto\<close>: oracle/src/network/proto/mod.rs, data.rs and the ticker; the locale
    \<open>oracle_api_ok\<close> has the laws of RLP and signatures, interpreted on \<open>std_oracle_api\<close>.
  \<^item> \<open>Oracle_Connection\<close>, \<open>Oracle_Gossip\<close>, \<open>Oracle_Link\<close>: oracle/src/network/proto/connection.rs: one
    poll of a connection, runs of polls interleaved with arriving commands, ticks and messages, and
    two connections whose messages are delivered to each other.
  \<^item> \<open>Binance\<close>: oracle/src/offchain_data: retries, ticker stream, reconnection.
  \<^item> \<open>Oracle_Task\<close>, \<open>Oracle_Start\<close>, \<open>Oracle_Node\<close>: oracle/src/oracle.rs, main.rs, cli_ext.rs,
    network/mod.rs, network/discovery.rs: the future that drives the network, the data feed and the
    ExEx, how it is started, and a node whose oracle and connections run interleaved.
  \<^item> \<open>Oracle_Tests\<close>: the tests of the oracle, for the sessions that its test network sets up.

  \<^bold>\<open>What the groups of lemmas show.\<close> For the rollup: every operation keeps the database well formed
  and refines an update of the two maps, a revert undoes an insertion, committing and reverting
  a chain through both handlers restores the state, whatever is executed next gives what it gave
  before, a reorg is as if the old chain had never been there, blobs are as good as calldata, and
  restarts are invisible; with the exact conditions under which a revert does not restore (text order
  of block numbers, undo rows that stay, wiped storage, skipped blocks). For the codec: a notification survives the wire up to the fields the messages
  lack, and exactly the well typed messages decode. For the remote service: a client sees consecutive
  notifications, decoded. For the bridge: when it commits, what it has
  written when it fails, and that a revert restores both tables. The in-memory ExEx holds the blocks of
  the canonical chain, unless a revert reaches the first block of its outcome.
  For backfill: bookkeeping, the outcomes of start and cancel, and coming to rest. For the oracle:
  messages round trip, attestations are backed by signatures, tickers are forwarded in order, and
  what one poll does or that it never returns. \<open>Remote_System\<close> composes the remote ExEx from the node
  to the clients, and the last section of this theory the oracle from its data feed to the
  attestations of a peer.

  \<^bold>\<open>Parameters.\<close> Code outside the repository (reth, revm, alloy, SQLite's JSON texts, RLP, signatures,
  WebSocket, JSON, discv5's table) is a record of functions; what the code relies on is a named
  hypothesis or a locale assumption, and each has a concrete instance for the witnesses
  (\<open>ref_text\<close>, \<open>ref_exec\<close>, \<open>blob_exec\<close>, \<open>blob_submitter\<close>, \<open>ref_chain\<close>, \<open>std_prims\<close>, \<open>std_exex_api\<close>,
  \<open>demo_state_api\<close>, \<open>std_oracle_api\<close>).

  \<^bold>\<open>Bounds.\<close> No fuel is used: every function is structurally recursive, has a measure, or is a partial
  function. Runs of the backfill ExEx are counted, below \<open>2^64\<close> steps, so that the 64-bit job ids
  do not wrap. The \<open>mpsc\<close> channels of the remote service have capacity 1, as in the code; the
  capacity of a broadcast channel is a parameter, since the code asks for 1 and for 200 and tokio
  may give more. Arithmetic on words wraps, as in a release build.

  \<^bold>\<open>Not modelled.\<close> The building and launching of a reth node around the closures that the \<open>main\<close>
  functions install, clap, the protobuf build, logging, wakers, the fairness of the executor and tokio's cooperative
  budget, the
  transport under gRPC and RLPx, SQLite itself beyond the statements used, \<open>Display\<close> and \<open>Error\<close> of
  the error types, and the tests of the discv5 sessions: all of them call libraries and hold no
  state of the programs.
\<close>

section \<open>From the data feed to a peer's attestations\<close>

text \<open>
  Property C18. The oracle from end to end: the Binance frames that are ready when the oracle is
  polled, up to the first one that holds no ticker, are decoded, signed and broadcast by the time
  the poll returns. Whatever else happens on a connection to which they are broadcast (commands,
  messages, polls, in any order), once the connection has sent what it had to send without
  lagging, a peer that receives its messages holds exactly one attestation by the oracle's signer
  for each of these tickers, under the hash of the ticker.
\<close>

theorem oracle_ticks_are_attested:
  assumes "oracle_api_ok L" "signer_ok L k"
    and "add_nodes add_node (src_items (dc_events (nw_discovery (or_network s)))) (dc_table (nw_discovery (or_network s))) = Inr tab"
    and "bc_reconnection (or_data_feed s) = None"
    and "ticks = List.map_filter (frame_ticker F) (takeWhile (\<lambda>x. frame_ticker F x \<noteq> None) (ready_frames (or_data_feed s)))"
    and "\<forall>t \<in> set ticks. sign_message k (rlp_ticker L t) = Inr (sg t)"
    and "oracle_poll (binance_feed to_report F) L k A add_node s = Some (r, s')"
    and "broadcast_tickers events = drop (length (or_to_peers s)) (or_to_peers s')"
    and "run_connection L cap is_outgoing events = (c, out)" "keeps_up L cap is_outgoing events"
    and "unread (cn_signed_ticks c) = []"
  shows "attestations_for (fst (run_connection L cap' False (delivers out))) i
    = replicate (length (filter (\<lambda>t. keccak256 L (rlp_ticker L t) = i) ticks)) (signer_address k)"
proof -
  let ?a = "signer_address k" and ?ts = "map (\<lambda>t. new_signed_ticker L t (sg t) (signer_address k)) ticks"
  obtain d where "yields (binance_feed to_report F) (or_data_feed s) ticks d"
    using binance_yields [OF assms(4) refl] assms(5) by auto
  from oracle_poll_broadcasts [OF assms(3) this assms(6,7)] assms(8) have sent: "broadcast_tickers events = ?ts" by simp
  from oracle_api_ok.run_ticks [OF assms(1), of cap is_outgoing events] assms(9-11) sent
  have out: "sent_tickers L out = ?ts" "list_all (own_result L) out" by (simp_all add: ticks_inv_def Let_def)
  have "accepted L ?a (new_signed_ticker L t (sg t) ?a)" if "t \<in> set ticks" for t
    using oracle_api_ok.signed_ticker_accepted [OF assms(1,2), of t "sg t" "st_id (new_signed_ticker L t (sg t) ?a)"] assms(6) that
    by (simp add: accepted_def relabelled_def)
  with oracle_api_ok.peer_counts [OF assms(1) out(2), of ?a cap'] out(1) show ?thesis
    by (auto simp: filter_map comp_def new_signed_ticker_def)
qed

text \<open>Two frames are ready; both tickers are broadcast between the polls of an outgoing connection.\<close>

definition demo_frames_api :: "(unit, unit) feed_api" where
  "demo_frames_api = \<lparr>into_text = (\<lambda>_. Inr ''frame''), from_json = (\<lambda>_. Inr \<lparr>rs_stream = ''btcusdc@ticker'', rs_data = demo_ticker\<rparr>)\<rparr>"

definition demo_binance :: "(unit, unit) binance_connection" where
  "demo_binance = \<lparr>bc_inner = \<lparr>fd_inner = \<lparr>src_items = [Inr (), Inr ()], src_closed = False\<rparr>, fd_symbols = [''btcusdc'']\<rparr>,
     bc_reconnection = None\<rparr>"

definition demo_binance_oracle :: "(u64 \<times> nat list, nat, nat list, nat list, nat, unit, unit, (unit, unit) binance_connection) oracle_future" where
  "demo_binance_oracle = new_oracle (or_exex demo_oracle) (or_network demo_oracle) demo_binance []"

abbreviation demo_schedule :: "connection_event list" where
  "demo_schedule \<equiv> [Polled, TickBroadcast demo_signed, TickBroadcast demo_signed, Polled, Polled]"

lemma demo_schedule_sent:
  "unread (cn_signed_ticks (fst (run_connection std_oracle_api BROADCAST_CHANNEL_SIZE True demo_schedule))) = []"
  by (simp add: run_connection_def into_connection_def poll_next_def poll_loop.simps serve_def BROADCAST_CHANNEL_SIZE_def
      recv_def recv_at_def subscribe_to_def sent_to_def unread_def)

lemma demo_binance_frames:
  "List.map_filter (frame_ticker demo_frames_api) (takeWhile (\<lambda>x. frame_ticker demo_frames_api x \<noteq> None) (ready_frames demo_binance))
     = [demo_ticker, demo_ticker]"
  by (simp add: demo_binance_def ready_frames_def frame_ticker_def demo_frames_api_def List.map_filter_simps)

theorem oracle_ticks_are_attested_witness:
  "attestations_for (fst (run_connection std_oracle_api 200 False (delivers (snd (run_connection std_oracle_api BROADCAST_CHANNEL_SIZE
       True demo_schedule))))) (keccak256 std_oracle_api (rlp_ticker std_oracle_api demo_ticker)) = [7, 7]"
proof -
  let ?add = "\<lambda>n t. Inr (n # t) :: err + nat list" and ?feed = "binance_feed (\<lambda>_. Eyre ''feed'') demo_frames_api"
    and ?s = demo_binance_oracle
  have net: "add_nodes ?add (src_items (dc_events (nw_discovery (or_network ?s)))) (dc_table (nw_discovery (or_network ?s))) = Inr [3]"
    by (simp add: demo_binance_oracle_def demo_oracle_defs)
  have feed: "or_data_feed ?s = demo_binance" "or_to_peers ?s = []" "or_exex ?s = or_exex demo_oracle"
    by (simp_all add: demo_binance_oracle_def new_oracle_def)
  obtain d where y: "yields ?feed (or_data_feed ?s) [demo_ticker, demo_ticker] d"
    using binance_yields [of demo_binance "ready_frames demo_binance" "\<lambda>_. Eyre ''feed''" demo_frames_api, OF _ refl]
    unfolding demo_binance_frames feed by (auto simp: demo_binance_def)
  have sign: "\<forall>t \<in> set [demo_ticker, demo_ticker]. sign_message demo_signer (rlp_ticker std_oracle_api t) = Inr 7"
    by (simp add: demo_signer_def)
  obtain s' where poll: "oracle_poll ?feed std_oracle_api demo_signer demo_state_api ?add ?s = Some (Pending, s')"
    and signed: "or_to_peers s' = [demo_signed, demo_signed]"
    using demo_poll [OF _ feed(3) y] by (auto simp: demo_binance_oracle_def new_oracle_def)
  obtain c out where run: "run_connection std_oracle_api BROADCAST_CHANNEL_SIZE True demo_schedule = (c, out)" by fastforce
  have keeps: "keeps_up std_oracle_api BROADCAST_CHANNEL_SIZE True demo_schedule"
    by (rule keeps_up_small [OF std_oracle.oracle_api_ok_axioms]) (simp add: List.map_filter_simps BROADCAST_CHANNEL_SIZE_def)
  have "attestations_for (fst (run_connection std_oracle_api 200 False (delivers out))) (keccak256 std_oracle_api (rlp_ticker std_oracle_api demo_ticker))
    = replicate (length (filter (\<lambda>t. keccak256 std_oracle_api (rlp_ticker std_oracle_api t)
        = keccak256 std_oracle_api (rlp_ticker std_oracle_api demo_ticker)) [demo_ticker, demo_ticker])) (signer_address demo_signer)"
    by (rule oracle_ticks_are_attested [OF std_oracle.oracle_api_ok_axioms demo_signer_ok net _ _ sign poll _ run keeps])
      (use demo_schedule_sent in \<open>simp_all add: feed demo_binance_frames [unfolded not_None_eq] signed run List.map_filter_simps, simp add: demo_binance_def\<close>)
  then show ?thesis by (simp add: run demo_signer_def numeral_2_eq_2)
qed

end
